(* ===== verification/Luv_Prelude.thy ===== *)
theory Luv_Prelude
  imports Main "HOL-Library.Word"
begin

text \<open>
  Shared vocabulary of the development: the machine integers of the C code, the result type of
  fallible operations, flag words, and the generic lemmas on lists, options and words that the
  component theories use.  Three collections of rewrite rules carry most component proofs:
  \<open>res_simps\<close> (sequencing of fallible operations), \<open>flag_simps\<close> (bit flags) and
  \<open>queue_simps\<close> (reads and writes of queue links).
\<close>

unbundle bit_operations_syntax

named_theorems res_simps "sequencing of fallible operations"
named_theorems flag_simps "tests and updates of flag words"
named_theorems queue_simps "reads and writes of queue links"

section \<open>Machine integers\<close>

type_synonym u8 = "8 word"
type_synonym u32 = "32 word"
type_synonym u64 = "64 word"
type_synonym bytes = "u8 list"

text \<open>The bytes of a C string literal.\<close>

definition str :: "string \<Rightarrow> bytes" where
  "str s = map (\<lambda>c. word_of_nat (of_char c)) s"

section \<open>Results of fallible operations\<close>

text \<open>
  A C function of the program can return normally, leave through a Lua error (a \<open>longjmp\<close> out of
  \<open>luaL_error\<close> or \<open>lua_error\<close>; the state changes made before the jump stay), or hit one of the
  situations below, after which nothing is promised: a failed \<open>assert\<close>, a null pointer
  dereference, an access outside a buffer or of memory never written, a shift by the width of
  its operand or more, a conversion of a double that does not fit its integer type, a queue
  link read as a member of the wrong struct, or a Lua error that no protected call catches.
  \<open>No_Return\<close> stands for a loop that does not end within the given fuel.
\<close>

datatype fault =
    Assertion_Failed
  | Null_Deref
  | Out_Of_Bounds
  | Uninitialized
  | Bad_Shift
  | Bad_Conversion
  | Wrong_Struct
  | Stack_Imbalance
  | Lua_Panic
  | No_Return

datatype ('e, 'a, 's) res =
    Done 'a 's
  | Raise 'e 's
  | Fail fault

fun bindR :: "('e, 'a, 's) res \<Rightarrow> ('a \<Rightarrow> 's \<Rightarrow> ('e, 'b, 's) res) \<Rightarrow> ('e, 'b, 's) res" where
  "bindR (Done a s) f = f a s"
| "bindR (Raise e s) f = Raise e s"
| "bindR (Fail x) f = Fail x"

declare bindR.simps [res_simps]

lemma bindR_Done_iff [res_simps]:
  "bindR m f = Done b t \<longleftrightarrow> (\<exists>a s. m = Done a s \<and> f a s = Done b t)"
  by (cases m) auto

lemma bindR_Fail_iff [res_simps]:
  "bindR m f = Fail x \<longleftrightarrow> m = Fail x \<or> (\<exists>a s. m = Done a s \<and> f a s = Fail x)"
  by (cases m) auto

lemma bindR_Raise_iff [res_simps]:
  "bindR m f = Raise e t \<longleftrightarrow> m = Raise e t \<or> (\<exists>a s. m = Done a s \<and> f a s = Raise e t)"
  by (cases m) auto

lemma bindR_assoc: "bindR (bindR m f) g = bindR m (\<lambda>a s. bindR (f a s) g)"
  by (cases m) auto

lemma bindR_unit: "bindR m Done = m"
  by (cases m) auto

text \<open>A pointer read that is a null pointer when the option is \<open>None\<close>.\<close>

definition deref :: "'a option \<Rightarrow> 's \<Rightarrow> ('e, 'a, 's) res" where
  "deref p s = (case p of None \<Rightarrow> Fail Null_Deref | Some a \<Rightarrow> Done a s)"

lemma deref_simps [simp, res_simps]:
  "deref None s = Fail Null_Deref"
  "deref (Some a) s = Done a s"
  by (simp_all add: deref_def)

text \<open>A failed C \<open>assert\<close> aborts the process.\<close>

definition c_assert :: "bool \<Rightarrow> 's \<Rightarrow> ('e, unit, 's) res" where
  "c_assert b s = (if b then Done () s else Fail Assertion_Failed)"

lemma c_assert_simps [simp, res_simps]:
  "c_assert True s = Done () s"
  "c_assert False s = Fail Assertion_Failed"
  by (simp_all add: c_assert_def)

section \<open>Flag words\<close>

text \<open>C's \<open>flags & F\<close>, \<open>flags |= F\<close> and \<open>flags &= ~F\<close> on \<open>int\<close> flag words.\<close>

definition has_flag :: "u32 \<Rightarrow> u32 \<Rightarrow> bool" where
  "has_flag fl f \<longleftrightarrow> fl AND f \<noteq> 0"

definition set_flag :: "u32 \<Rightarrow> u32 \<Rightarrow> u32" where
  "set_flag f fl = fl OR f"

definition clear_flag :: "u32 \<Rightarrow> u32 \<Rightarrow> u32" where
  "clear_flag f fl = fl AND NOT f"

definition flag_bit :: "nat \<Rightarrow> u32" where
  "flag_bit n = push_bit n 1"

lemma bit_flag_bit: "bit (flag_bit n) m \<longleftrightarrow> m = n \<and> n < 32"
  by (auto simp: flag_bit_def bit_simps)

lemma has_flag_bit: "n < 32 \<Longrightarrow> has_flag fl (flag_bit n) \<longleftrightarrow> bit fl n"
proof -
  assume n: "n < 32"
  have "fl AND flag_bit n = (if bit fl n then flag_bit n else 0)"
    using n by (intro bit_word_eqI) (auto simp: bit_simps bit_flag_bit)
  moreover have "flag_bit n \<noteq> 0"
    using n bit_flag_bit [of n n] by auto
  ultimately show ?thesis by (simp add: has_flag_def)
qed

lemma has_flag_set [flag_simps]:
  assumes "n < 32" "m < 32"
  shows "has_flag (set_flag (flag_bit m) fl) (flag_bit n) \<longleftrightarrow> n = m \<or> has_flag fl (flag_bit n)"
  using assms by (auto simp: has_flag_bit set_flag_def bit_simps bit_flag_bit)

lemma has_flag_clear [flag_simps]:
  assumes "n < 32" "m < 32"
  shows "has_flag (clear_flag (flag_bit m) fl) (flag_bit n) \<longleftrightarrow> n \<noteq> m \<and> has_flag fl (flag_bit n)"
  using assms by (auto simp: has_flag_bit clear_flag_def bit_simps bit_flag_bit)

lemma has_flag_zero [simp, flag_simps]: "\<not> has_flag 0 f"
  by (simp add: has_flag_def)

lemma set_flag_idem [simp]: "set_flag f (set_flag f fl) = set_flag f fl"
  by (simp add: set_flag_def or.assoc)

lemma clear_flag_idem [simp]: "clear_flag f (clear_flag f fl) = clear_flag f fl"
  by (simp add: clear_flag_def and.assoc)

lemma clear_set_flag: "clear_flag f (set_flag f fl) = clear_flag f fl"
  by (rule bit_word_eqI) (auto simp: clear_flag_def set_flag_def bit_simps)

lemma set_flag_present:
  assumes "has_flag fl (flag_bit n)" "n < 32"
  shows "set_flag (flag_bit n) fl = fl"
  using assms by (intro bit_word_eqI) (auto simp: has_flag_bit set_flag_def bit_simps bit_flag_bit)

lemma clear_flag_absent:
  assumes "\<not> has_flag fl (flag_bit n)" "n < 32"
  shows "clear_flag (flag_bit n) fl = fl"
  using assms by (intro bit_word_eqI) (auto simp: has_flag_bit clear_flag_def bit_simps bit_flag_bit)

section \<open>Loops\<close>

text \<open>
  \<open>repeatR c s\<close> runs \<open>c\<close> until it answers \<open>False\<close>; it is \<open>None\<close> exactly when that never happens.
  \<open>loopR\<close> reads this as the fault \<open>No_Return\<close>, and \<open>whileR b c\<close> is C's \<open>while (b) c\<close>.
\<close>

partial_function (option) repeatR ::
    "('s \<Rightarrow> ('e, bool, 's) res) \<Rightarrow> 's \<Rightarrow> ('e, unit, 's) res option" where
  "repeatR c s =
     (case c s of
        Done again s \<Rightarrow> if again then repeatR c s else Some (Done () s)
      | Raise e s \<Rightarrow> Some (Raise e s)
      | Fail x \<Rightarrow> Some (Fail x))"

declare repeatR.simps [code]

definition loopR :: "('s \<Rightarrow> ('e, bool, 's) res) \<Rightarrow> 's \<Rightarrow> ('e, unit, 's) res" where
  "loopR c s = (case repeatR c s of None \<Rightarrow> Fail No_Return | Some r \<Rightarrow> r)"

lemma loopR_unfold:
  "loopR c s =
     (case c s of
        Done again s \<Rightarrow> if again then loopR c s else Done () s
      | Raise e s \<Rightarrow> Raise e s
      | Fail x \<Rightarrow> Fail x)"
  unfolding loopR_def by (subst repeatR.simps) (simp split: res.splits)

definition whileR :: "('s \<Rightarrow> bool) \<Rightarrow> ('s \<Rightarrow> ('e, unit, 's) res) \<Rightarrow> 's \<Rightarrow> ('e, unit, 's) res" where
  "whileR b c = loopR (\<lambda>s. if b s then bindR (c s) (\<lambda>_ s. Done True s) else Done False s)"

lemma whileR_unfold: "whileR b c s = (if b s then bindR (c s) (\<lambda>_ s. whileR b c s) else Done () s)"
  unfolding whileR_def by (subst loopR_unfold) (cases "c s"; simp)

lemma whileR_simps [res_simps]:
  "\<not> b s \<Longrightarrow> whileR b c s = Done () s"
  "b s \<Longrightarrow> whileR b c s = bindR (c s) (\<lambda>_ s. whileR b c s)"
  by (subst whileR_unfold, simp)+

text \<open>What holds of every normal end of a loop, whether or not it ends.\<close>

lemma loopR_Done_induct:
  fixes c :: "'s \<Rightarrow> ('e, bool, 's) res"
  assumes run: "loopR c s = Done u t" and init: "I s"
    and step: "\<And>s s'. I s \<Longrightarrow> c s = Done True s' \<Longrightarrow> I s'"
    and stop: "\<And>s s'. I s \<Longrightarrow> c s = Done False s' \<Longrightarrow> P s'"
  shows "P t"
proof -
  from run have ret: "repeatR c s = Some (Done u t)"
    by (auto simp: loopR_def split: option.splits)
  let ?P = "\<lambda>c' s (r :: ('e, unit, 's) res). c' = c \<longrightarrow> I s \<longrightarrow> r = Done u t \<longrightarrow> P t"
  have "?P c s (Done u t)"
  proof (rule repeatR.raw_induct [where P = ?P, OF _ ret])
    fix f :: "('s \<Rightarrow> ('e, bool, 's) res) \<Rightarrow> 's \<Rightarrow> ('e, unit, 's) res option" and c' :: "'s \<Rightarrow> ('e, bool, 's) res" and s r
    assume IH: "\<And>c s r. f c s = Some r \<Longrightarrow> ?P c s r"
      and eq: "(case c' s of Done again s \<Rightarrow> if again then f c' s else Some (Done () s)
        | Raise e s \<Rightarrow> Some (Raise e s) | Fail x \<Rightarrow> Some (Fail x)) = Some r"
    show "?P c' s r"
      using eq IH step stop by (cases "c s") (auto split: if_splits)
  qed
  with init show ?thesis by simp
qed

text \<open>A loop whose every round lowers a measure ends.\<close>

lemma loopR_returns:
  fixes m :: "'s \<Rightarrow> nat"
  assumes init: "I s"
    and safe: "\<And>s. I s \<Longrightarrow> c s \<noteq> Fail No_Return"
    and step: "\<And>s s'. I s \<Longrightarrow> c s = Done True s' \<Longrightarrow> I s' \<and> m s' < m s"
  shows "loopR c s \<noteq> Fail No_Return"
  using init
proof (induction "m s" arbitrary: s rule: less_induct)
  case less
  note safe [OF less.prems]
  moreover have "loopR c s' \<noteq> Fail No_Return" if "c s = Done True s'" for s'
    using less.hyps step [OF less.prems that] by blast
  ultimately show ?case
    by (subst loopR_unfold) (auto split: res.splits)
qed

text \<open>How a loop that keeps an invariant ends, if it ends: by a round from a state with the invariant.\<close>

lemma loopR_outcome:
  fixes c :: "'s \<Rightarrow> ('e, bool, 's) res"
  assumes run: "loopR c s = r" "r \<noteq> Fail No_Return" and init: "I s"
    and step: "\<And>s s'. I s \<Longrightarrow> c s = Done True s' \<Longrightarrow> I s'"
  shows "\<exists>s'. I s' \<and> (\<exists>t. r = Done () t \<and> c s' = Done False t \<or> (\<exists>e. r = Raise e t \<and> c s' = Raise e t) \<or>
    (\<exists>x. r = Fail x \<and> c s' = Fail x))"
proof -
  let ?fin = "\<lambda>r. \<exists>s'. I s' \<and> (\<exists>t. r = Done () t \<and> c s' = Done False t \<or> (\<exists>e. r = Raise e t \<and> c s' = Raise e t) \<or>
    (\<exists>x. r = Fail x \<and> c s' = Fail x))"
  from run have ret: "repeatR c s = Some r"
    by (auto simp: loopR_def split: option.splits)
  let ?P = "\<lambda>c' s (r :: ('e, unit, 's) res). c' = c \<longrightarrow> I s \<longrightarrow> ?fin r"
  have "?P c s r"
  proof (rule repeatR.raw_induct [where P = ?P, OF _ ret])
    fix f :: "('s \<Rightarrow> ('e, bool, 's) res) \<Rightarrow> 's \<Rightarrow> ('e, unit, 's) res option" and c' :: "'s \<Rightarrow> ('e, bool, 's) res" and s r
    assume IH: "\<And>c s r. f c s = Some r \<Longrightarrow> ?P c s r"
      and eq: "(case c' s of Done again s \<Rightarrow> if again then f c' s else Some (Done () s)
        | Raise e s \<Rightarrow> Some (Raise e s) | Fail x \<Rightarrow> Some (Fail x)) = Some r"
    show "?P c' s r"
    proof (intro impI)
      assume c: "c' = c" and I: "I s"
      show "?fin r"
      proof (cases "c s")
        case (Done again s1)
        with eq c IH step [OF I] I show ?thesis by (cases again) force+
      qed (use eq c I in auto)
    qed
  qed
  with init show ?thesis by simp
qed

text \<open>A loop whose every round goes on never ends.\<close>

lemma loopR_diverges:
  assumes init: "I s" and step: "\<And>s. I s \<Longrightarrow> \<exists>s'. c s = Done True s' \<and> I s'"
  shows "loopR c s = Fail No_Return"
proof (rule ccontr)
  assume r: "loopR c s \<noteq> Fail No_Return"
  obtain s' where "I s'" "\<nexists>t. c s' = Done True t"
    using loopR_outcome [where I = I, OF refl r init] step by fastforce
  with step show False by blast
qed

end
