(* ===== verification/Luv_Buf.thy ===== *)
theory Luv_Buf
  imports Luv_Prelude
begin

text \<open>
  The growable byte buffer of \<open>src/src/luv_codec.c\<close> (\<open>luv_buf_t\<close> and the \<open>luvL_buf_*\<close>
  functions, lines 10 to 109) and its variable-length integers.

  A buffer is its allocated memory, whose bytes are \<open>None\<close> until something is written there, and
  the offset of the \<open>head\<close> pointer from \<open>base\<close>.  Every store and load is checked: a store
  outside the allocation is \<open>None\<close>, a load outside it or of a byte never written is a fault.
  The lemmas show that the writers never store out of bounds and append exactly their bytes, and
  that the readers return what the writers wrote.  Allocation itself is taken to succeed.
\<close>

section \<open>Buffers\<close>

record luv_buf =
  buf_size :: nat
  buf_head :: nat
  buf_mem :: "u8 option list"

definition null_buf :: luv_buf where
  "null_buf = \<lparr>buf_size = 0, buf_head = 0, buf_mem = []\<rparr>"

definition luvL_buf_new :: "nat \<Rightarrow> luv_buf" where
  "luvL_buf_new sz =
     (let sz = (if sz = 0 then 128 else sz)
      in \<lparr>buf_size = sz, buf_head = 0, buf_mem = replicate sz None\<rparr>)"

definition luvL_buf_close :: "luv_buf \<Rightarrow> luv_buf" where
  "luvL_buf_close b = null_buf"

text \<open>The doubling loop of \<open>luvL_buf_need\<close>; \<open>sz\<close> is not zero where it runs.\<close>

function buf_grow :: "nat \<Rightarrow> nat \<Rightarrow> nat" where
  "buf_grow sz need = (if sz < need \<and> 0 < sz then buf_grow (sz * 2) need else sz)"
  by pat_completeness auto
termination
  by (relation "measure (\<lambda>(sz, need). need - sz)") auto

declare buf_grow.simps [simp del]

text \<open>The same loop on 64-bit \<open>size_t\<close> values, where doubling can wrap around to zero.\<close>

partial_function (option) buf_grow64 :: "u64 \<Rightarrow> u64 \<Rightarrow> u64 option" where
  "buf_grow64 sz need = (if sz < need then buf_grow64 (sz * 2) need else Some sz)"

definition luvL_buf_need :: "nat \<Rightarrow> luv_buf \<Rightarrow> luv_buf" where
  "luvL_buf_need len b =
     (let b = (if buf_size b = 0 then luvL_buf_new 128 else b);
          need = buf_head b + len;
          sz = buf_grow (buf_size b) need
      in if sz > buf_size b
         then b\<lparr>buf_mem := buf_mem b @ replicate (sz - buf_size b) None, buf_size := sz\<rparr>
         else b)"

text \<open>Store bytes at an offset of the allocation (\<open>memcpy\<close>, or \<open>p[n] = v\<close>).\<close>

definition poke :: "nat \<Rightarrow> bytes \<Rightarrow> u8 option list \<Rightarrow> u8 option list option" where
  "poke off bs m =
     (if off + length bs \<le> length m
      then Some (take off m @ map Some bs @ drop (off + length bs) m)
      else None)"

definition luvL_buf_init :: "bytes \<Rightarrow> luv_buf \<Rightarrow> luv_buf option" where
  "luvL_buf_init data b =
     (let b = luvL_buf_need (length data) b
      in map_option (\<lambda>m. b\<lparr>buf_mem := m, buf_head := buf_head b + length data\<rparr>)
           (poke 0 data (buf_mem b)))"

definition luvL_buf_put :: "u8 \<Rightarrow> luv_buf \<Rightarrow> luv_buf option" where
  "luvL_buf_put val b =
     (let b = luvL_buf_need 1 b
      in map_option (\<lambda>m. b\<lparr>buf_mem := m, buf_head := buf_head b + 1\<rparr>)
           (poke (buf_head b) [val] (buf_mem b)))"

definition luvL_buf_write :: "bytes \<Rightarrow> luv_buf \<Rightarrow> luv_buf option" where
  "luvL_buf_write data b =
     (let b = luvL_buf_need (length data) b
      in map_option (\<lambda>m. b\<lparr>buf_mem := m, buf_head := buf_head b + length data\<rparr>)
           (poke (buf_head b) data (buf_mem b)))"

lemma unat_drop_bit_less: "(val :: u32) \<ge> 0x80 \<Longrightarrow> unat (drop_bit 7 val) < unat val"
proof -
  assume "val \<ge> 0x80"
  then have "128 \<le> unat val" by (simp add: word_le_nat_alt)
  moreover have "unat (drop_bit 7 val) = unat val div 128"
    by (simp only: unat_drop_bit_eq) (simp add: drop_bit_eq_div)
  ultimately show ?thesis by simp
qed

text \<open>The loop of \<open>luvL_buf_write_uleb128\<close>: store seven bits per byte from offset \<open>n\<close> on.\<close>

function uleb_put :: "nat \<Rightarrow> u32 \<Rightarrow> u8 option list \<Rightarrow> (nat \<times> u8 option list) option" where
  "uleb_put n val m =
     (if val \<ge> 0x80
      then Option.bind (poke n [ucast ((val AND 0x7f) OR 0x80)] m)
             (\<lambda>m. uleb_put (Suc n) (drop_bit 7 val) m)
      else map_option (\<lambda>m. (Suc n, m)) (poke n [ucast val] m))"
  by pat_completeness auto
termination
  by (relation "measure (\<lambda>(n, val, m). unat val)") (auto intro: unat_drop_bit_less)

declare uleb_put.simps [simp del]

definition luvL_buf_write_uleb128 :: "u32 \<Rightarrow> luv_buf \<Rightarrow> luv_buf option" where
  "luvL_buf_write_uleb128 val b =
     (let b = luvL_buf_need 5 b
      in map_option (\<lambda>(n, m). b\<lparr>buf_mem := m, buf_head := n\<rparr>)
           (uleb_put (buf_head b) val (buf_mem b)))"

text \<open>The writer \<open>lua_dump\<close> calls for every piece of a dumped function.\<close>

definition luvL_writer :: "bytes \<Rightarrow> luv_buf \<Rightarrow> luv_buf option" where
  "luvL_writer data b = luvL_buf_write data b"

text \<open>The readers do no bounds checks in the code; the faults below are what they could hit.\<close>

definition luvL_buf_peek :: "luv_buf \<Rightarrow> ('e, u8, luv_buf) res" where
  "luvL_buf_peek b =
     (if buf_head b < length (buf_mem b)
      then (case buf_mem b ! buf_head b of None \<Rightarrow> Fail Uninitialized | Some v \<Rightarrow> Done v b)
      else Fail Out_Of_Bounds)"

definition luvL_buf_get :: "luv_buf \<Rightarrow> ('e, u8, luv_buf) res" where
  "luvL_buf_get b =
     bindR (luvL_buf_peek b) (\<lambda>v b. Done v (b\<lparr>buf_head := buf_head b + 1\<rparr>))"

definition luvL_buf_read :: "nat \<Rightarrow> luv_buf \<Rightarrow> ('e, bytes, luv_buf) res" where
  "luvL_buf_read len b =
     (if buf_head b + len \<le> length (buf_mem b)
      then let p = take len (drop (buf_head b) (buf_mem b))
           in if None \<in> set p then Fail Uninitialized
              else Done (map the p) (b\<lparr>buf_head := buf_head b + len\<rparr>)
      else Fail Out_Of_Bounds)"

text \<open>
  The \<open>do\<close>/\<open>while\<close> loop of \<open>luvL_buf_read_uleb128\<close>.  A shift by 32 or more is undefined in C;
  a shift that moves bits past bit 31 keeps the low 32 bits, as gcc and clang define it.
\<close>

function uleb_get :: "nat \<Rightarrow> u32 \<Rightarrow> luv_buf \<Rightarrow> ('e, u32, luv_buf) res" where
  "uleb_get sh v b =
     bindR (luvL_buf_get b) (\<lambda>p b.
       if sh + 7 \<ge> 32 then Fail Bad_Shift
       else let v = v OR push_bit (sh + 7) (ucast (p AND 0x7f))
            in if p \<ge> 0x80 then uleb_get (sh + 7) v b else Done v b)"
  by pat_completeness auto
termination
  by (relation "measure (\<lambda>(sh, v, b). 32 - sh)") auto

declare uleb_get.simps [simp del]

definition luvL_buf_read_uleb128 :: "luv_buf \<Rightarrow> ('e, u32, luv_buf) res" where
  "luvL_buf_read_uleb128 b =
     bindR (luvL_buf_get b) (\<lambda>p b.
       let v = ucast p :: u32
       in if v \<ge> 0x80 then uleb_get 0 (v AND 0x7f) b else Done v b)"

section \<open>The doubling loop\<close>

lemma buf_grow_ge: "0 < sz \<Longrightarrow> need \<le> buf_grow sz need"
proof (induction sz need rule: buf_grow.induct)
  case (1 sz need)
  then show ?case
    by (cases "sz < need") (auto simp: buf_grow.simps [of sz need])
qed

lemma buf_grow_mono: "sz \<le> buf_grow sz need"
proof (induction sz need rule: buf_grow.induct)
  case (1 sz need)
  then show ?case
    by (cases "sz < need \<and> 0 < sz") (auto simp: buf_grow.simps [of sz need])
qed

lemma buf_grow_less: "0 < sz \<Longrightarrow> sz < need \<Longrightarrow> buf_grow sz need < 2 * need"
proof (induction sz need rule: buf_grow.induct)
  case (1 sz need)
  then show ?case
    by (cases "sz * 2 < need") (auto simp: buf_grow.simps [of sz need] buf_grow.simps [of "sz * 2" need])
qed

lemma unat_double:
  assumes "sz < need" "unat need \<le> 2 ^ 63"
  shows "unat (sz * 2 :: u64) = unat sz * 2"
proof -
  have "unat sz < 2 ^ 63"
    using assms by (simp add: word_less_nat_alt)
  then show ?thesis by (simp add: unat_word_ariths)
qed

lemma buf_grow64_eq:
  assumes "0 < sz" "unat need \<le> 2 ^ 63"
  shows "\<exists>r. buf_grow64 sz need = Some r \<and> unat r = buf_grow (unat sz) (unat need)"
  using assms
proof (induction "unat sz" "unat need" arbitrary: sz rule: buf_grow.induct)
  case 1
  show ?case
  proof (cases "sz < need")
    case True
    note d = unat_double [OF True \<open>unat need \<le> 2 ^ 63\<close>]
    have "unat (sz * 2) > 0" using 1(2) d by (simp add: word_gt_0_no unat_gt_0)
    then have pos: "0 < sz * 2" by (simp add: word_less_nat_alt)
    from 1(1) [OF _ d [symmetric] pos 1(3)] True 1(2)
    obtain r where "buf_grow64 (sz * 2) need = Some r" "unat r = buf_grow (unat sz * 2) (unat need)"
      using d by (auto simp: word_less_nat_alt)
    with True 1(2) show ?thesis
      by (auto simp: buf_grow64.simps [of sz] buf_grow.simps [of "unat sz"] word_less_nat_alt)
  next
    case False
    then show ?thesis
      by (auto simp: buf_grow64.simps [of sz] buf_grow.simps [of "unat sz"] word_less_nat_alt)
  qed
qed

lemma unat_pow2: "k \<le> 63 \<Longrightarrow> unat (2 ^ k :: u64) = 2 ^ k"
proof -
  assume "k \<le> 63"
  then have "(2 :: nat) ^ k < 2 ^ 64" by (intro power_strict_increasing) auto
  moreover have "(2 ^ k :: u64) = word_of_nat (2 ^ k)" by simp
  ultimately show ?thesis by (simp only: unat_of_nat) simp
qed

lemma buf_grow64_diverges:
  assumes need: "2 ^ 63 < unat need" and sz: "sz = 0 \<or> (\<exists>k\<le>63. sz = 2 ^ k)"
  shows "buf_grow64 sz need = None"
proof (rule ccontr)
  assume "buf_grow64 sz need \<noteq> None"
  then obtain r where ret: "buf_grow64 sz need = Some r" by auto
  let ?P = "\<lambda>sz n r :: u64. n = need \<and> (sz = 0 \<or> (\<exists>k\<le>63. sz = 2 ^ k)) \<longrightarrow> False"
  have "?P sz need r"
  proof (rule buf_grow64.raw_induct [where P = ?P, OF _ ret])
    fix f :: "u64 \<Rightarrow> u64 \<Rightarrow> u64 option" and sz n r :: u64
    assume IH: "\<And>sz n r. f sz n = Some r \<Longrightarrow> ?P sz n r"
      and eq: "(if sz < n then f (sz * 2) n else Some sz) = Some r"
    show "?P sz n r"
    proof
      assume a: "n = need \<and> (sz = 0 \<or> (\<exists>k\<le>63. sz = 2 ^ k))"
      have small: "unat sz \<le> 2 ^ 63"
        using a power_increasing [of _ 63 "2 :: nat"] by (auto simp: unat_pow2)
      then have "sz < n"
        using need a by (simp add: word_less_nat_alt)
      with eq have "f (sz * 2) n = Some r" by simp
      moreover have "sz * 2 = 0 \<or> (\<exists>k\<le>63. sz * 2 = 2 ^ k)"
      proof (cases "sz = 0 \<or> sz = 2 ^ 63")
        case True
        then show ?thesis by auto
      next
        case False
        with a obtain k where k: "k \<le> 63" "sz = 2 ^ k" "k \<noteq> 63"
          by (metis (no_types))
        from k have "sz * 2 = 2 ^ Suc k" "Suc k \<le> 63" by simp_all
        then show ?thesis by blast
      qed
      ultimately show False using IH a by blast
    qed
  qed
  with sz show False by blast
qed

section \<open>Writers append\<close>

definition buf_ok :: "luv_buf \<Rightarrow> bool" where
  "buf_ok b \<longleftrightarrow> length (buf_mem b) = buf_size b \<and> buf_head b \<le> buf_size b
     \<and> None \<notin> set (take (buf_head b) (buf_mem b))"

text \<open>The bytes between \<open>base\<close> and \<open>head\<close>.\<close>

definition contents :: "luv_buf \<Rightarrow> bytes" where
  "contents b = map the (take (buf_head b) (buf_mem b))"

lemma buf_ok_null [simp]: "buf_ok null_buf" and contents_null [simp]: "contents null_buf = []"
  by (simp_all add: buf_ok_def contents_def null_buf_def)

lemma buf_ok_close [simp]: "buf_ok (luvL_buf_close b)"
  by (simp add: luvL_buf_close_def)

lemma length_contents: "buf_ok b \<Longrightarrow> length (contents b) = buf_head b"
  by (simp add: buf_ok_def contents_def)

lemma buf_need_head [simp]: "buf_ok b \<Longrightarrow> buf_head (luvL_buf_need n b) = buf_head b"
  by (auto simp: buf_ok_def luvL_buf_need_def luvL_buf_new_def Let_def)

lemma buf_need_ok:
  assumes "buf_ok b"
  shows "buf_ok (luvL_buf_need n b)"
    and "contents (luvL_buf_need n b) = contents b"
    and "buf_head b + n \<le> length (buf_mem (luvL_buf_need n b))"
proof -
  have room: "h + n \<le> buf_grow sz (h + n)" "sz \<le> buf_grow sz (h + n)" if "0 < sz" for sz h
    using that by (rule buf_grow_ge, intro buf_grow_mono)
  show "buf_ok (luvL_buf_need n b)" "contents (luvL_buf_need n b) = contents b"
    "buf_head b + n \<le> length (buf_mem (luvL_buf_need n b))"
    using assms room [of 128 0] room [of "buf_size b" "buf_head b"]
    by (auto simp: buf_ok_def contents_def luvL_buf_need_def luvL_buf_new_def Let_def)
qed

text \<open>The common effect of the writers: make room for \<open>k\<close> bytes, then store \<open>bs\<close> at the head.\<close>

definition buf_push :: "nat \<Rightarrow> bytes \<Rightarrow> luv_buf \<Rightarrow> luv_buf" where
  "buf_push k bs b =
     (let b = luvL_buf_need k b; h = buf_head b; m = buf_mem b
      in b\<lparr>buf_mem := take h m @ map Some bs @ drop (h + length bs) m,
           buf_head := h + length bs\<rparr>)"

lemma buf_push_ok:
  assumes "buf_ok b" "length bs \<le> k"
  shows "buf_ok (buf_push k bs b)" and "contents (buf_push k bs b) = contents b @ bs"
proof -
  note n = buf_need_ok [OF assms(1), of k]
  have h: "buf_head (luvL_buf_need k b) = buf_head b" using assms by simp
  from n(1) h have ok: "length (buf_mem (luvL_buf_need k b)) = buf_size (luvL_buf_need k b)"
    "None \<notin> set (take (buf_head b) (buf_mem (luvL_buf_need k b)))"
    by (simp_all add: buf_ok_def)
  show "buf_ok (buf_push k bs b)"
    using n(3) ok h assms(2) by (auto simp: buf_push_def buf_ok_def Let_def)
  show "contents (buf_push k bs b) = contents b @ bs"
    using n(2,3) h assms(2) by (auto simp: buf_push_def contents_def Let_def)
qed

lemma buf_push_ok_simps [simp]:
  assumes "buf_ok b"
  shows "buf_ok (buf_push 1 [v] b)" "contents (buf_push 1 [v] b) = contents b @ [v]"
    "buf_ok (buf_push (length bs) bs b)" "contents (buf_push (length bs) bs b) = contents b @ bs"
  using assms by (simp_all add: buf_push_ok)

lemma buf_put_push: "buf_ok b \<Longrightarrow> luvL_buf_put v b = Some (buf_push 1 [v] b)"
  using buf_need_ok(3) [of b 1] by (simp add: luvL_buf_put_def buf_push_def poke_def Let_def)

lemma buf_write_push: "buf_ok b \<Longrightarrow> luvL_buf_write bs b = Some (buf_push (length bs) bs b)"
  using buf_need_ok(3) [of b "length bs"]
  by (simp add: luvL_buf_write_def buf_push_def poke_def Let_def)

section \<open>Unsigned LEB128\<close>

text \<open>The bytes of a value: seven bits each, low bits first, bit 7 set on all but the last.\<close>

function uleb128 :: "u32 \<Rightarrow> bytes" where
  "uleb128 val =
     (if val \<ge> 0x80 then ucast ((val AND 0x7f) OR 0x80) # uleb128 (drop_bit 7 val)
      else [ucast val])"
  by pat_completeness auto
termination
  by (relation "measure unat") (auto intro: unat_drop_bit_less)

declare uleb128.simps [simp del]

lemma uleb128_length_bound: "unat val < 2 ^ (7 * n) \<Longrightarrow> 0 < n \<Longrightarrow> length (uleb128 val) \<le> n"
proof (induction n arbitrary: val)
  case (Suc n)
  show ?case
  proof (cases "val \<ge> 0x80")
    case True
    then have "128 \<le> unat val" by (simp add: word_le_nat_alt)
    with Suc.prems have n: "0 < n" by (cases n) auto
    have "unat (drop_bit 7 val) = unat val div 128"
      by (simp only: unat_drop_bit_eq) (simp add: drop_bit_eq_div)
    moreover have "unat val < 128 * 2 ^ (7 * n)"
      using Suc.prems by (simp add: power_add)
    ultimately have "unat (drop_bit 7 val) < 2 ^ (7 * n)"
      by (simp add: less_mult_imp_div_less mult.commute)
    with Suc.IH n True show ?thesis by (simp add: uleb128.simps [of val])
  next
    case False
    then show ?thesis by (simp add: uleb128.simps [of val])
  qed
qed simp

lemma uleb128_length: "length (uleb128 val) \<le> 5"
proof (rule uleb128_length_bound)
  have "unat val < 2 ^ 32" using unsigned_less [of val] by simp
  then show "unat val < 2 ^ (7 * 5)" by simp
qed simp

lemma uleb128_nonempty: "uleb128 val \<noteq> []"
  by (subst uleb128.simps) simp

lemma uleb_put_eq:
  assumes "n + length (uleb128 val) \<le> length m"
  shows "uleb_put n val m =
    Some (n + length (uleb128 val),
      take n m @ map Some (uleb128 val) @ drop (n + length (uleb128 val)) m)"
  using assms
proof (induction n val m rule: uleb_put.induct)
  case (1 n val m)
  show ?case
  proof (cases "val \<ge> 0x80")
    case True
    let ?b = "ucast ((val AND 0x7f) OR 0x80) :: u8"
    let ?m = "take n m @ Some ?b # drop (Suc n) m"
    have len: "Suc n + length (uleb128 (drop_bit 7 val)) \<le> length m"
      using 1(2) True by (simp add: uleb128.simps [of val])
    then have "poke n [?b] m = Some ?m" by (simp add: poke_def)
    moreover from this have "uleb_put (Suc n) (drop_bit 7 val) ?m =
      Some (Suc n + length (uleb128 (drop_bit 7 val)),
        take (Suc n) ?m @ map Some (uleb128 (drop_bit 7 val))
          @ drop (Suc n + length (uleb128 (drop_bit 7 val))) ?m)"
      using len by (intro 1(1) [OF True]) auto
    moreover have "take (Suc n) ?m = take n m @ [Some ?b]"
      "drop (Suc n + k) ?m = drop (Suc n + k) m" for k
      using len by (auto simp: add.commute)
    ultimately show ?thesis
      using True by (simp add: uleb_put.simps [of n] uleb128.simps [of val])
  next
    case False
    with 1(2) show ?thesis
      by (simp add: uleb_put.simps [of n] uleb128.simps [of val] poke_def)
  qed
qed

lemma buf_write_uleb128_push:
  "buf_ok b \<Longrightarrow> luvL_buf_write_uleb128 val b = Some (buf_push 5 (uleb128 val) b)"
  using buf_need_ok(3) [of b 5] uleb128_length [of val]
  by (simp add: luvL_buf_write_uleb128_def buf_push_def Let_def uleb_put_eq)

lemma buf_push_uleb128_ok [simp]:
  assumes "buf_ok b"
  shows "buf_ok (buf_push 5 (uleb128 v) b)" "contents (buf_push 5 (uleb128 v) b) = contents b @ uleb128 v"
  using assms uleb128_length by (simp_all add: buf_push_ok)

lemmas buf_writers = buf_put_push buf_write_push buf_write_uleb128_push

section \<open>Readers return what was written\<close>

text \<open>\<open>reads b bs\<close>: the initialised bytes from the head on start with \<open>bs\<close>.\<close>

definition reads :: "luv_buf \<Rightarrow> bytes \<Rightarrow> bool" where
  "reads b bs \<longleftrightarrow> (\<exists>rest. drop (buf_head b) (buf_mem b) = map Some bs @ rest)"

definition adv :: "nat \<Rightarrow> luv_buf \<Rightarrow> luv_buf" where
  "adv k b = b\<lparr>buf_head := buf_head b + k\<rparr>"

lemma adv_adv [simp]: "adv k (adv j b) = adv (j + k) b"
  by (simp add: adv_def add.assoc)

lemma adv_0 [simp]: "adv 0 b = b"
  by (simp add: adv_def)

lemma adv_sel [simp]:
  "buf_head (adv k b) = buf_head b + k" "buf_mem (adv k b) = buf_mem b" "buf_size (adv k b) = buf_size b"
  by (simp_all add: adv_def)

lemma reads_Nil [simp]: "reads b []"
  by (simp add: reads_def)

lemma reads_append:
  "reads b (xs @ ys) \<longleftrightarrow> reads b xs \<and> reads (adv (length xs) b) ys"
proof -
  have "drop (buf_head b + length xs) (buf_mem b) = drop (length xs) (drop (buf_head b) (buf_mem b))"
    by (simp add: add.commute)
  then show ?thesis by (auto simp: reads_def simp del: drop_drop)
qed

lemma reads_Cons: "reads b (x # xs) \<longleftrightarrow> reads b [x] \<and> reads (adv 1 b) xs"
  using reads_append [of b "[x]" xs] by simp

lemma reads_tl: "reads b (x # xs) \<Longrightarrow> reads (adv 1 b) xs"
  using reads_append [of b "[x]" xs] by simp

lemma reads_bound: "reads b bs \<Longrightarrow> bs \<noteq> [] \<Longrightarrow> buf_head b + length bs \<le> length (buf_mem b)"
proof -
  assume "reads b bs" "bs \<noteq> []"
  then obtain rest where "drop (buf_head b) (buf_mem b) = map Some bs @ rest" by (auto simp: reads_def)
  from arg_cong [OF this, of length] \<open>bs \<noteq> []\<close> show ?thesis by (cases bs) auto
qed

lemma reads_single:
  "reads b [x] \<longleftrightarrow> buf_head b < length (buf_mem b) \<and> buf_mem b ! buf_head b = Some x"
  by (cases "buf_head b < length (buf_mem b)") (auto simp: reads_def Cons_nth_drop_Suc [symmetric])

lemma buf_peek_reads: "reads b (x # xs) \<Longrightarrow> luvL_buf_peek b = Done x b"
  using reads_Cons [of b x xs] by (simp add: reads_single luvL_buf_peek_def)

lemma buf_get_reads: "reads b (x # xs) \<Longrightarrow> luvL_buf_get b = Done x (adv 1 b)"
  by (simp add: luvL_buf_get_def buf_peek_reads adv_def)

lemma buf_read_reads:
  assumes "reads b (xs @ ys)" "buf_head b \<le> length (buf_mem b)"
  shows "luvL_buf_read (length xs) b = Done xs (adv (length xs) b)"
proof -
  from assms have r: "reads b xs" by (simp add: reads_append)
  then have "map the (take (length xs) (drop (buf_head b) (buf_mem b))) = xs"
    "None \<notin> set (take (length xs) (drop (buf_head b) (buf_mem b)))"
    by (auto simp: reads_def comp_def)
  moreover have "buf_head b + length xs \<le> length (buf_mem b)"
    using reads_bound [OF r] assms(2) by (cases "xs = []") auto
  ultimately show ?thesis by (auto simp: luvL_buf_read_def Let_def adv_def)
qed

text \<open>The bytes of a value, seen as words: the low seven bits and the continuation bit.\<close>

lemma mask7: "(0x7f :: 'a::len word) = mask 7"
  by (simp add: mask_eq_exp_minus_1)

lemma u8_ge_128: "(p :: u8) \<ge> 0x80 \<longleftrightarrow> bit p 7"
proof -
  have "unat p < 256" using unsigned_less [of p] by simp
  then have "128 \<le> unat p \<longleftrightarrow> odd (unat p div 128)"
    by (cases "128 \<le> unat p") (simp_all add: le_div_geq)
  moreover have "bit (unat p) 7 = bit p 7"
    by (simp only: bit_unsigned_iff) (simp add: possible_bit_def)
  moreover have "bit (unat p) 7 \<longleftrightarrow> odd (unat p div 128)"
    by (simp only: bit_iff_odd) simp
  ultimately show ?thesis by (simp add: word_le_nat_alt)
qed

lemma uleb_byte_bits:
  fixes r c :: u32
  assumes "\<And>n. bit c n \<longleftrightarrow> n = 7"
  shows "ucast ((ucast ((r AND mask 7) OR c) :: u8) AND mask 7) = take_bit 7 r"
    and "bit (ucast ((r AND mask 7) OR c) :: u8) 7"
  using assms by (auto intro!: bit_word_eqI simp: bit_simps)

lemma uleb_byte:
  fixes r :: u32
  shows "ucast ((ucast ((r AND 0x7f) OR 0x80) :: u8) AND 0x7f) = take_bit 7 r"
    and "0x80 \<le> (ucast ((r AND 0x7f) OR 0x80) :: u8)"
proof -
  have "bit (0x80 :: u32) n \<longleftrightarrow> n = 7" for n
    using bit_push_bit_iff [of 7 "1 :: u32" n] by (auto simp: push_bit_eq_mult bit_1_iff)
  from uleb_byte_bits [OF this, of r]
  show "ucast ((ucast ((r AND 0x7f) OR 0x80) :: u8) AND 0x7f) = take_bit 7 r"
    "0x80 \<le> (ucast ((r AND 0x7f) OR 0x80) :: u8)"
    by (simp_all only: mask7 u8_ge_128)
qed

lemma uleb_last_byte:
  fixes r :: u32
  assumes "\<not> 0x80 \<le> r"
  shows "ucast ((ucast r :: u8) AND 0x7f) = r" "\<not> 0x80 \<le> (ucast r :: u8)" "take_bit 7 r = r"
proof -
  have "unat r < 128" using assms by (simp add: word_le_nat_alt)
  then have u: "unat (ucast r :: u8) = unat r"
    by (simp add: unsigned_ucast_eq take_bit_eq_mod)
  have "drop_bit 7 r = 0"
  proof -
    have "unat (drop_bit 7 r) = 0"
      using \<open>unat r < 128\<close> by (simp only: unat_drop_bit_eq) (simp add: drop_bit_eq_div)
    then show ?thesis by (simp add: unat_eq_0)
  qed
  then show t: "take_bit 7 r = r" by (metis bits_ident add_0 push_bit_of_0)
  show "\<not> 0x80 \<le> (ucast r :: u8)" using u \<open>unat r < 128\<close> by (simp add: word_le_nat_alt)
  have "ucast ((ucast r :: u8) AND 0x7f) = take_bit 7 r"
    unfolding mask7 by (rule bit_word_eqI) (auto simp: bit_simps)
  with t show "ucast ((ucast r :: u8) AND 0x7f) = r" by simp
qed

lemma unat_ucast_u8_u32: "unat (ucast (p :: u8) :: u32) = unat p"
proof -
  have "unat p < 2 ^ 8" using unsigned_less [of p, where 'a = nat] by simp
  then have "unat p < 2 ^ 32" by simp
  then show ?thesis by (simp add: unsigned_ucast_eq take_bit_nat_eq_self)
qed

lemma uleb_get_more:
  assumes "reads b (p # xs)" "sh + 7 < 32" "0x80 \<le> p"
  shows "uleb_get sh v b =
    uleb_get (sh + 7) (v OR push_bit (sh + 7) (ucast (p AND 0x7f))) (adv 1 b)"
  using assms by (simp add: uleb_get.simps [of sh] buf_get_reads Let_def)

lemma uleb_get_last:
  assumes "reads b (p # xs)" "sh + 7 < 32" "\<not> 0x80 \<le> p"
  shows "uleb_get sh v b = Done (v OR push_bit (sh + 7) (ucast (p AND 0x7f))) (adv 1 b)"
  using assms by (simp add: uleb_get.simps [of sh] buf_get_reads Let_def)

lemma uleb128_more:
  "0x80 \<le> val \<Longrightarrow> uleb128 val = ucast ((val AND 0x7f) OR 0x80) # uleb128 (drop_bit 7 val)"
  by (subst uleb128.simps) (simp only: if_True)

lemma uleb128_last: "\<not> 0x80 \<le> val \<Longrightarrow> uleb128 val = [ucast val]"
  by (subst uleb128.simps) (simp only: if_False)

text \<open>The last byte leaves nothing above it.\<close>

lemma take_bit_of_last:
  assumes "\<not> 0x80 \<le> drop_bit k (val :: u32)"
  shows "take_bit (k + 7) val = val"
proof (rule bit_word_eqI)
  fix n
  have "\<not> bit val n" if n: "k + 7 \<le> n"
  proof -
    have "bit val n = bit (drop_bit k val) (n - k)" using n by (simp add: bit_simps)
    also have "\<dots> = bit (take_bit 7 (drop_bit k val)) (n - k)"
      by (simp only: uleb_last_byte(3) [OF assms])
    finally show ?thesis using n by (auto simp: bit_simps)
  qed
  then show "bit (take_bit (k + 7) val) n = bit val n"
    by (cases "k + 7 \<le> n") (auto simp: bit_simps)
qed

text \<open>A continuation byte is only written while there are bits left, so no shift is too wide.\<close>

lemma continuation_shift:
  assumes "0x80 \<le> drop_bit sh (val :: u32)"
  shows "sh + 7 < 32"
proof (rule ccontr)
  assume "\<not> sh + 7 < 32"
  then have "drop_bit (sh + 7) val = 0"
    by (intro bit_word_eqI) (auto simp: bit_simps)
  then have "drop_bit 7 (drop_bit sh val) = 0" by (simp add: add.commute)
  then have "unat (drop_bit 7 (drop_bit sh val)) = 0" by simp
  then have "unat (drop_bit sh val) div 128 = 0"
    by (simp only: unat_drop_bit_eq [of 7]) (simp add: drop_bit_eq_div)
  with assms show False by (simp add: word_le_nat_alt)
qed

lemma uleb_get_uleb128:
  assumes "reads b (uleb128 (drop_bit (sh + 7) val) @ ys)" "0x80 \<le> drop_bit sh val"
  shows "(uleb_get sh (take_bit (sh + 7) val) b :: ('e, u32, luv_buf) res) =
    Done val (adv (length (uleb128 (drop_bit (sh + 7) val))) b)"
  using assms
proof (induction "32 - sh" arbitrary: sh b rule: less_induct)
  case less
  let ?r = "drop_bit (sh + 7) val"
  have sh: "sh + 7 < 32" by (rule continuation_shift [OF less.prems(2)])
  have low: "take_bit (sh + 7) val OR push_bit (sh + 7) (take_bit 7 ?r) = take_bit (sh + 7 + 7) val"
    by (rule bit_word_eqI) (auto simp: bit_simps)
  show ?case
  proof (cases "?r \<ge> 0x80")
    case True
    let ?p = "ucast ((?r AND 0x7f) OR 0x80) :: u8"
    have p: "ucast (?p AND 0x7f) = take_bit 7 ?r" "?p \<ge> 0x80"
      by (rule uleb_byte)+
    have r7: "drop_bit (sh + 7 + 7) val = drop_bit 7 ?r" by (simp add: add.commute)
    note ul = uleb128_more [OF True]
    from less.prems(1) have rd: "reads b (?p # uleb128 (drop_bit 7 ?r) @ ys)"
      by (simp only: ul append_Cons)
    then have rd1: "reads (adv 1 b) (uleb128 (drop_bit 7 ?r) @ ys)"
      by (rule reads_tl)
    have "(uleb_get sh (take_bit (sh + 7) val) b :: ('e, u32, luv_buf) res) =
      uleb_get (sh + 7) (take_bit (sh + 7 + 7) val) (adv 1 b)"
      by (simp only: uleb_get_more [OF rd sh p(2)] p(1) low)
    also have "\<dots> = Done val (adv (length (uleb128 (drop_bit 7 ?r))) (adv 1 b))"
    proof -
      have "32 - (sh + 7) < 32 - sh" using sh by simp
      from less.hyps [OF this, of "adv 1 b", unfolded r7] rd1 True show ?thesis by blast
    qed
    finally show ?thesis
      by (simp only: ul) simp
  next
    case False
    note ul = uleb128_last [OF False] and lb = uleb_last_byte [OF False]
    from less.prems(1) have rd: "reads b (ucast ?r # ys)"
      by (simp only: ul append_Cons append_Nil)
    from low lb(3) take_bit_of_last [OF False]
    have "take_bit (sh + 7) val OR push_bit (sh + 7) ?r = val" by simp
    then show ?thesis
      by (simp only: uleb_get_last [OF rd sh lb(2)] lb(1) ul) simp
  qed
qed

lemma buf_read_uleb128:
  assumes "reads b (uleb128 val @ ys)"
  shows "(luvL_buf_read_uleb128 b :: ('e, u32, luv_buf) res) = Done val (adv (length (uleb128 val)) b)"
proof (cases "0x80 \<le> val")
  case True
  let ?p = "ucast ((val AND 0x7f) OR 0x80) :: u8"
  note up = unat_ucast_u8_u32 [of ?p]
  have p: "ucast (?p AND 0x7f) = take_bit 7 val" "?p \<ge> 0x80"
    by (rule uleb_byte)+
  then have "(0x80 :: u32) \<le> ucast ?p"
    using up by (simp add: word_le_nat_alt)
  moreover have "ucast ?p AND 0x7f = take_bit 7 val"
    unfolding p(1) [symmetric] mask7 by (rule bit_word_eqI) (auto simp: bit_simps)
  moreover from assms have rd: "reads b (?p # uleb128 (drop_bit (0 + 7) val) @ ys)"
    by (simp only: uleb128_more [OF True] append_Cons add_0)
  moreover from rd have "reads (adv 1 b) (uleb128 (drop_bit (0 + 7) val) @ ys)"
    by (rule reads_tl)
  from uleb_get_uleb128 [OF this] True
  have "(uleb_get 0 (take_bit 7 val) (adv 1 b) :: ('e, u32, luv_buf) res) =
    Done val (adv (length (uleb128 (drop_bit 7 val))) (adv 1 b))"
    by simp
  ultimately show ?thesis
    by (simp only: luvL_buf_read_uleb128_def buf_get_reads [OF rd] bindR.simps Let_def if_True
        uleb128_more [OF True]) simp
next
  case False
  then have "unat val < 128" by (simp add: word_le_nat_alt)
  then have "unat (ucast val :: u8) = unat val"
    by (simp add: unsigned_ucast_eq take_bit_eq_mod)
  then have c: "ucast (ucast val :: u8) = val"
    by (intro word_unat_eq_iff [THEN iffD2]) (simp only: unat_ucast_u8_u32)
  from assms have rd: "reads b (ucast val # ys)"
    by (simp only: uleb128_last [OF False] append_Cons append_Nil)
  show ?thesis
    using False by (simp only: luvL_buf_read_uleb128_def buf_get_reads [OF rd] bindR.simps Let_def
        c if_False uleb128_last [OF False]) simp
qed

end
