(* ===== verification/Lua_Value.thy ===== *)
theory Lua_Value
  imports Luv_Prelude
begin

text \<open>
  The part of the Lua 5.1 C API that the program relies on: values, their type tags, tables with
  raw access and \<open>lua_next\<close>, closures with upvalues, and the object representation of numbers
  and pointers.  Lua itself is not part of the repository.  What is standard and needed by value
  is written out here; what only Lua can do (run a function, dump or load bytecode, choose a
  border for \<open>#t\<close>, format a number) is a field of \<open>lua_env\<close>, an argument of every definition that
  uses it.
\<close>

section \<open>Object representation of 64-bit values\<close>

text \<open>The bytes of a \<open>lua_Number\<close> or a \<open>void*\<close> in memory (little-endian host).\<close>

definition word64_bytes :: "u64 \<Rightarrow> bytes" where
  "word64_bytes w = map (\<lambda>i. ucast (drop_bit (8 * i) w)) [0..<8]"

fun bytes_word64 :: "bytes \<Rightarrow> u64" where
  "bytes_word64 [] = 0"
| "bytes_word64 (b # bs) = ucast b OR push_bit 8 (bytes_word64 bs)"

lemma length_word64_bytes [simp]: "length (word64_bytes w) = 8"
  by (simp add: word64_bytes_def)

lemma bytes_word64_split:
  "bytes_word64 (map (\<lambda>i. ucast (drop_bit (8 * i) w)) [j..<8]) = drop_bit (8 * j) w" if "j \<le> 8"
  using that
proof (induction rule: inc_induct)
  case base
  show ?case by (rule bit_word_eqI) (simp add: bit_simps)
next
  case (step n)
  have "ucast (ucast (drop_bit (8 * n) w) :: u8) OR push_bit 8 (drop_bit (8 * Suc n) w) = drop_bit (8 * n) w"
  proof (rule bit_word_eqI)
    fix m assume "m < LENGTH(64)"
    then show "bit (ucast (ucast (drop_bit (8 * n) w) :: u8) OR push_bit 8 (drop_bit (8 * Suc n) w)) m
      = bit (drop_bit (8 * n) w) m"
      by (cases "m < 8") (auto simp: bit_simps add.commute add.left_commute)
  qed
  with step show ?case by (simp add: upt_conv_Cons)
qed

lemma bytes_word64_bytes [simp]: "bytes_word64 (word64_bytes w) = w"
  using bytes_word64_split [of 0 w] by (simp add: word64_bytes_def)

section \<open>Numbers\<close>

text \<open>
  A \<open>lua_Number\<close> is an IEEE 754 double, kept as its 64 bits.  \<open>lua_number_of_int\<close> is the
  conversion of a C integer (round to nearest, ties to even) that \<open>lua_pushinteger\<close> does.
\<close>

fun ilog2 :: "nat \<Rightarrow> nat" where
  "ilog2 n = (if n \<le> 1 then 0 else Suc (ilog2 (n div 2)))"

declare ilog2.simps [simp del]

definition round_shift :: "nat \<Rightarrow> nat \<Rightarrow> nat" where
  "round_shift n k =
     (let q = n div 2 ^ k; r = n mod 2 ^ k
      in if 2 * r > 2 ^ k \<or> (2 * r = 2 ^ k \<and> odd q) then q + 1 else q)"

definition double_bits :: "nat \<Rightarrow> nat" where
  "double_bits n =
     (if n = 0 then 0
      else let e = ilog2 n;
               m = (if e \<le> 52 then n * 2 ^ (52 - e) else round_shift n (e - 52))
           in (e + 1022) * 2 ^ 52 + m)"

definition lua_number_of_int :: "int \<Rightarrow> u64" where
  "lua_number_of_int i =
     (if i < 0 then word_of_nat (2 ^ 63 + double_bits (nat (- i)))
      else word_of_nat (double_bits (nat i)))"

text \<open>NaN: all exponent bits set and a fraction that is not zero.\<close>

definition is_nan :: "u64 \<Rightarrow> bool" where
  "is_nan w \<longleftrightarrow> drop_bit 52 w AND 0x7ff = 0x7ff \<and> take_bit 52 w \<noteq> 0"

definition is_zero :: "u64 \<Rightarrow> bool" where
  "is_zero w \<longleftrightarrow> w AND 0x7fffffffffffffff = 0"

definition num_eq :: "u64 \<Rightarrow> u64 \<Rightarrow> bool" where
  "num_eq v w \<longleftrightarrow> \<not> is_nan v \<and> \<not> is_nan w \<and> (v = w \<or> is_zero v \<and> is_zero w)"

section \<open>Values\<close>

text \<open>Tables, functions, userdata and threads are references into the Lua heap.\<close>

datatype lua_value =
    LNil
  | LBool bool
  | LLight u64
  | LNum u64
  | LStr bytes
  | LTable nat
  | LFun nat
  | LUser nat
  | LThread nat

definition LUA_TNIL :: u8 where "LUA_TNIL = 0"
definition LUA_TBOOLEAN :: u8 where "LUA_TBOOLEAN = 1"
definition LUA_TLIGHTUSERDATA :: u8 where "LUA_TLIGHTUSERDATA = 2"
definition LUA_TNUMBER :: u8 where "LUA_TNUMBER = 3"
definition LUA_TSTRING :: u8 where "LUA_TSTRING = 4"
definition LUA_TTABLE :: u8 where "LUA_TTABLE = 5"
definition LUA_TFUNCTION :: u8 where "LUA_TFUNCTION = 6"
definition LUA_TUSERDATA :: u8 where "LUA_TUSERDATA = 7"
definition LUA_TTHREAD :: u8 where "LUA_TTHREAD = 8"

lemmas lua_tag_defs = LUA_TNIL_def LUA_TBOOLEAN_def LUA_TLIGHTUSERDATA_def LUA_TNUMBER_def
  LUA_TSTRING_def LUA_TTABLE_def LUA_TFUNCTION_def LUA_TUSERDATA_def LUA_TTHREAD_def

fun lua_type :: "lua_value \<Rightarrow> u8" where
  "lua_type LNil = LUA_TNIL"
| "lua_type (LBool _) = LUA_TBOOLEAN"
| "lua_type (LLight _) = LUA_TLIGHTUSERDATA"
| "lua_type (LNum _) = LUA_TNUMBER"
| "lua_type (LStr _) = LUA_TSTRING"
| "lua_type (LTable _) = LUA_TTABLE"
| "lua_type (LFun _) = LUA_TFUNCTION"
| "lua_type (LUser _) = LUA_TUSERDATA"
| "lua_type (LThread _) = LUA_TTHREAD"

fun is_fun :: "lua_value \<Rightarrow> bool" where
  "is_fun (LFun _) = True"
| "is_fun _ = False"

fun is_str :: "lua_value \<Rightarrow> bool" where
  "is_str (LStr _) = True"
| "is_str _ = False"

text \<open>Raw equality: numbers by value, everything else by identity.\<close>

fun raw_eq :: "lua_value \<Rightarrow> lua_value \<Rightarrow> bool" where
  "raw_eq (LNum v) (LNum w) = num_eq v w"
| "raw_eq v w = (v = w)"

abbreviation lua_msg :: "string \<Rightarrow> lua_value" where
  "lua_msg s \<equiv> LStr (str s)"

section \<open>Tables, closures and the heap\<close>

type_synonym entries = "(lua_value \<times> lua_value) list"

text \<open>
  A table is its entries in the order \<open>lua_next\<close> visits them, and the \<open>__codec\<close> field of its
  metatable (\<open>LNil\<close> when there is no metatable or no such field).
\<close>

record lua_table =
  t_entries :: entries
  t_codec :: lua_value

text \<open>A closure: whether it is a Lua function (\<open>ar.what[0] == 'L'\<close>), its prototype, its upvalues; a
  function of the C code is its name.\<close>

record lua_closure =
  f_lua :: bool
  f_c :: string
  f_proto :: nat
  f_upvals :: "lua_value list"

record lua_heap =
  h_table :: "nat \<Rightarrow> lua_table"
  h_fun :: "nat \<Rightarrow> lua_closure"
  h_user :: "nat \<Rightarrow> lua_value" \<comment> \<open>the \<open>__codec\<close> field of a userdata's metatable\<close>
  h_tnext :: nat
  h_fnext :: nat

record lua_env =
  env_dump :: "nat \<Rightarrow> bytes list" \<comment> \<open>the pieces \<open>lua_dump\<close> passes to its writer\<close>
  env_load :: "bytes \<Rightarrow> nat option" \<comment> \<open>\<open>luaL_loadbuffer\<close>: the prototype, or a load error\<close>
  env_nups :: "nat \<Rightarrow> nat" \<comment> \<open>how many upvalues a prototype has\<close>
  env_objlen :: "entries \<Rightarrow> nat" \<comment> \<open>\<open>lua_objlen\<close> of a table\<close>
  env_call :: "lua_value \<Rightarrow> lua_value \<Rightarrow> lua_heap \<Rightarrow> (lua_value, lua_value list, lua_heap) res"
  env_registry :: "bytes \<Rightarrow> lua_value"
  env_globals :: "bytes \<Rightarrow> lua_value"
  env_tostring :: "u64 \<Rightarrow> bytes"

text \<open>\<open>lua_next\<close>: the entry after key \<open>k\<close>, or the first one for \<open>nil\<close>.\<close>

definition lua_next :: "entries \<Rightarrow> lua_value \<Rightarrow> (lua_value \<times> lua_value) option" where
  "lua_next es k =
     (case (if k = LNil then es else drop 1 (dropWhile (\<lambda>e. \<not> raw_eq (fst e) k) es)) of
        [] \<Rightarrow> None
      | e # _ \<Rightarrow> Some e)"

fun raw_get :: "entries \<Rightarrow> lua_value \<Rightarrow> lua_value" where
  "raw_get [] k = LNil"
| "raw_get ((k', v) # es) k = (if raw_eq k' k then v else raw_get es k)"

text \<open>Storing \<open>nil\<close> removes a key; a key that is not there yet becomes the last entry.\<close>

fun raw_put :: "lua_value \<Rightarrow> lua_value \<Rightarrow> entries \<Rightarrow> entries" where
  "raw_put k v [] = (if v = LNil then [] else [(k, v)])"
| "raw_put k v ((k', v') # es) =
     (if raw_eq k' k then (if v = LNil then es else (k', v) # es)
      else (k', v') # raw_put k v es)"

text \<open>A border: what \<open>lua_objlen\<close> may return for a table.\<close>

definition lua_int :: "nat \<Rightarrow> lua_value" where
  "lua_int i = LNum (lua_number_of_int (int i))"

definition border :: "entries \<Rightarrow> nat \<Rightarrow> bool" where
  "border es n \<longleftrightarrow>
     (n = 0 \<or> raw_get es (lua_int n) \<noteq> LNil) \<and> raw_get es (lua_int (Suc n)) = LNil"

text \<open>\<open>lua_newtable\<close> followed by \<open>es\<close>; \<open>luaL_loadbuffer\<close>'s new closure.\<close>

definition new_table :: "entries \<Rightarrow> lua_heap \<Rightarrow> nat \<times> lua_heap" where
  "new_table es h =
     (h_tnext h,
      h\<lparr>h_table := (h_table h)(h_tnext h := \<lparr>t_entries = es, t_codec = LNil\<rparr>),
        h_tnext := Suc (h_tnext h)\<rparr>)"

definition new_closure :: "nat \<Rightarrow> nat \<Rightarrow> lua_heap \<Rightarrow> nat \<times> lua_heap" where
  "new_closure p nups h =
     (h_fnext h,
      h\<lparr>h_fun := (h_fun h)(h_fnext h := \<lparr>f_lua = True, f_c = [], f_proto = p, f_upvals = replicate nups LNil\<rparr>),
        h_fnext := Suc (h_fnext h)\<rparr>)"

text \<open>\<open>lua_call\<close> with a fixed number of results pads with \<open>nil\<close> and drops the rest.\<close>

definition adjust :: "nat \<Rightarrow> lua_value list \<Rightarrow> lua_value list" where
  "adjust n vs = take n (vs @ replicate n LNil)"

lemma length_adjust [simp]: "length (adjust n vs) = n"
  by (simp add: adjust_def)

section \<open>Facts about values\<close>

lemma ilog2_bounds: "0 < n \<Longrightarrow> 2 ^ ilog2 n \<le> n \<and> n < 2 * 2 ^ ilog2 n"
proof (induction n rule: ilog2.induct)
  case (1 n)
  show ?case
  proof (cases "n \<le> 1")
    case True
    with 1(2) show ?thesis by (simp add: ilog2.simps [of n])
  next
    case False
    with 1(1) have "2 ^ ilog2 (n div 2) \<le> n div 2 \<and> n div 2 < 2 * 2 ^ ilog2 (n div 2)" by simp
    moreover have "ilog2 n = Suc (ilog2 (n div 2))"
      using False by (subst ilog2.simps) simp
    ultimately show ?thesis by simp linarith
  qed
qed

lemma double_bits_small:
  assumes "0 < n" "n < 2 ^ 53"
  shows "double_bits n = (ilog2 n + 1022) * 2 ^ 52 + n * 2 ^ (52 - ilog2 n)"
    and "ilog2 n \<le> 52"
    and "2 ^ 52 \<le> n * 2 ^ (52 - ilog2 n)" "n * 2 ^ (52 - ilog2 n) < 2 ^ 53"
proof -
  note b = ilog2_bounds [OF assms(1)]
  have "(2 :: nat) ^ ilog2 n < 2 ^ 53" using b assms(2) by linarith
  then have "ilog2 n < 53" by (rule power_less_imp_less_exp [rotated]) simp
  then show e: "ilog2 n \<le> 52" by simp
  show "double_bits n = (ilog2 n + 1022) * 2 ^ 52 + n * 2 ^ (52 - ilog2 n)"
    using e assms(1) by (simp add: double_bits_def Let_def)
  have "(2 :: nat) ^ 52 = 2 ^ ilog2 n * 2 ^ (52 - ilog2 n)"
    using e by (simp flip: power_add)
  moreover have "2 ^ ilog2 n * 2 ^ (52 - ilog2 n) \<le> n * 2 ^ (52 - ilog2 n)"
    "n * 2 ^ (52 - ilog2 n) < 2 * (2 ^ ilog2 n * 2 ^ (52 - ilog2 n))"
    using b by (simp_all flip: mult.assoc)
  ultimately show "2 ^ 52 \<le> n * 2 ^ (52 - ilog2 n)" "n * 2 ^ (52 - ilog2 n) < 2 ^ 53"
    by (simp_all only: power_Suc numeral_eq_Suc pred_numeral_simps)
qed

lemma double_bits_exponent:
  assumes "0 < n" "n < 2 ^ 53"
  shows "double_bits n div 2 ^ 52 = ilog2 n + 1023"
  using double_bits_small [OF assms] by (intro div_nat_eqI) simp_all

lemma double_bits_inj:
  assumes "0 < n" "n < 2 ^ 53" "0 < m" "m < 2 ^ 53" "double_bits n = double_bits m"
  shows "n = m"
proof -
  have e: "ilog2 n = ilog2 m"
    using double_bits_exponent [OF assms(1,2)] double_bits_exponent [OF assms(3,4)]
    by (simp only: assms(5))
  have "(ilog2 n + 1022) * 2 ^ 52 + n * 2 ^ (52 - ilog2 n)
      = (ilog2 n + 1022) * 2 ^ 52 + m * 2 ^ (52 - ilog2 n)"
    using double_bits_small(1) [OF assms(1,2)] double_bits_small(1) [OF assms(3,4)]
    by (simp only: assms(5) e)
  then show ?thesis by (simp only: add_left_cancel mult_cancel2) simp
qed

lemma double_bits_bound:
  assumes "0 < n" "n < 2 ^ 53"
  shows "double_bits n < 2 ^ 63" "2 ^ 52 \<le> double_bits n"
  using double_bits_small [OF assms] by simp_all

lemma unat_lua_number:
  assumes "0 < n" "n < 2 ^ 53"
  shows "unat (lua_number_of_int (int n)) = double_bits n"
  using double_bits_bound [OF assms] by (simp add: lua_number_of_int_def unat_of_nat)

lemma lua_int_inj:
  assumes "0 < n" "n < 2 ^ 53" "0 < m" "m < 2 ^ 53"
  shows "lua_int n = lua_int m \<longleftrightarrow> n = m"
  using double_bits_inj [OF assms] unat_lua_number [OF assms(1,2)] unat_lua_number [OF assms(3,4)]
  by (auto simp: lua_int_def)


lemma lua_int_not_nan:
  assumes "0 < n" "n < 2 ^ 53"
  shows "\<not> is_nan (lua_number_of_int (int n))" "\<not> is_zero (lua_number_of_int (int n))"
proof -
  let ?w = "lua_number_of_int (int n)"
  note b = double_bits_bound [OF assms] and u = unat_lua_number [OF assms]
  have m11: "(0x7ff :: u64) = mask 11" and m63: "(0x7fffffffffffffff :: u64) = mask 63"
    by (simp_all add: mask_eq_exp_minus_1)
  have "unat (drop_bit 52 ?w) = ilog2 n + 1023"
    by (simp only: unat_drop_bit_eq u) (simp only: drop_bit_eq_div double_bits_exponent [OF assms])
  moreover have "ilog2 n \<le> 52" by (rule double_bits_small [OF assms])
  ultimately have "unat (drop_bit 52 ?w AND 0x7ff) \<le> 1075"
    using word_and_le2 [of "drop_bit 52 ?w" "0x7ff"] by (simp only: word_le_nat_alt)
  then have "drop_bit 52 ?w AND 0x7ff \<noteq> 0x7ff" by auto
  then show "\<not> is_nan ?w" by (simp add: is_nan_def)
  have "?w AND 0x7fffffffffffffff = take_bit 63 ?w"
    by (simp only: m63 take_bit_eq_mask)
  moreover have "unat (take_bit 63 ?w) = double_bits n"
    using b(1) by (simp only: unsigned_take_bit_eq u take_bit_nat_eq_self)
  ultimately show "\<not> is_zero ?w"
    using b(2) by (auto simp: is_zero_def)
qed

lemma raw_eq_lua_int:
  assumes "0 < n" "n < 2 ^ 53" "0 < m" "m < 2 ^ 53"
  shows "raw_eq (lua_int n) (lua_int m) \<longleftrightarrow> n = m"
  using lua_int_not_nan [OF assms(1,2)] lua_int_not_nan [OF assms(3,4)] lua_int_inj [OF assms]
  by (simp add: lua_int_def num_eq_def)

text \<open>A key a table can hold: neither \<open>nil\<close> nor NaN.\<close>

fun key_ok :: "lua_value \<Rightarrow> bool" where
  "key_ok LNil = False"
| "key_ok (LNum w) = (\<not> is_nan w)"
| "key_ok _ = True"

lemma raw_eq_refl: "key_ok k \<Longrightarrow> raw_eq k k"
  by (cases k) (auto simp: num_eq_def)

lemma raw_eq_sym: "raw_eq k k' \<longleftrightarrow> raw_eq k' k"
  by (cases k; cases k') (auto simp: num_eq_def)

lemma raw_eq_type: "raw_eq k k' \<Longrightarrow> lua_type k = lua_type k'"
  by (cases k; cases k') (auto simp: num_eq_def)

text \<open>A table as Lua keeps it: proper keys, no two equal, no \<open>nil\<close> values.\<close>

fun entries_ok :: "entries \<Rightarrow> bool" where
  "entries_ok [] = True"
| "entries_ok ((k, v) # es) =
     (key_ok k \<and> v \<noteq> LNil \<and> (\<forall>e\<in>set es. \<not> raw_eq (fst e) k) \<and> entries_ok es)"

lemma entries_ok_append:
  "entries_ok (es @ fs) \<longleftrightarrow> entries_ok es \<and> entries_ok fs \<and>
     (\<forall>e\<in>set es. \<forall>f\<in>set fs. \<not> raw_eq (fst f) (fst e))"
  by (induction es rule: entries_ok.induct) auto

lemma lua_next_first: "lua_next ((k, v) # es) LNil = Some (k, v)"
  and lua_next_none: "lua_next [] LNil = None"
  by (simp_all add: lua_next_def)

lemma lua_next_after:
  assumes "entries_ok (es @ (k, v) # fs)"
  shows "lua_next (es @ (k, v) # fs) k = (case fs of [] \<Rightarrow> None | f # _ \<Rightarrow> Some f)"
proof -
  have "\<forall>e\<in>set es. \<not> raw_eq (fst e) k" "key_ok k"
    using assms by (auto simp: entries_ok_append raw_eq_sym)
  moreover from \<open>key_ok k\<close> have "k \<noteq> LNil" by auto
  ultimately show ?thesis
    by (simp add: lua_next_def raw_eq_refl)
qed

lemma raw_put_append:
  assumes "\<forall>e\<in>set es. \<not> raw_eq (fst e) k" "v \<noteq> LNil"
  shows "raw_put k v es = es @ [(k, v)]"
  using assms by (induction es rule: entries_ok.induct) auto

end
