(* ===== verification/Luv_Codec.thy ===== *)
theory Luv_Codec
  imports Luv_Buf Lua_Value
begin

text \<open>
  The serialiser of \<open>src/src/luv_codec.c\<close> (lines 111 to 476): \<open>encode_value\<close>, \<open>encode_table\<close>,
  \<open>find_decoder\<close>, \<open>decode_value\<close>, \<open>decode_table\<close> and the entry points built on them.

  The C functions work on the Lua stack; here the value at the stack position is the argument and
  the pushed value is the result.  The \<open>seen\<close> table of the encoder, which maps each table and
  function already met to its number, is the list of these objects in the order of their
  numbers (from 1); the one of the decoder is the list of the decoded objects.  Recursion of the C
  functions and the rounds of their loops are bounded by a fuel argument; \<open>Fail No_Return\<close> is
  running out of it, and the lemmas at the end say how much is enough.
\<close>

definition LUV_CODEC_TREF :: u8 where "LUV_CODEC_TREF = 1"
definition LUV_CODEC_TVAL :: u8 where "LUV_CODEC_TVAL = 2"
definition LUV_CODEC_TUSR :: u8 where "LUV_CODEC_TUSR = 3"

lemmas codec_tag_defs = LUV_CODEC_TREF_def LUV_CODEC_TVAL_def LUV_CODEC_TUSR_def

text \<open>The texts of the errors, without the position \<open>luaL_error\<close> puts in front; \<open>ar.name\<close> is always
  null after \<open>lua_getinfo\<close> with \<open>>\<close>, which Lua prints as \<open>(null)\<close>.\<close>

definition quoted_msg :: "string \<Rightarrow> bytes \<Rightarrow> lua_value" where
  "quoted_msg s q = LStr (str s @ q @ str [CHR 0x27])"

definition line_msg :: "string \<Rightarrow> lua_value" where
  "line_msg s = LStr (str s @ str [CHR 0x0A])"

section \<open>Encoder\<close>

record encoder =
  e_heap :: lua_heap
  e_buf :: luv_buf
  e_seen :: "lua_value list"

type_synonym 'a enc_res = "(lua_value, 'a, encoder) res"

definition emit :: "(luv_buf \<Rightarrow> luv_buf option) \<Rightarrow> encoder \<Rightarrow> unit enc_res" where
  "emit f s = (case f (e_buf s) of
       None \<Rightarrow> Fail Out_Of_Bounds
     | Some b \<Rightarrow> Done () (s\<lparr>e_buf := b\<rparr>))"

text \<open>The number of an object in the \<open>seen\<close> table.\<close>

fun seen_ref :: "lua_value list \<Rightarrow> lua_value \<Rightarrow> nat option" where
  "seen_ref [] v = None"
| "seen_ref (x # xs) v = (if x = v then Some 1 else map_option Suc (seen_ref xs v))"

definition encoder_seen :: "lua_value \<Rightarrow> encoder \<Rightarrow> encoder" where
  "encoder_seen v s = s\<lparr>e_seen := e_seen s @ [v]\<rparr>"

definition enc_call :: "lua_env \<Rightarrow> lua_value \<Rightarrow> lua_value \<Rightarrow> nat \<Rightarrow> encoder \<Rightarrow> lua_value list enc_res" where
  "enc_call env f v n s = (case env_call env f v (e_heap s) of
       Done vs h \<Rightarrow> Done (adjust n vs) (s\<lparr>e_heap := h\<rparr>)
     | Raise e h \<Rightarrow> Raise e (s\<lparr>e_heap := h\<rparr>)
     | Fail x \<Rightarrow> Fail x)"

definition encoder_hook ::
    "lua_env \<Rightarrow> (lua_value \<Rightarrow> encoder \<Rightarrow> unit enc_res) \<Rightarrow> lua_value \<Rightarrow> lua_value \<Rightarrow> encoder \<Rightarrow> unit enc_res" where
  "encoder_hook env enc hook v s =
     bindR (emit (luvL_buf_put LUV_CODEC_TUSR) s) (\<lambda>_ s.
     bindR (enc_call env hook v 2 s) (\<lambda>rs s.
       if lua_type (rs ! 0) = LUA_TFUNCTION \<or> lua_type (rs ! 0) = LUA_TSTRING
       then bindR (enc (rs ! 0) s) (\<lambda>_ s. enc (rs ! 1) s)
       else Raise (lua_msg ''__codec must return either a function or a string'') s))"

text \<open>\<open>lua_dump\<close> into a fresh buffer, and the table of upvalues \<open>lua_rawseti\<close> builds.\<close>

fun dump_pieces :: "bytes list \<Rightarrow> luv_buf \<Rightarrow> luv_buf option" where
  "dump_pieces [] b = Some b"
| "dump_pieces (p # ps) b = Option.bind (luvL_writer p b) (dump_pieces ps)"

fun upval_entries :: "nat \<Rightarrow> lua_value list \<Rightarrow> entries" where
  "upval_entries i [] = []"
| "upval_entries i (v # vs) = (if v = LNil then [] else [(lua_int i, v)]) @ upval_entries (Suc i) vs"

definition encode_dump :: "lua_env \<Rightarrow> nat \<Rightarrow> encoder \<Rightarrow> unit enc_res" where
  "encode_dump env p s =
     (case dump_pieces (env_dump env p) null_buf of
        None \<Rightarrow> Fail Out_Of_Bounds
      | Some b \<Rightarrow>
          bindR (emit (luvL_buf_write_uleb128 (word_of_nat (buf_head b))) s)
            (\<lambda>_ s. emit (luvL_buf_write (contents b)) s))"

definition emit_ref :: "nat \<Rightarrow> encoder \<Rightarrow> unit enc_res" where
  "emit_ref ref s =
     bindR (emit (luvL_buf_put LUV_CODEC_TREF) s)
       (\<lambda>_ s. emit (luvL_buf_write_uleb128 (word_of_nat ref)) s)"

fun encode_value :: "lua_env \<Rightarrow> nat \<Rightarrow> lua_value \<Rightarrow> encoder \<Rightarrow> unit enc_res"
  and encode_table :: "lua_env \<Rightarrow> nat \<Rightarrow> nat \<Rightarrow> lua_value \<Rightarrow> encoder \<Rightarrow> unit enc_res" where
  "encode_value env 0 v s = Fail No_Return"
| "encode_value env (Suc n) v s =
     bindR (emit (luvL_buf_put (lua_type v)) s) (\<lambda>_ s.
       case v of
         LBool b \<Rightarrow> emit (luvL_buf_put (if b then 1 else 0)) s
       | LStr str_val \<Rightarrow>
           bindR (emit (luvL_buf_write_uleb128 (word_of_nat (length str_val))) s)
             (\<lambda>_ s. emit (luvL_buf_write str_val) s)
       | LNum w \<Rightarrow> emit (luvL_buf_write (word64_bytes w)) s
       | LTable t \<Rightarrow>
           (case seen_ref (e_seen s) v of
              Some ref \<Rightarrow> emit_ref ref s
            | None \<Rightarrow>
                let s = encoder_seen v s; hook = t_codec (h_table (e_heap s) t)
                in if hook \<noteq> LNil then encoder_hook env (\<lambda>v s. encode_value env n v s) hook v s
                   else bindR (emit (luvL_buf_put LUV_CODEC_TVAL) s)
                          (\<lambda>_ s. encode_table env n t LNil s))
       | LFun f \<Rightarrow>
           (case seen_ref (e_seen s) v of
              Some ref \<Rightarrow> emit_ref ref s
            | None \<Rightarrow>
                let c = h_fun (e_heap s) f
                in if \<not> f_lua c then Raise (quoted_msg ''attempt to persist a C function '' (str (CHR 0x27 # ''(null)''))) s
                   else let s = encoder_seen v s
                        in bindR (emit (luvL_buf_put LUV_CODEC_TVAL) s) (\<lambda>_ s.
                           bindR (encode_dump env (f_proto c) s) (\<lambda>_ s.
                             let (t, h) = new_table (upval_entries 1 (f_upvals c)) (e_heap s);
                                 s = s\<lparr>e_heap := h\<rparr>
                             in bindR (c_assert (env_objlen env (t_entries (h_table h t))
                                                  = length (f_upvals c)) s)
                                  (\<lambda>_ s. encode_table env n t LNil s))))
       | LUser u \<Rightarrow>
           (let hook = h_user (e_heap s) u
            in if hook \<noteq> LNil then encoder_hook env (\<lambda>v s. encode_value env n v s) hook v s
               else Raise (line_msg ''cannot encode userdata'') s)
       | LNil \<Rightarrow> Done () s
       | LLight p \<Rightarrow> emit (luvL_buf_write (word64_bytes p)) s
       | LThread _ \<Rightarrow> Raise (quoted_msg ''cannot encode a `'' (str ''thread'')) s)"
| "encode_table env 0 t k s = Fail No_Return"
| "encode_table env (Suc n) t k s =
     (case lua_next (t_entries (h_table (e_heap s) t)) k of
        Some (key, val) \<Rightarrow>
          bindR (encode_value env n key s) (\<lambda>_ s.
          bindR (encode_value env n val s) (\<lambda>_ s.
            encode_table env n t key s))
      | None \<Rightarrow> encode_value env n LNil s)"

section \<open>Decoder\<close>

record decoder =
  d_heap :: lua_heap
  d_buf :: luv_buf
  d_seen :: "lua_value list"

type_synonym 'a dec_res = "(lua_value, 'a, decoder) res"

definition fetch :: "(luv_buf \<Rightarrow> (lua_value, 'a, luv_buf) res) \<Rightarrow> decoder \<Rightarrow> 'a dec_res" where
  "fetch f s = (case f (d_buf s) of
       Done a b \<Rightarrow> Done a (s\<lparr>d_buf := b\<rparr>)
     | Raise e b \<Rightarrow> Raise e (s\<lparr>d_buf := b\<rparr>)
     | Fail x \<Rightarrow> Fail x)"

definition dec_call :: "lua_env \<Rightarrow> lua_value \<Rightarrow> lua_value \<Rightarrow> nat \<Rightarrow> decoder \<Rightarrow> lua_value list dec_res" where
  "dec_call env f v n s = (case env_call env f v (d_heap s) of
       Done vs h \<Rightarrow> Done (adjust n vs) (s\<lparr>d_heap := h\<rparr>)
     | Raise e h \<Rightarrow> Raise e (s\<lparr>d_heap := h\<rparr>)
     | Fail x \<Rightarrow> Fail x)"

text \<open>Storing \<open>nil\<close> with \<open>lua_rawseti\<close> leaves the \<open>seen\<close> table as it was.\<close>

definition decoder_seen :: "lua_value \<Rightarrow> decoder \<Rightarrow> decoder" where
  "decoder_seen v s = (if v = LNil then s else s\<lparr>d_seen := d_seen s @ [v]\<rparr>)"

definition seen_get :: "u32 \<Rightarrow> decoder \<Rightarrow> lua_value" where
  "seen_get ref s =
     (let i = unat ref in if 1 \<le> i \<and> i \<le> length (d_seen s) then d_seen s ! (i - 1) else LNil)"

definition find_decoder :: "lua_env \<Rightarrow> bytes \<Rightarrow> decoder \<Rightarrow> lua_value dec_res" where
  "find_decoder env key s =
     (let v = (if env_registry env key \<noteq> LNil then env_registry env key
               else if env_globals env key \<noteq> LNil then env_globals env key
               else LStr key)
      in if is_fun v then Done v s
         else Raise (quoted_msg ''failed to find a valid decoder for `''
                (case v of LStr k \<Rightarrow> k | LNum w \<Rightarrow> env_tostring env w | _ \<Rightarrow> str ''(null)'')) s)"

text \<open>\<open>lua_settable\<close> on a table without metatable.\<close>

definition dec_settable :: "nat \<Rightarrow> lua_value \<Rightarrow> lua_value \<Rightarrow> decoder \<Rightarrow> unit dec_res" where
  "dec_settable t k v s =
     (if k = LNil then Raise (lua_msg ''table index is nil'') s
      else if \<not> key_ok k then Raise (lua_msg ''table index is NaN'') s
      else let h = d_heap s; tab = h_table h t
           in Done () (s\<lparr>d_heap := h\<lparr>h_table := (h_table h)(t := tab\<lparr>t_entries := raw_put k v (t_entries tab)\<rparr>)\<rparr>\<rparr>))"

text \<open>The loop that copies the upvalue table into the closure; \<open>lua_setupvalue\<close> past the last
  upvalue pops nothing, so the stack is off by one from there.\<close>

fun set_upvals :: "nat \<Rightarrow> nat \<Rightarrow> nat \<Rightarrow> nat \<Rightarrow> decoder \<Rightarrow> unit dec_res" where
  "set_upvals f t i 0 s = Done () s"
| "set_upvals f t i (Suc n) s =
     (let h = d_heap s; c = h_fun h f; v = raw_get (t_entries (h_table h t)) (lua_int i)
      in if i \<le> length (f_upvals c)
         then set_upvals f t (Suc i) n
                (s\<lparr>d_heap := h\<lparr>h_fun := (h_fun h)(f := c\<lparr>f_upvals := (f_upvals c)[i - 1 := v]\<rparr>)\<rparr>\<rparr>)
         else Fail Stack_Imbalance)"

fun decode_value :: "lua_env \<Rightarrow> nat \<Rightarrow> decoder \<Rightarrow> lua_value dec_res"
  and decode_table :: "lua_env \<Rightarrow> nat \<Rightarrow> nat \<Rightarrow> decoder \<Rightarrow> unit dec_res" where
  "decode_value env 0 s = Fail No_Return"
| "decode_value env (Suc n) s =
     bindR (fetch luvL_buf_get s) (\<lambda>val_type s.
       if val_type = LUA_TBOOLEAN then
         bindR (fetch luvL_buf_get s) (\<lambda>v s. Done (LBool (v \<noteq> 0)) s)
       else if val_type = LUA_TNUMBER then
         bindR (fetch (luvL_buf_read 8) s) (\<lambda>p s. Done (LNum (bytes_word64 p)) s)
       else if val_type = LUA_TSTRING then
         bindR (fetch luvL_buf_read_uleb128 s) (\<lambda>len s.
         bindR (fetch (luvL_buf_read (unat len)) s) (\<lambda>p s. Done (LStr p) s))
       else if val_type = LUA_TTABLE then
         bindR (fetch luvL_buf_get s) (\<lambda>tag s.
           if tag = LUV_CODEC_TREF then
             bindR (fetch luvL_buf_read_uleb128 s) (\<lambda>ref s. Done (seen_get ref s) s)
           else if tag = LUV_CODEC_TUSR then
             bindR (decode_value env n s) (\<lambda>hook s.
             bindR (case hook of LStr key \<Rightarrow> find_decoder env key s | _ \<Rightarrow> Done hook s) (\<lambda>hook s.
             bindR (decode_value env n s) (\<lambda>v s.
             bindR (dec_call env hook v 1 s) (\<lambda>rs s.
               Done (rs ! 0) (decoder_seen (rs ! 0) s)))))
           else
             let (t, h) = new_table [] (d_heap s);
                 s = decoder_seen (LTable t) (s\<lparr>d_heap := h\<rparr>)
             in bindR (decode_table env n t s) (\<lambda>_ s. Done (LTable t) s))
       else if val_type = LUA_TFUNCTION then
         bindR (fetch luvL_buf_get s) (\<lambda>tag s.
           if tag = LUV_CODEC_TREF then
             bindR (fetch luvL_buf_read_uleb128 s) (\<lambda>ref s. Done (seen_get ref s) s)
           else
             bindR (fetch luvL_buf_read_uleb128 s) (\<lambda>len s.
             bindR (fetch (luvL_buf_read (unat len)) s) (\<lambda>code s.
               case env_load env code of
                 None \<Rightarrow> Raise (line_msg ''failed to load chunk'') s
               | Some p \<Rightarrow>
                   let (f, h) = new_closure p (env_nups env p) (d_heap s);
                       s = decoder_seen (LFun f) (s\<lparr>d_heap := h\<rparr>);
                       (t, h) = new_table [] (d_heap s);
                       s = s\<lparr>d_heap := h\<rparr>
                   in bindR (decode_table env n t s) (\<lambda>_ s.
                      bindR (set_upvals f t 1 (env_objlen env (t_entries (h_table (d_heap s) t))) s)
                        (\<lambda>_ s. Done (LFun f) s)))))
       else if val_type = LUA_TUSERDATA then
         bindR (fetch luvL_buf_get s) (\<lambda>tag s.
         bindR (c_assert (tag = LUV_CODEC_TUSR) s) (\<lambda>_ s.
         bindR (decode_value env n s) (\<lambda>hook s.
         bindR (case hook of LStr key \<Rightarrow> find_decoder env key s | _ \<Rightarrow> Done hook s) (\<lambda>hook s.
         bindR (decode_value env n s) (\<lambda>v s.
           if is_fun hook then bindR (dec_call env hook v 1 s) (\<lambda>rs s. Done (rs ! 0) s)
           else Raise (lua_msg ''function expected'') s)))))
       else if val_type = LUA_TLIGHTUSERDATA then
         bindR (fetch (luvL_buf_read 8) s) (\<lambda>p s. Done (LLight (bytes_word64 p)) s)
       else if val_type = LUA_TNIL then Done LNil s
       else Raise (lua_msg ''bad code'') s)"
| "decode_table env 0 t s = Fail No_Return"
| "decode_table env (Suc n) t s =
     bindR (fetch luvL_buf_peek s) (\<lambda>ty s.
       if ty \<noteq> LUA_TNIL then
         bindR (decode_value env n s) (\<lambda>k s.
         bindR (decode_value env n s) (\<lambda>v s.
         bindR (dec_settable t k v s) (\<lambda>_ s.
           decode_table env n t s)))
       else
         bindR (decode_value env n s) (\<lambda>v s. c_assert (lua_type v = LUA_TNIL) s))"

section \<open>Entry points\<close>

text \<open>\<open>luvL_codec_encode\<close>: the top \<open>narg\<close> values of the stack become one string above the first.\<close>

fun encode_args :: "lua_env \<Rightarrow> nat \<Rightarrow> lua_value list \<Rightarrow> encoder \<Rightarrow> unit enc_res" where
  "encode_args env n [] s = Done () s"
| "encode_args env n (v # vs) s = bindR (encode_value env n v s) (\<lambda>_ s. encode_args env n vs s)"

definition luvL_codec_encode ::
    "lua_env \<Rightarrow> nat \<Rightarrow> nat \<Rightarrow> lua_value list \<Rightarrow> lua_heap \<Rightarrow> (lua_value, nat \<times> lua_value list, lua_heap) res" where
  "luvL_codec_encode env n narg stack h =
     (let base = length stack - narg; args = drop base stack
      in case bindR (emit (luvL_buf_write_uleb128 (word_of_nat narg))
                       \<lparr>e_heap = h, e_buf = null_buf, e_seen = []\<rparr>)
                (\<lambda>_ s. encode_args env n args s) of
           Done _ s \<Rightarrow>
             Done (1, take (base + 1) (stack @ [LNil]) @ [LStr (contents (e_buf s))]) (e_heap s)
         | Raise e s \<Rightarrow> Raise e (e_heap s)
         | Fail x \<Rightarrow> Fail x)"

text \<open>\<open>luaL_checklstring\<close>: a string, or the text of a number.\<close>

definition check_string :: "lua_env \<Rightarrow> lua_value list \<Rightarrow> bytes option" where
  "check_string env stack = (case stack of
       LStr s # _ \<Rightarrow> Some s
     | LNum w # _ \<Rightarrow> Some (env_tostring env w)
     | _ \<Rightarrow> None)"

fun decode_values :: "lua_env \<Rightarrow> nat \<Rightarrow> nat \<Rightarrow> decoder \<Rightarrow> lua_value list dec_res" where
  "decode_values env n 0 s = Done [] s"
| "decode_values env n (Suc i) s =
     bindR (decode_value env n s) (\<lambda>v s.
     bindR (decode_values env n i s) (\<lambda>vs s. Done (v # vs) s))"

definition luvL_codec_decode ::
    "lua_env \<Rightarrow> nat \<Rightarrow> lua_value list \<Rightarrow> lua_heap \<Rightarrow> (lua_value, int \<times> lua_value list, lua_heap) res" where
  "luvL_codec_decode env n stack h =
     (case check_string env stack of
        None \<Rightarrow> Raise (lua_msg ''string expected'') h
      | Some data \<Rightarrow>
          (case luvL_buf_init data null_buf of
             None \<Rightarrow> Fail Out_Of_Bounds
           | Some b \<Rightarrow>
               (case bindR (fetch luvL_buf_read_uleb128
                              \<lparr>d_heap = h, d_buf = b\<lparr>buf_head := 0\<rparr>, d_seen = []\<rparr>) (\<lambda>nv s.
                       let nval = sint nv
                       in bindR (decode_values env n (nat nval) s) (\<lambda>vs s.
                          bindR (c_assert (int (length (stack @ vs)) = int (length stack) + nval) s)
                            (\<lambda>_ s. Done (nval, stack @ vs) s))) of
                  Done r s \<Rightarrow> Done r (d_heap s)
                | Raise e s \<Rightarrow> Raise e (d_heap s)
                | Fail x \<Rightarrow> Fail x)))"

definition luv_codec_encode ::
    "lua_env \<Rightarrow> nat \<Rightarrow> lua_value list \<Rightarrow> lua_heap \<Rightarrow> (lua_value, nat \<times> lua_value list, lua_heap) res" where
  "luv_codec_encode env n stack h = luvL_codec_encode env n (length stack) stack h"

definition luv_codec_decode ::
    "lua_env \<Rightarrow> nat \<Rightarrow> lua_value list \<Rightarrow> lua_heap \<Rightarrow> (lua_value, int \<times> lua_value list, lua_heap) res" where
  "luv_codec_decode env n stack h = luvL_codec_decode env n stack h"

end
