(* ===== verification/Codec_Roundtrip.thy ===== *)
theory Codec_Roundtrip
  imports Luv_Codec
begin

text \<open>
  Decoding what the encoder wrote rebuilds the same values: scalars are equal, and tables and
  functions come back as new objects that form an isomorphic graph, shared references and
  cycles included.

  \<open>transl sn ds v\<close> is the decoded counterpart of \<open>v\<close>: an object with number \<open>r\<close> in the encoder's
  \<open>seen\<close> list \<open>sn\<close> is the \<open>r\<close>-th entry of the decoder's list \<open>ds\<close>.  \<open>content\<close> says that an object
  was rebuilt with translated contents, \<open>dstep\<close> what a run of the decoder may change.
\<close>

section \<open>Numbering of objects\<close>

fun is_obj :: "lua_value \<Rightarrow> bool" where
  "is_obj (LTable _) = True"
| "is_obj (LFun _) = True"
| "is_obj _ = False"

definition covered :: "lua_value list \<Rightarrow> lua_value \<Rightarrow> bool" where
  "covered sn v \<longleftrightarrow> (is_obj v \<longrightarrow> v \<in> set sn)"

definition transl :: "lua_value list \<Rightarrow> lua_value list \<Rightarrow> lua_value \<Rightarrow> lua_value" where
  "transl sn ds v = (case seen_ref sn v of None \<Rightarrow> v | Some r \<Rightarrow> ds ! (r - 1))"

abbreviation transl2 ::
    "lua_value list \<Rightarrow> lua_value list \<Rightarrow> lua_value \<times> lua_value \<Rightarrow> lua_value \<times> lua_value" where
  "transl2 sn ds \<equiv> map_prod (transl sn ds) (transl sn ds)"

lemma seen_ref_None: "seen_ref sn v = None \<longleftrightarrow> v \<notin> set sn"
  by (induction sn) auto

lemma seen_ref_Some:
  "seen_ref sn v = Some r \<Longrightarrow> 0 < r \<and> r \<le> length sn \<and> sn ! (r - 1) = v"
proof (induction sn arbitrary: r)
  case (Cons x sn)
  then show ?case by (cases "x = v") (auto simp: nth_Cons split: nat.splits)
qed simp

lemma seen_ref_nth: "distinct sn \<Longrightarrow> i < length sn \<Longrightarrow> seen_ref sn (sn ! i) = Some (Suc i)"
proof (induction sn arbitrary: i)
  case (Cons x sn)
  then show ?case by (cases i) auto
qed simp

lemma seen_ref_append:
  "seen_ref (xs @ ys) v = (case seen_ref xs v of
      Some r \<Rightarrow> Some r | None \<Rightarrow> map_option (\<lambda>r. length xs + r) (seen_ref ys v))"
  by (induction xs; cases "seen_ref ys v") (auto split: option.splits)

lemma transl_nth: "distinct sn \<Longrightarrow> i < length sn \<Longrightarrow> transl sn ds (sn ! i) = ds ! i"
  by (simp add: transl_def seen_ref_nth)

lemma transl_not_in: "v \<notin> set sn \<Longrightarrow> transl sn ds v = v"
  using seen_ref_None [of sn v] by (simp add: transl_def)

lemma transl_snoc: "v \<notin> set sn \<Longrightarrow> length ds = length sn \<Longrightarrow> transl (sn @ [v]) (ds @ [w]) v = w"
  using seen_ref_None [of sn v] by (simp add: transl_def seen_ref_append nth_append)

text \<open>Values whose objects are numbered translate the same when more objects are numbered.\<close>

lemma transl_ext:
  assumes "covered sn v" "length ds = length sn" "\<forall>x\<in>set nw. is_obj x"
  shows "transl (sn @ nw) (ds @ nd) v = transl sn ds v"
proof (cases "seen_ref sn v")
  case None
  then have "v \<notin> set sn" by (simp add: seen_ref_None)
  with assms(1,3) have "v \<notin> set (sn @ nw)" by (auto simp: covered_def)
  with \<open>v \<notin> set sn\<close> show ?thesis by (simp add: transl_not_in)
next
  case (Some r)
  with seen_ref_Some [OF Some] assms(2) show ?thesis
    by (auto simp: transl_def seen_ref_append nth_append)
qed

lemma covered_ext: "covered sn v \<Longrightarrow> covered (sn @ nw) v"
  by (auto simp: covered_def)

section \<open>Heaps that grow, objects that match\<close>

definition heap_le :: "nat set \<Rightarrow> lua_heap \<Rightarrow> lua_heap \<Rightarrow> bool" where
  "heap_le X h h' \<longleftrightarrow> h_tnext h \<le> h_tnext h' \<and> h_fnext h \<le> h_fnext h' \<and>
     (\<forall>t<h_tnext h. t \<notin> X \<longrightarrow> h_table h' t = h_table h t) \<and>
     (\<forall>f<h_fnext h. h_fun h' f = h_fun h f)"

lemma heap_le_refl [simp]: "heap_le X h h"
  by (simp add: heap_le_def)

lemma heap_le_trans:
  assumes "heap_le X h h'" "heap_le Y h' h''"
  shows "heap_le (X \<union> Y) h h''"
  using assms by (auto simp: heap_le_def)

lemma heap_le_mono: "heap_le X h h' \<Longrightarrow> X \<subseteq> Y \<Longrightarrow> heap_le Y h h'"
  by (auto simp: heap_le_def)

fun same_kind :: "lua_heap \<Rightarrow> lua_value \<Rightarrow> lua_value \<Rightarrow> bool" where
  "same_kind h (LTable _) (LTable t) = (t < h_tnext h)"
| "same_kind h (LFun _) (LFun f) = (f < h_fnext h)"
| "same_kind h _ _ = False"

lemma is_obj_type: "lua_type a = lua_type b \<Longrightarrow> is_obj a = is_obj b"
  by (cases a; cases b) (auto simp: lua_tag_defs)

lemma same_kind_le: "same_kind h a b \<Longrightarrow> heap_le X h h' \<Longrightarrow> same_kind h' a b"
  by (cases a; cases b) (auto simp: heap_le_def)

lemma same_kind_type: "same_kind h a b \<Longrightarrow> lua_type b = lua_type a \<and> is_obj a \<and> is_obj b"
  by (cases a; cases b) auto

definition seen_match :: "lua_heap \<Rightarrow> lua_value list \<Rightarrow> lua_value list \<Rightarrow> bool" where
  "seen_match h sn ds \<longleftrightarrow> distinct sn \<and> distinct ds \<and> list_all2 (same_kind h) sn ds"

lemma seen_match_length: "seen_match h sn ds \<Longrightarrow> length ds = length sn"
  by (auto simp: seen_match_def dest: list_all2_lengthD)

lemma seen_match_le: "seen_match h sn ds \<Longrightarrow> heap_le X h h' \<Longrightarrow> seen_match h' sn ds"
  by (auto simp: seen_match_def elim!: list_all2_mono intro: same_kind_le)

lemma seen_match_objs: "seen_match h sn ds \<Longrightarrow> \<forall>x\<in>set sn. is_obj x"
  using same_kind_type by (fastforce simp: seen_match_def list_all2_conv_all_nth in_set_conv_nth)

lemma transl_type: "seen_match h sn ds \<Longrightarrow> lua_type (transl sn ds v) = lua_type v"
proof (cases "seen_ref sn v")
  case (Some r)
  assume m: "seen_match h sn ds"
  from seen_ref_Some [OF Some] m have "same_kind h v (ds ! (r - 1))"
    by (auto simp: seen_match_def list_all2_conv_all_nth)
  with Some show ?thesis by (simp add: transl_def same_kind_type)
qed (simp add: transl_def)

lemma transl_not_nil: "seen_match h sn ds \<Longrightarrow> transl sn ds v = LNil \<longleftrightarrow> v = LNil"
  using transl_type [of h sn ds v] by (cases v; cases "transl sn ds v") (auto simp: lua_tag_defs)

lemma transl_scalar: "seen_match h sn ds \<Longrightarrow> \<not> is_obj v \<Longrightarrow> transl sn ds v = v"
  using seen_match_objs [of h sn ds] by (intro transl_not_in) auto

lemma transl_inj:
  assumes m: "seen_match h sn ds" and c: "covered sn v" "covered sn w"
  shows "transl sn ds v = transl sn ds w \<longleftrightarrow> v = w"
proof (cases "is_obj v \<and> is_obj w")
  case True
  with c obtain i j where ij: "i < length sn" "sn ! i = v" "j < length sn" "sn ! j = w"
    by (auto simp: covered_def in_set_conv_nth)
  with m have "transl sn ds v = ds ! i" "transl sn ds w = ds ! j"
    using transl_nth [of sn i ds] transl_nth [of sn j ds] by (auto simp: seen_match_def)
  then show ?thesis
    using ij m seen_match_length [OF m] nth_eq_iff_index_eq [of ds i j] by (auto simp: seen_match_def)
next
  case False
  have "v = w" if "transl sn ds v = transl sn ds w"
  proof -
    have "lua_type v = lua_type w" using that transl_type [OF m] by metis
    with False have "\<not> is_obj v \<and> \<not> is_obj w" by (cases v; cases w) (auto simp: lua_tag_defs)
    with that show ?thesis using transl_scalar [OF m] by simp
  qed
  then show ?thesis by auto
qed

lemma transl_raw_eq:
  assumes m: "seen_match h sn ds" and c: "covered sn v" "covered sn w"
  shows "raw_eq (transl sn ds v) (transl sn ds w) \<longleftrightarrow> raw_eq v w"
proof (cases "is_obj v \<or> is_obj w")
  case True
  have obj: "raw_eq a b \<longleftrightarrow> a = b" if "is_obj a \<or> is_obj b" for a b
    using that by (cases a; cases b) auto
  have "is_obj (transl sn ds v) = is_obj v" "is_obj (transl sn ds w) = is_obj w"
    using transl_type [OF m] is_obj_type by metis+
  with True show ?thesis by (simp add: obj transl_inj [OF assms])
qed (simp add: transl_scalar [OF m])

lemma transl_key_ok: "seen_match h sn ds \<Longrightarrow> key_ok v \<Longrightarrow> key_ok (transl sn ds v)"
  using transl_type [of h sn ds v] transl_scalar [of h sn ds v]
  by (cases "is_obj v"; cases "transl sn ds v"; cases v) (auto simp: lua_tag_defs)

section \<open>Objects rebuilt with translated contents\<close>

fun content :: "lua_heap \<Rightarrow> lua_value list \<Rightarrow> lua_value list \<Rightarrow> lua_heap \<Rightarrow> lua_value \<Rightarrow> lua_value \<Rightarrow> bool" where
  "content h0 sn ds h (LTable t) (LTable t') \<longleftrightarrow>
     t' < h_tnext h \<and>
     h_table h t' = \<lparr>t_entries = map (transl2 sn ds) (t_entries (h_table h0 t)), t_codec = LNil\<rparr> \<and>
     (\<forall>e\<in>set (t_entries (h_table h0 t)). covered sn (fst e) \<and> covered sn (snd e))"
| "content h0 sn ds h (LFun f) (LFun f') \<longleftrightarrow>
     f' < h_fnext h \<and>
     h_fun h f' = \<lparr>f_lua = True, f_c = [], f_proto = f_proto (h_fun h0 f),
       f_upvals = map (transl sn ds) (f_upvals (h_fun h0 f))\<rparr> \<and>
     (\<forall>v\<in>set (f_upvals (h_fun h0 f)). covered sn v)"
| "content h0 sn ds h _ _ \<longleftrightarrow> False"

fun fresh :: "lua_heap \<Rightarrow> lua_value \<Rightarrow> bool" where
  "fresh h (LTable t) = (h_tnext h \<le> t)"
| "fresh h (LFun f) = (h_fnext h \<le> f)"
| "fresh h _ = False"

lemma fresh_le: "fresh h' b \<Longrightarrow> heap_le X h h' \<Longrightarrow> fresh h b"
  by (cases b) (auto simp: heap_le_def)

lemma transl2_ext:
  assumes "covered sn (fst e)" "covered sn (snd e)" "length ds = length sn" "\<forall>x\<in>set nw. is_obj x"
  shows "transl2 (sn @ nw) (ds @ nd) e = transl2 sn ds e"
  using assms by (cases e) (simp add: transl_ext)

lemma content_ext:
  assumes c: "content h0 sn ds h a b" and len: "length ds = length sn" and nw: "\<forall>x\<in>set nw. is_obj x"
    and le: "heap_le Y h h'" and Y: "\<And>t. b = LTable t \<Longrightarrow> t \<notin> Y"
  shows "content h0 (sn @ nw) (ds @ nd) h' a b"
proof (cases a)
  case (LTable t)
  with c obtain t' where b: "b = LTable t'" by (cases b) auto
  from c LTable b
  have "map (transl2 (sn @ nw) (ds @ nd)) (t_entries (h_table h0 t)) = map (transl2 sn ds) (t_entries (h_table h0 t))"
    by (intro map_cong refl transl2_ext) (auto simp: len nw)
  with c LTable b le Y show ?thesis by (auto simp: heap_le_def intro: covered_ext)
next
  case (LFun f)
  with c obtain f' where b: "b = LFun f'" by (cases b) auto
  from c LFun b
  have "map (transl (sn @ nw) (ds @ nd)) (f_upvals (h_fun h0 f)) = map (transl sn ds) (f_upvals (h_fun h0 f))"
    by (intro map_cong refl transl_ext) (auto simp: len nw)
  with c LFun b le show ?thesis by (auto simp: heap_le_def intro: covered_ext)
qed (use c in auto)

definition dstep ::
    "nat set \<Rightarrow> lua_heap \<Rightarrow> lua_value list \<Rightarrow> lua_value list \<Rightarrow> decoder \<Rightarrow> decoder \<Rightarrow> bool" where
  "dstep X h0 sn sn' d d' \<longleftrightarrow>
     heap_le X (d_heap d) (d_heap d') \<and> seen_match (d_heap d') sn' (d_seen d') \<and>
     (\<exists>nw nd. sn' = sn @ nw \<and> d_seen d' = d_seen d @ nd \<and>
        list_all2 (\<lambda>a b. content h0 sn' (d_seen d') (d_heap d') a b \<and> fresh (d_heap d) b) nw nd)"

lemma dstep_match: "dstep X h0 sn sn' d d' \<Longrightarrow> seen_match (d_heap d') sn' (d_seen d')"
  by (simp add: dstep_def)

lemma dstep_buf [simp]: "dstep X h0 sn sn' d (d'\<lparr>d_buf := b\<rparr>) = dstep X h0 sn sn' d d'"
  "dstep X h0 sn sn' (d\<lparr>d_buf := b\<rparr>) d' = dstep X h0 sn sn' d d'"
  by (simp_all add: dstep_def)

lemma dstep_refl: "seen_match (d_heap d) sn (d_seen d) \<Longrightarrow> dstep X h0 sn sn d d"
  by (simp add: dstep_def)

lemma dstep_mono: "dstep X h0 sn sn' d d' \<Longrightarrow> X \<subseteq> Y \<Longrightarrow> dstep Y h0 sn sn' d d'"
  by (auto simp: dstep_def intro: heap_le_mono)

lemma dstep_trans:
  assumes s1: "dstep X h0 sn0 sn1 d0 d1" and s2: "dstep Y h0 sn1 sn2 d1 d2"
    and Y: "\<forall>y\<in>Y. y < h_tnext (d_heap d0)"
  shows "dstep (X \<union> Y) h0 sn0 sn2 d0 d2"
proof -
  from s1 obtain nw1 nd1 where 1: "sn1 = sn0 @ nw1" "d_seen d1 = d_seen d0 @ nd1"
    "list_all2 (\<lambda>a b. content h0 sn1 (d_seen d1) (d_heap d1) a b \<and> fresh (d_heap d0) b) nw1 nd1"
    by (auto simp: dstep_def)
  from s2 obtain nw2 nd2 where 2: "sn2 = sn1 @ nw2" "d_seen d2 = d_seen d1 @ nd2"
    "list_all2 (\<lambda>a b. content h0 sn2 (d_seen d2) (d_heap d2) a b \<and> fresh (d_heap d1) b) nw2 nd2"
    by (auto simp: dstep_def)
  have le: "heap_le X (d_heap d0) (d_heap d1)" "heap_le Y (d_heap d1) (d_heap d2)"
    using s1 s2 by (auto simp: dstep_def)
  have objs: "\<forall>x\<in>set nw2. is_obj x"
    using seen_match_objs [OF dstep_match [OF s2]] 2(1) by auto
  have len: "length (d_seen d1) = length sn1"
    using seen_match_length [OF dstep_match [OF s1]] .
  have "list_all2 (\<lambda>a b. content h0 sn2 (d_seen d2) (d_heap d2) a b \<and> fresh (d_heap d0) b) nw1 nd1"
  proof (rule list_all2_mono [OF 1(3)])
    fix a b
    assume ab: "content h0 sn1 (d_seen d1) (d_heap d1) a b \<and> fresh (d_heap d0) b"
    then have "t \<notin> Y" if "b = LTable t" for t using that Y by auto
    with ab 2(1,2) le(2) len objs
    show "content h0 sn2 (d_seen d2) (d_heap d2) a b \<and> fresh (d_heap d0) b"
      by (auto intro!: content_ext)
  qed
  moreover have "list_all2 (\<lambda>a b. content h0 sn2 (d_seen d2) (d_heap d2) a b \<and> fresh (d_heap d0) b) nw2 nd2"
    by (rule list_all2_mono [OF 2(3)]) (auto intro: fresh_le [OF _ le(1)])
  ultimately have "list_all2 (\<lambda>a b. content h0 sn2 (d_seen d2) (d_heap d2) a b \<and> fresh (d_heap d0) b)
      (nw1 @ nw2) (nd1 @ nd2)"
    by (rule list_all2_appendI)
  then show ?thesis
    using 1(1,2) 2(1,2) le dstep_match [OF s2] heap_le_trans [OF le]
    by (auto simp: dstep_def)
qed

section \<open>The decoder on encoded bytes\<close>

definition dadv :: "nat \<Rightarrow> decoder \<Rightarrow> decoder" where
  "dadv k d = d\<lparr>d_buf := adv k (d_buf d)\<rparr>"

lemma dadv_sel [simp]:
  "d_buf (dadv k d) = adv k (d_buf d)" "d_heap (dadv k d) = d_heap d" "d_seen (dadv k d) = d_seen d"
  by (simp_all add: dadv_def)

lemma dadv_dadv [simp]: "dadv k (dadv j d) = dadv (j + k) d"
  by (simp add: dadv_def)

lemma fetch_get: "reads (d_buf d) (x # xs) \<Longrightarrow> fetch luvL_buf_get d = Done x (dadv (Suc 0) d)"
  by (simp add: fetch_def buf_get_reads dadv_def)

lemma fetch_peek: "reads (d_buf d) (x # xs) \<Longrightarrow> fetch luvL_buf_peek d = Done x d"
  by (simp add: fetch_def buf_peek_reads)

lemma fetch_uleb:
  "reads (d_buf d) (uleb128 v @ xs) \<Longrightarrow> fetch luvL_buf_read_uleb128 d = Done v (dadv (length (uleb128 v)) d)"
  by (simp add: fetch_def buf_read_uleb128 dadv_def)

lemma fetch_read:
  assumes "reads (d_buf d) (xs @ ys)" "buf_head (d_buf d) \<le> length (buf_mem (d_buf d))"
  shows "fetch (luvL_buf_read (length xs)) d = Done xs (dadv (length xs) d)"
  by (simp add: fetch_def dadv_def buf_read_reads [OF assms])

lemma reads_adv_bound:
  "reads b (xs @ ys) \<Longrightarrow> xs \<noteq> [] \<Longrightarrow> buf_head (adv (length xs) b) \<le> length (buf_mem (adv (length xs) b))"
  using reads_bound [of b xs] by (simp add: reads_append)

lemma decode_scalar:
  assumes "reads (d_buf d) (bs @ rest)"
  shows "bs = [LUA_TNIL] \<Longrightarrow> decode_value env (Suc n) d = Done LNil (dadv 1 d)"
    and "bs = [LUA_TBOOLEAN, if b then 1 else 0] \<Longrightarrow> decode_value env (Suc n) d = Done (LBool b) (dadv 2 d)"
    and "bs = LUA_TNUMBER # word64_bytes w \<Longrightarrow> decode_value env (Suc n) d = Done (LNum w) (dadv 9 d)"
    and "bs = LUA_TLIGHTUSERDATA # word64_bytes w \<Longrightarrow> decode_value env (Suc n) d = Done (LLight w) (dadv 9 d)"
proof -
  have get: "fetch luvL_buf_get d = Done x (dadv 1 d)" "reads (d_buf (dadv 1 d)) (xs @ rest)"
    "buf_head (d_buf (dadv 1 d)) \<le> length (buf_mem (d_buf (dadv 1 d)))" if "bs = x # xs" for x xs
    using assms that reads_tl [of "d_buf d"] reads_bound [OF assms] by (auto intro: fetch_get)
  show "bs = [LUA_TNIL] \<Longrightarrow> decode_value env (Suc n) d = Done LNil (dadv 1 d)"
    using get by (simp add: lua_tag_defs)
  show "bs = [LUA_TBOOLEAN, if b then 1 else 0] \<Longrightarrow> decode_value env (Suc n) d = Done (LBool b) (dadv 2 d)"
    using get fetch_get [of "dadv 1 d" "if b then 1 else 0" rest] by (simp add: lua_tag_defs)
  show "bs = LUA_TNUMBER # word64_bytes w \<Longrightarrow> decode_value env (Suc n) d = Done (LNum w) (dadv 9 d)"
    using get fetch_read [of "dadv 1 d" "word64_bytes w" rest] by (simp add: lua_tag_defs)
  show "bs = LUA_TLIGHTUSERDATA # word64_bytes w \<Longrightarrow> decode_value env (Suc n) d = Done (LLight w) (dadv 9 d)"
    using get fetch_read [of "dadv 1 d" "word64_bytes w" rest] by (simp add: lua_tag_defs)
qed

lemma unat_of_nat_u32: "k < 2 ^ 32 \<Longrightarrow> unat (word_of_nat k :: u32) = k"
  by (simp add: unat_of_nat)

text \<open>A length prefix and that many bytes.\<close>

lemma fetch_block:
  assumes rd: "reads (d_buf d) (uleb128 (word_of_nat (length xs)) @ xs @ rest)" and len: "length xs < 2 ^ 32"
  defines "k \<equiv> length (uleb128 (word_of_nat (length xs)))"
  shows "fetch luvL_buf_read_uleb128 d = Done (word_of_nat (length xs)) (dadv k d)"
    and "fetch (luvL_buf_read (unat (word_of_nat (length xs) :: u32))) (dadv k d) = Done xs (dadv (k + length xs) d)"
    and "reads (d_buf (dadv (k + length xs) d)) rest"
proof -
  show "fetch luvL_buf_read_uleb128 d = Done (word_of_nat (length xs)) (dadv k d)"
    using fetch_uleb [OF rd] by (simp add: k_def)
  have "buf_head (adv k (d_buf d)) \<le> length (buf_mem (adv k (d_buf d)))"
    using reads_adv_bound [OF rd] uleb128_nonempty by (simp add: k_def)
  moreover have "reads (d_buf (dadv k d)) (xs @ rest)"
    using rd by (simp add: reads_append k_def)
  ultimately show "fetch (luvL_buf_read (unat (word_of_nat (length xs) :: u32))) (dadv k d) = Done xs (dadv (k + length xs) d)"
    using fetch_read [of "dadv k d" xs rest] len by (simp add: unat_of_nat_u32)
  show "reads (d_buf (dadv (k + length xs) d)) rest"
    using rd by (simp add: reads_append k_def)
qed

lemma decode_string:
  assumes rd: "reads (d_buf d) (bs @ rest)" and len: "length xs < 2 ^ 32"
    and bs: "bs = LUA_TSTRING # uleb128 (word_of_nat (length xs)) @ xs"
  shows "decode_value env (Suc n) d = Done (LStr xs) (dadv (length bs) d)"
proof -
  have rd1: "reads (d_buf (dadv 1 d)) (uleb128 (word_of_nat (length xs)) @ xs @ rest)"
    using rd reads_tl bs by simp
  have "fetch luvL_buf_get d = Done LUA_TSTRING (dadv 1 d)"
    using rd bs by (auto intro: fetch_get)
  with fetch_block [OF rd1 len] show ?thesis
    by (simp add: bs lua_tag_defs)
qed

lemma decode_ref:
  assumes rd: "reads (d_buf d) (bs @ rest)" and ty: "ty = LUA_TTABLE \<or> ty = LUA_TFUNCTION"
    and bs: "bs = ty # LUV_CODEC_TREF # uleb128 r"
  shows "decode_value env (Suc n) d = Done (seen_get r d) (dadv (length bs) d)"
proof -
  have rd1: "reads (d_buf (dadv 1 d)) (LUV_CODEC_TREF # uleb128 r @ rest)"
    using rd reads_tl bs by simp
  then have rd2: "reads (d_buf (dadv 2 d)) (uleb128 r @ rest)"
    using reads_tl [OF rd1] by (simp add: numeral_2_eq_2)
  have "fetch luvL_buf_get d = Done ty (dadv 1 d)"
    using rd bs by (auto intro: fetch_get)
  moreover have "fetch luvL_buf_get (dadv 1 d) = Done LUV_CODEC_TREF (dadv 2 d)"
    using fetch_get [OF rd1] by (simp add: numeral_2_eq_2)
  moreover have "seen_get r (dadv k d) = seen_get r d" for k
    by (simp add: seen_get_def Let_def)
  ultimately show ?thesis
    using ty fetch_uleb [OF rd2] by (auto simp: bs lua_tag_defs)
qed

end
