(* ===== verification/Buf_Props.thy ===== *)
theory Buf_Props
  imports Luv_Buf
begin

text \<open>
  What the buffers of the codec promise: every writer appends its bytes and stays inside the
  allocation, LEB128 values survive a write and a read, and the growth loop on 64-bit sizes.
\<close>

section \<open>Writers\<close>

fun write_all :: "('a \<Rightarrow> luv_buf \<Rightarrow> luv_buf option) \<Rightarrow> 'a list \<Rightarrow> luv_buf \<Rightarrow> luv_buf option" where
  "write_all wr [] b = Some b"
| "write_all wr (v # vs) b = Option.bind (wr v b) (write_all wr vs)"

text \<open>
  The contract the writers share: on a well-formed buffer the call succeeds, the buffer stays
  well-formed, and the bytes of the value are added at the end.
\<close>

locale buf_writer =
  fixes wr :: "'a \<Rightarrow> luv_buf \<Rightarrow> luv_buf option" and enc :: "'a \<Rightarrow> bytes"
  assumes appends: "buf_ok b \<Longrightarrow> \<exists>b'. wr v b = Some b' \<and> buf_ok b' \<and> contents b' = contents b @ enc v"
begin

lemma write_all_appends:
  "buf_ok b \<Longrightarrow> \<exists>b'. write_all wr vs b = Some b' \<and> buf_ok b' \<and> contents b' = contents b @ concat (map enc vs)"
proof (induction vs arbitrary: b)
  case (Cons v vs)
  then obtain b1 where b1: "wr v b = Some b1" "buf_ok b1" "contents b1 = contents b @ enc v"
    using appends by blast
  with Cons.IH [OF b1(2)] show ?case by auto
qed simp

end

interpretation wput: buf_writer luvL_buf_put "\<lambda>v. [v]"
proof
  fix b v assume "buf_ok b"
  then show "\<exists>b'. luvL_buf_put v b = Some b' \<and> buf_ok b' \<and> contents b' = contents b @ [v]"
    using buf_put_push buf_push_ok_simps(1,2) by blast
qed

interpretation wblock: buf_writer luvL_buf_write "\<lambda>bs. bs"
  by unfold_locales (simp add: buf_write_push)

interpretation wuleb: buf_writer luvL_buf_write_uleb128 uleb128
  by unfold_locales (simp add: buf_write_uleb128_push)

interpretation wdump: buf_writer luvL_writer "\<lambda>bs. bs"
  by unfold_locales (simp add: luvL_writer_def buf_write_push)

text \<open>A call of one of the three writers, and the bytes it writes.\<close>

datatype buf_op = Put u8 | Write bytes | Write_uleb128 u32

fun run_buf_op :: "buf_op \<Rightarrow> luv_buf \<Rightarrow> luv_buf option" where
  "run_buf_op (Put v) = luvL_buf_put v"
| "run_buf_op (Write bs) = luvL_buf_write bs"
| "run_buf_op (Write_uleb128 v) = luvL_buf_write_uleb128 v"

fun buf_op_bytes :: "buf_op \<Rightarrow> bytes" where
  "buf_op_bytes (Put v) = [v]"
| "buf_op_bytes (Write bs) = bs"
| "buf_op_bytes (Write_uleb128 v) = uleb128 v"

interpretation wop: buf_writer run_buf_op buf_op_bytes
proof
  fix b v assume "buf_ok b"
  then show "\<exists>b'. run_buf_op v b = Some b' \<and> buf_ok b' \<and> contents b' = contents b @ buf_op_bytes v"
    using wput.appends wblock.appends wuleb.appends by (cases v) auto
qed

text \<open>C18: Any sequence of \<open>luvL_buf_put\<close>, \<open>luvL_buf_write\<close> and \<open>luvL_buf_write_uleb128\<close> on a
  well-formed buffer stays inside the allocation at every store, and leaves the old contents
  followed by the bytes written, in order, with \<open>head\<close> just after them.\<close>

theorem buf_writes_append:
  assumes "buf_ok b"
  shows "\<exists>b'. write_all run_buf_op ops b = Some b' \<and> buf_ok b' \<and>
    contents b' = contents b @ concat (map buf_op_bytes ops) \<and>
    buf_head b' = buf_head b + length (concat (map buf_op_bytes ops)) \<and> buf_head b' \<le> buf_size b'"
proof -
  obtain b' where b': "write_all run_buf_op ops b = Some b'" "buf_ok b'"
    "contents b' = contents b @ concat (map buf_op_bytes ops)"
    using wop.write_all_appends [OF assms] by blast
  with length_contents [OF b'(2)] length_contents [OF assms] show ?thesis
    by (auto simp: buf_ok_def)
qed

lemma buf_head_null: "buf_head null_buf = 0"
  by (simp add: null_buf_def)

theorem buf_writes_append_witness:
  "\<exists>b'. write_all run_buf_op [Put 7, Write (replicate 200 1), Write_uleb128 300] null_buf = Some b' \<and>
    buf_head b' = 201 + length (uleb128 300) \<and> contents b' = 7 # replicate 200 1 @ uleb128 300"
  using buf_writes_append [of null_buf "[Put 7, Write (replicate 200 1), Write_uleb128 300]"]
  using buf_head_null by auto

section \<open>LEB128\<close>

text \<open>C19: A value written by \<open>luvL_buf_write_uleb128\<close> takes at most five bytes, the room the function
  asks for, and \<open>luvL_buf_read_uleb128\<close> at the place it was written gives the value back and
  stops right after it.\<close>

theorem uleb128_roundtrip:
  assumes "buf_ok b"
  shows "\<exists>b'. luvL_buf_write_uleb128 val b = Some b' \<and> buf_head b' \<le> buf_head b + 5 \<and>
    luvL_buf_read_uleb128 (b'\<lparr>buf_head := buf_head b\<rparr>) = Done val b'"
proof -
  obtain b' where b': "luvL_buf_write_uleb128 val b = Some b'" "buf_ok b'" "contents b' = contents b @ uleb128 val"
    using wuleb.appends [OF assms] by blast
  let ?b = "b'\<lparr>buf_head := buf_head b\<rparr>"
  have h: "buf_head b' = buf_head b + length (uleb128 val)"
    using length_contents [OF b'(2)] length_contents [OF assms] b'(3) by simp
  have len: "length (contents b) = buf_head b" using length_contents [OF assms] .
  have "map Some (contents b') = take (buf_head b') (buf_mem b')"
    using b'(2) unfolding contents_def buf_ok_def map_map by (intro map_idI) (metis comp_apply option.exhaust_sel)
  then have "take (buf_head b + length (uleb128 val)) (buf_mem b') = map Some (contents b) @ map Some (uleb128 val)"
    using h b'(3) by simp
  then have "take (length (uleb128 val)) (drop (buf_head b) (buf_mem b')) = map Some (uleb128 val)"
    using len by (simp add: take_drop add.commute)
  then have "reads ?b (uleb128 val @ [])" by (simp add: reads_def) (metis append_take_drop_id)
  from buf_read_uleb128 [OF this] show ?thesis
    using b'(1) h uleb128_length [of val] by (cases b') (simp add: adv_def)
qed

theorem uleb128_roundtrip_witness:
  "\<exists>b'. luvL_buf_write_uleb128 624485 null_buf = Some b' \<and>
    luvL_buf_read_uleb128 (b'\<lparr>buf_head := 0\<rparr>) = Done 624485 b'"
  using uleb128_roundtrip [of null_buf 624485] buf_head_null by auto

section \<open>The growth loop on 64-bit sizes\<close>

text \<open>C20: The loop \<open>while (size < need) size *= 2\<close> of \<open>luvL_buf_need\<close>, started as the code starts it on a
  power of two, ends for every \<open>need\<close> up to \<open>2 ^ 63\<close> with a size that holds \<open>need\<close> bytes and
  is less than twice as large, without wrapping around; above, the size wraps to zero and the
  loop never ends.\<close>

theorem buf_growth_bounds:
  assumes "k \<le> 63" "2 ^ k < unat need"
  shows "if unat need \<le> 2 ^ 63
    then \<exists>r. buf_grow64 (2 ^ k) need = Some r \<and> need \<le> r \<and> unat r = buf_grow (2 ^ k) (unat need) \<and> unat r < 2 * unat need
    else buf_grow64 (2 ^ k) need = None"
proof (cases "unat need \<le> 2 ^ 63")
  case True
  have p: "unat (2 ^ k :: u64) = 2 ^ k" using assms(1) by (rule unat_pow2)
  then have "(2 ^ k :: u64) \<noteq> 0" by (metis power_not_zero unat_0 zero_neq_numeral)
  then have "0 < (2 ^ k :: u64)" by (simp add: word_gt_0)
  from buf_grow64_eq [OF this True] obtain r
    where r: "buf_grow64 (2 ^ k) need = Some r" "unat r = buf_grow (2 ^ k) (unat need)" unfolding p by blast
  with True assms(2) buf_grow_ge [of "2 ^ k" "unat need"] buf_grow_less [of "2 ^ k" "unat need"] show ?thesis
    by (simp add: word_le_nat_alt)
next
  case False
  with buf_grow64_diverges [of need "2 ^ k"] assms(1) show ?thesis by auto
qed

theorem buf_growth_bounds_witness:
  "(\<exists>r. buf_grow64 128 300 = Some r \<and> 300 \<le> r) \<and> buf_grow64 128 (2 ^ 63 + 1) = None"
proof -
  have "unat (2 ^ 63 + 1 :: u64) = 2 ^ 63 + 1" by simp
  with buf_growth_bounds [of 7 300] buf_growth_bounds [of 7 "2 ^ 63 + 1"] show ?thesis by auto
qed

end
