(* ===== verification/Codec_Encode.thy ===== *)
theory Codec_Encode
  imports Codec_Roundtrip Buf_Props
begin

text \<open>
  The encoder on a well-formed heap: what it appends, that the decoder accepts exactly that, and how
  much fuel it needs.  \<open>value_sim\<close> and \<open>table_sim\<close> relate one run of \<open>encode_value\<close> and
  \<open>encode_table\<close> to the run of the decoder on the bytes they appended; the simulation is proved
  by induction on the fuel, one lemma per kind of value.
\<close>

section \<open>What the writers do to the encoder\<close>

definition epush :: "nat \<Rightarrow> bytes \<Rightarrow> encoder \<Rightarrow> encoder" where
  "epush k bs s = s\<lparr>e_buf := buf_push k bs (e_buf s)\<rparr>"

lemma epush_sel [simp]:
  "e_heap (epush k bs s) = e_heap s" "e_seen (epush k bs s) = e_seen s"
  "e_buf (epush k bs s) = buf_push k bs (e_buf s)"
  by (simp_all add: epush_def)

lemma emit_push:
  assumes "buf_ok (e_buf s)"
  shows "emit (luvL_buf_put v) s = Done () (epush 1 [v] s)"
    "emit (luvL_buf_write bs) s = Done () (epush (length bs) bs s)"
    "emit (luvL_buf_write_uleb128 w) s = Done () (epush 5 (uleb128 w) s)"
  using assms by (simp_all add: emit_def epush_def buf_writers)

lemma buf_push_Suc [simp]:
  "buf_ok b \<Longrightarrow> buf_ok (buf_push (Suc 0) [v] b)"
  "buf_ok b \<Longrightarrow> contents (buf_push (Suc 0) [v] b) = contents b @ [v]"
  using buf_push_ok_simps(1,2) [of b v] by simp_all

lemma dump_pieces_all: "dump_pieces ps b = write_all luvL_writer ps b"
  by (induction ps arbitrary: b) (simp_all split: Option.bind_split)

lemma dump_pieces_ok:
  "buf_ok b \<Longrightarrow> \<exists>b'. dump_pieces ps b = Some b' \<and> buf_ok b' \<and> contents b' = contents b @ concat ps"
  using wdump.write_all_appends [of b ps] by (simp add: dump_pieces_all)

section \<open>Well-formed heaps\<close>

text \<open>
  \<open>R\<close> is a set of tables and functions that refer to nothing outside \<open>R\<close>; the rest of the heap does
  not matter.
\<close>

fun value_ok :: "lua_value set \<Rightarrow> lua_value \<Rightarrow> bool" where
  "value_ok R (LStr xs) = (length xs < 2 ^ 32)"
| "value_ok R (LTable t) = (LTable t \<in> R)"
| "value_ok R (LFun f) = (LFun f \<in> R)"
| "value_ok R (LUser u) = False"
| "value_ok R (LThread u) = False"
| "value_ok R _ = True"

definition entry_ok :: "lua_value set \<Rightarrow> lua_value \<times> lua_value \<Rightarrow> bool" where
  "entry_ok R e \<longleftrightarrow> value_ok R (fst e) \<and> value_ok R (snd e)"

definition table_ok :: "lua_value set \<Rightarrow> lua_table \<Rightarrow> bool" where
  "table_ok R tab \<longleftrightarrow>
     entries_ok (t_entries tab) \<and> t_codec tab = LNil \<and> (\<forall>e\<in>set (t_entries tab). entry_ok R e)"

text \<open>
  A Lua function that can be sent: no upvalue is \<open>nil\<close>, the prototype has as many upvalues as the
  closure, and Lua loads back what it dumped.
\<close>

definition closure_ok :: "lua_env \<Rightarrow> lua_value set \<Rightarrow> lua_closure \<Rightarrow> bool" where
  "closure_ok env R c \<longleftrightarrow>
     f_lua c \<and> LNil \<notin> set (f_upvals c) \<and> (\<forall>v\<in>set (f_upvals c). value_ok R v) \<and>
     length (f_upvals c) = env_nups env (f_proto c) \<and> length (f_upvals c) < 2 ^ 32 \<and>
     env_load env (concat (env_dump env (f_proto c))) = Some (f_proto c) \<and>
     length (concat (env_dump env (f_proto c))) < 2 ^ 32"

definition heap_ok :: "lua_env \<Rightarrow> lua_value set \<Rightarrow> lua_heap \<Rightarrow> bool" where
  "heap_ok env R h \<longleftrightarrow>
     finite R \<and> card R < 2 ^ 32 \<and>
     (\<forall>t. LTable t \<in> R \<longrightarrow> t < h_tnext h \<and> table_ok R (h_table h t)) \<and>
     (\<forall>f. LFun f \<in> R \<longrightarrow> f < h_fnext h \<and> closure_ok env R (h_fun h f))"

text \<open>The length of a regular array, as the Lua manual states it.\<close>

definition objlen_law :: "lua_env \<Rightarrow> bool" where
  "objlen_law env \<longleftrightarrow> (\<forall>vs. LNil \<notin> set vs \<longrightarrow> env_objlen env (upval_entries 1 vs) = length vs)"

lemma heap_ok_le:
  assumes "heap_ok env R h" "heap_le {} h h'"
  shows "heap_ok env R h'"
  using assms unfolding heap_ok_def heap_le_def by (metis empty_iff order_less_le_trans)

section \<open>Upvalue tables\<close>

lemma upval_entries_keys:
  "e \<in> set (upval_entries i vs) \<Longrightarrow> \<exists>j. i \<le> j \<and> j < i + length vs \<and> fst e = lua_int j \<and> snd e \<in> set vs"
proof (induction vs arbitrary: i)
  case (Cons v vs)
  then consider "e = (lua_int i, v)" | "e \<in> set (upval_entries (Suc i) vs)"
    by (auto split: if_splits)
  then show ?case
  proof cases
    case 2
    from Cons.IH [OF 2] obtain j where "Suc i \<le> j" "j < Suc i + length vs" "fst e = lua_int j" "snd e \<in> set vs"
      by auto
    then show ?thesis by (intro exI [of _ j]) auto
  qed auto
qed simp

lemma upval_entries_values:
  "LNil \<notin> set vs \<Longrightarrow> v \<in> set vs \<Longrightarrow> \<exists>e\<in>set (upval_entries i vs). snd e = v"
  by (induction vs arbitrary: i) auto

lemma upval_entries_ok:
  assumes "0 < i" "i + length vs \<le> 2 ^ 53"
  shows "entries_ok (upval_entries i vs)"
  using assms
proof (induction vs arbitrary: i)
  case (Cons v vs)
  have "\<not> raw_eq (fst e) (lua_int i)" if "e \<in> set (upval_entries (Suc i) vs)" for e
    using upval_entries_keys [OF that] Cons.prems raw_eq_lua_int [of _ i] by auto
  moreover have "key_ok (lua_int i)"
    using lua_int_not_nan [of i] Cons.prems by (simp add: lua_int_def)
  ultimately show ?case
    using Cons.IH [of "Suc i"] Cons.prems by auto
qed simp

lemma upval_entries_map:
  assumes "seen_match h sn ds"
  shows "map (transl2 sn ds) (upval_entries i vs) = upval_entries i (map (transl sn ds) vs)"
  using transl_not_nil [OF assms] transl_scalar [OF assms, of "lua_int _"]
  by (induction vs arbitrary: i) (auto simp: lua_int_def)

lemma upval_entries_get:
  assumes "LNil \<notin> set vs" "0 < i" "i + length vs \<le> 2 ^ 53" "j < length vs"
  shows "raw_get (upval_entries i vs) (lua_int (i + j)) = vs ! j"
  using assms
proof (induction vs arbitrary: i j)
  case (Cons v vs)
  show ?case
  proof (cases j)
    case 0
    with Cons.prems raw_eq_lua_int [of i i] show ?thesis by auto
  next
    case (Suc k)
    with Cons.IH [of "Suc i" k] Cons.prems raw_eq_lua_int [of i "Suc (i + k)"] show ?thesis by auto
  qed
qed simp

section \<open>Invariant of the encoder, and the work left\<close>

definition enc_inv :: "lua_value set \<Rightarrow> lua_heap \<Rightarrow> encoder \<Rightarrow> bool" where
  "enc_inv R h0 s \<longleftrightarrow> finite R \<and> buf_ok (e_buf s) \<and> heap_le {} h0 (e_heap s) \<and> distinct (e_seen s) \<and> set (e_seen s) \<subseteq> R"

lemma enc_inv_seen_bound:
  assumes "enc_inv R h0 s" "heap_ok env R h0"
  shows "length (e_seen s) < 2 ^ 32"
proof -
  have R: "finite R" "card R < 2 ^ 32" using assms(2) by (simp_all add: heap_ok_def)
  have "length (e_seen s) = card (set (e_seen s))"
    using assms by (simp add: enc_inv_def distinct_card)
  also have "\<dots> \<le> card R"
    using assms R(1) by (intro card_mono) (auto simp: enc_inv_def)
  also have "\<dots> < 2 ^ 32" by (rule R(2))
  finally show ?thesis .
qed

lemma enc_inv_push [simp]:
  "enc_inv R h0 s \<Longrightarrow> length bs \<le> k \<Longrightarrow> enc_inv R h0 (epush k bs s)"
  by (auto simp: enc_inv_def buf_push_ok)

text \<open>How many rounds an object takes, and all objects that have no number yet.\<close>

fun osize :: "lua_heap \<Rightarrow> lua_value \<Rightarrow> nat" where
  "osize h (LTable t) = length (t_entries (h_table h t)) + 3"
| "osize h (LFun f) = length (f_upvals (h_fun h f)) + 3"
| "osize h _ = 0"

definition enc_cost :: "lua_value set \<Rightarrow> lua_heap \<Rightarrow> lua_value list \<Rightarrow> nat" where
  "enc_cost R h sn = (\<Sum>v\<in>R - set sn. osize h v)"

lemma enc_cost_mono: "finite R \<Longrightarrow> enc_cost R h (sn @ nw) \<le> enc_cost R h sn"
  unfolding enc_cost_def by (intro sum_mono2) auto

lemma enc_cost_snoc:
  assumes "finite R" "v \<in> R" "v \<notin> set sn"
  shows "enc_cost R h sn = osize h v + enc_cost R h (sn @ [v])"
proof -
  have "R - set (sn @ [v]) = (R - set sn) - {v}" by auto
  with assms show ?thesis
    by (simp add: enc_cost_def sum.remove [of "R - set sn" v])
qed

lemma enc_cost_le:
  assumes "heap_ok env R h" "heap_le {} h h'"
  shows "enc_cost R h' sn = enc_cost R h sn"
  unfolding enc_cost_def
proof (rule sum.cong)
  fix v assume v: "v \<in> R - set sn"
  show "osize h' v = osize h v"
    using v assms by (cases v) (auto simp: heap_ok_def heap_le_def)
qed simp

section \<open>The simulation\<close>

definition decodes ::
    "lua_env \<Rightarrow> lua_heap \<Rightarrow> nat \<Rightarrow> lua_value \<Rightarrow> lua_value list \<Rightarrow> lua_value list \<Rightarrow> bytes \<Rightarrow> bool" where
  "decodes env h0 n v sn sn' bs \<longleftrightarrow>
     (\<forall>d rest. reads (d_buf d) (bs @ rest) \<longrightarrow> seen_match (d_heap d) sn (d_seen d) \<longrightarrow>
        (\<exists>d'. decode_value env n d = Done (transl sn' (d_seen d') v) d' \<and>
              d_buf d' = adv (length bs) (d_buf d) \<and> dstep {} h0 sn sn' d d'))"

definition value_sim ::
    "lua_env \<Rightarrow> lua_value set \<Rightarrow> lua_heap \<Rightarrow> nat \<Rightarrow> lua_value \<Rightarrow> encoder \<Rightarrow> encoder \<Rightarrow> bool" where
  "value_sim env R h0 n v s s' \<longleftrightarrow>
     enc_inv R h0 s' \<and> heap_le {} (e_heap s) (e_heap s') \<and> covered (e_seen s') v \<and> (\<exists>nw. e_seen s' = e_seen s @ nw) \<and>
     (\<exists>bs. contents (e_buf s') = contents (e_buf s) @ lua_type v # bs \<and>
           decodes env h0 n v (e_seen s) (e_seen s') (lua_type v # bs))"

text \<open>The decoder fills table \<open>t'\<close>, which already holds the entries \<open>pre\<close>, with \<open>es\<close>.\<close>

definition fills ::
    "lua_env \<Rightarrow> lua_heap \<Rightarrow> nat \<Rightarrow> entries \<Rightarrow> entries \<Rightarrow> lua_value list \<Rightarrow> lua_value list \<Rightarrow> bytes \<Rightarrow> bool" where
  "fills env h0 n pre es sn sn' bs \<longleftrightarrow>
     (\<forall>d rest t'. reads (d_buf d) (bs @ rest) \<longrightarrow> seen_match (d_heap d) sn (d_seen d) \<longrightarrow>
        t' < h_tnext (d_heap d) \<longrightarrow>
        h_table (d_heap d) t' = \<lparr>t_entries = map (transl2 sn (d_seen d)) pre, t_codec = LNil\<rparr> \<longrightarrow>
        (\<exists>d'. decode_table env n t' d = Done () d' \<and> d_buf d' = adv (length bs) (d_buf d) \<and>
              dstep {t'} h0 sn sn' d d' \<and>
              h_table (d_heap d') t' = \<lparr>t_entries = map (transl2 sn' (d_seen d')) (pre @ es), t_codec = LNil\<rparr>))"

definition entry_covered :: "lua_value list \<Rightarrow> lua_value \<times> lua_value \<Rightarrow> bool" where
  "entry_covered sn e \<longleftrightarrow> covered sn (fst e) \<and> covered sn (snd e)"

definition table_sim ::
    "lua_env \<Rightarrow> lua_value set \<Rightarrow> lua_heap \<Rightarrow> nat \<Rightarrow> entries \<Rightarrow> entries \<Rightarrow> encoder \<Rightarrow> encoder \<Rightarrow> bool" where
  "table_sim env R h0 n pre es s s' \<longleftrightarrow>
     enc_inv R h0 s' \<and> heap_le {} (e_heap s) (e_heap s') \<and> (\<forall>e\<in>set es. entry_covered (e_seen s') e) \<and>
     (\<exists>nw. e_seen s' = e_seen s @ nw) \<and>
     (\<exists>bs. contents (e_buf s') = contents (e_buf s) @ bs \<and>
           fills env h0 n pre es (e_seen s) (e_seen s') bs)"

text \<open>A run ends with the simulation, unless the fuel is below the bound.\<close>

definition enc_value_ok :: "lua_env \<Rightarrow> lua_value set \<Rightarrow> lua_heap \<Rightarrow> nat \<Rightarrow> bool" where
  "enc_value_ok env R h0 n \<longleftrightarrow>
     (\<forall>v s. value_ok R v \<longrightarrow> enc_inv R h0 s \<longrightarrow>
        (encode_value env n v s = Fail No_Return \<and> n \<le> enc_cost R h0 (e_seen s)) \<or>
        (\<exists>s'. encode_value env n v s = Done () s' \<and> value_sim env R h0 n v s s'))"

definition enc_table_ok :: "lua_env \<Rightarrow> lua_value set \<Rightarrow> lua_heap \<Rightarrow> nat \<Rightarrow> bool" where
  "enc_table_ok env R h0 n \<longleftrightarrow>
     (\<forall>t k pre es s. enc_inv R h0 s \<longrightarrow> t < h_tnext (e_heap s) \<longrightarrow>
        t_entries (h_table (e_heap s) t) = pre @ es \<longrightarrow> entries_ok (pre @ es) \<longrightarrow>
        k = (if pre = [] then LNil else fst (last pre)) \<longrightarrow>
        (\<forall>e\<in>set pre. entry_covered (e_seen s) e) \<longrightarrow> (\<forall>e\<in>set es. entry_ok R e) \<longrightarrow>
        (encode_table env n t k s = Fail No_Return \<and> n < enc_cost R h0 (e_seen s) + length es + 2) \<or>
        (\<exists>s'. encode_table env n t k s = Done () s' \<and> table_sim env R h0 n pre es s s'))"

subsection \<open>Scalars and references\<close>

lemma decodes_scalar:
  assumes "\<not> is_obj v"
    and "\<And>d rest. reads (d_buf d) (bs @ rest) \<Longrightarrow> decode_value env n d = Done v (dadv (length bs) d)"
  shows "decodes env h0 n v sn sn bs"
  unfolding decodes_def
proof (intro allI impI)
  fix d :: decoder and rest
  assume rd: "reads (d_buf d) (bs @ rest)" and m: "seen_match (d_heap d) sn (d_seen d)"
  from m assms(1) have "transl sn (d_seen d) v = v" by (rule transl_scalar)
  moreover have "dstep {} h0 sn sn d (dadv (length bs) d)"
    using dstep_refl [OF m] by (simp add: dadv_def)
  ultimately show "\<exists>d'. decode_value env n d = Done (transl sn (d_seen d') v) d' \<and>
      d_buf d' = adv (length bs) (d_buf d) \<and> dstep {} h0 sn sn d d'"
    using assms(2) [OF rd] by (intro exI [of _ "dadv (length bs) d"]) simp
qed

lemma value_sim_scalar:
  assumes inv: "enc_inv R h0 s" "enc_inv R h0 s'" and v: "\<not> is_obj v"
    and s': "e_heap s' = e_heap s" "e_seen s' = e_seen s"
      "contents (e_buf s') = contents (e_buf s) @ lua_type v # bs"
    and dec: "\<And>d rest. reads (d_buf d) ((lua_type v # bs) @ rest) \<Longrightarrow>
        decode_value env n d = Done v (dadv (length (lua_type v # bs)) d)"
  shows "value_sim env R h0 n v s s'"
  using inv s' v decodes_scalar [OF v dec] by (auto simp: value_sim_def covered_def)

lemma encode_scalar:
  assumes inv: "enc_inv R h0 s" and ok: "value_ok R v" and v: "\<not> is_obj v"
  shows "\<exists>s'. encode_value env (Suc n) v s = Done () s' \<and> value_sim env R h0 (Suc n) v s s'"
proof -
  have b: "buf_ok (e_buf s)" using inv by (simp add: enc_inv_def)
  let ?s = "epush 1 [lua_type v] s"
  have s1: "enc_inv R h0 ?s" "buf_ok (e_buf ?s)" using inv b by simp_all
  note emits = emit_push [OF b] emit_push [OF s1(2)]
  show ?thesis
  proof (cases v)
    case LNil
    have "value_sim env R h0 (Suc n) v s ?s"
      by (rule value_sim_scalar [where bs = "[]"])
        (use inv s1 b v LNil decode_scalar(1) in \<open>auto\<close>)
    with LNil emits show ?thesis by simp
  next
    case (LBool x)
    let ?t = "epush 1 [if x then 1 else 0] ?s"
    have "value_sim env R h0 (Suc n) v s ?t"
      by (rule value_sim_scalar [where bs = "[if x then 1 else 0]"])
        (use inv s1 b v LBool decode_scalar(2) [of _ _ _ x] in \<open>auto simp: numeral_2_eq_2\<close>)
    with LBool emits show ?thesis by simp
  next
    case (LLight w)
    let ?t = "epush 8 (word64_bytes w) ?s"
    have "value_sim env R h0 (Suc n) v s ?t"
      by (rule value_sim_scalar [where bs = "word64_bytes w"])
        (use inv s1 b v LLight decode_scalar(4) [of _ _ _ w] in \<open>auto simp: buf_push_ok\<close>)
    with LLight emits show ?thesis by simp
  next
    case (LNum w)
    let ?t = "epush 8 (word64_bytes w) ?s"
    have "value_sim env R h0 (Suc n) v s ?t"
      by (rule value_sim_scalar [where bs = "word64_bytes w"])
        (use inv s1 b v LNum decode_scalar(3) [of _ _ _ w] in \<open>auto simp: buf_push_ok\<close>)
    with LNum emits show ?thesis by simp
  next
    case (LStr xs)
    let ?u = "epush 5 (uleb128 (word_of_nat (length xs))) ?s"
    let ?t = "epush (length xs) xs ?u"
    have u: "enc_inv R h0 ?u" "buf_ok (e_buf ?u)" using s1 uleb128_length by simp_all
    have "value_sim env R h0 (Suc n) v s ?t"
      by (rule value_sim_scalar [where bs = "uleb128 (word_of_nat (length xs)) @ xs"])
        (use inv u s1 b v LStr ok decode_string [of _ _ _ xs] in \<open>auto\<close>)
    with LStr emits emit_push [OF u(2)] show ?thesis by simp
  qed (use ok v in auto)
qed

lemma encode_ref:
  assumes inv: "enc_inv R h0 s" and hok: "heap_ok env R h0" and v: "is_obj v" "seen_ref (e_seen s) v = Some r"
  shows "\<exists>s'. encode_value env (Suc n) v s = Done () s' \<and> value_sim env R h0 (Suc n) v s s'"
proof -
  let ?w = "word_of_nat r :: u32"
  let ?s1 = "epush 1 [lua_type v] s"
  let ?s2 = "epush 1 [LUV_CODEC_TREF] ?s1"
  let ?s3 = "epush 5 (uleb128 ?w) ?s2"
  have b: "buf_ok (e_buf s)" "buf_ok (e_buf ?s1)" "buf_ok (e_buf ?s2)" and inv3: "enc_inv R h0 ?s3"
    using inv uleb128_length by (auto simp: enc_inv_def)
  from v(1) have ty: "lua_type v = LUA_TTABLE \<or> lua_type v = LUA_TFUNCTION" by (cases v) auto
  from seen_ref_Some [OF v(2)] have r: "0 < r" "r \<le> length (e_seen s)" "e_seen s ! (r - 1) = v" by auto
  with enc_inv_seen_bound [OF inv hok] have w: "unat ?w = r" by (intro unat_of_nat_u32) simp
  have "decodes env h0 (Suc n) v (e_seen s) (e_seen s) (lua_type v # LUV_CODEC_TREF # uleb128 ?w)" (is "decodes _ _ _ _ ?sn _ ?bs")
    unfolding decodes_def
  proof (intro allI impI)
    fix d :: decoder and rest
    assume rd: "reads (d_buf d) (?bs @ rest)" and m: "seen_match (d_heap d) ?sn (d_seen d)"
    have "seen_get ?w d = transl ?sn (d_seen d) v"
      using w r v(2) seen_match_length [OF m] by (simp add: seen_get_def transl_def Let_def)
    then have "decode_value env (Suc n) d = Done (transl ?sn (d_seen d) v) (dadv (length ?bs) d)"
      using decode_ref [OF rd ty refl] by simp
    then show "\<exists>d'. decode_value env (Suc n) d = Done (transl ?sn (d_seen d') v) d' \<and>
        d_buf d' = adv (length ?bs) (d_buf d) \<and> dstep {} h0 ?sn ?sn d d'"
      using dstep_refl [OF m] by (intro exI [of _ "dadv (length ?bs) d"]) (simp add: dadv_def)
  qed
  moreover have "v \<in> set (e_seen s)" using v(2) seen_ref_None [of "e_seen s" v] by auto
  ultimately have "value_sim env R h0 (Suc n) v s ?s3"
    using inv3 b by (auto simp: value_sim_def covered_def)
  moreover have "encode_value env (Suc n) v s = Done () ?s3"
  proof (cases v)
    case (LTable t)
    with v(2) b(1) show ?thesis by (simp add: emit_ref_def emit_push)
  next
    case (LFun f)
    with v(2) b(1) show ?thesis by (simp add: emit_ref_def emit_push)
  qed (use v(1) in auto)
  ultimately show ?thesis by blast
qed

subsection \<open>Tables\<close>

lemma dstep_ext:
  assumes m: "seen_match (d_heap d) sn (d_seen d)" and st: "dstep X h0 sn sn' d d'"
  shows "covered sn v \<Longrightarrow> transl sn' (d_seen d') v = transl sn (d_seen d) v"
    and "\<forall>e\<in>set es. entry_covered sn e \<Longrightarrow>
      map (transl2 sn' (d_seen d')) es = map (transl2 sn (d_seen d)) es"
proof -
  from st obtain nw nd where nw: "sn' = sn @ nw" "d_seen d' = d_seen d @ nd" by (auto simp: dstep_def)
  have objs: "\<forall>x\<in>set nw. is_obj x" using seen_match_objs [OF dstep_match [OF st]] nw(1) by simp
  note len = seen_match_length [OF m]
  show "covered sn v \<Longrightarrow> transl sn' (d_seen d') v = transl sn (d_seen d) v"
    using transl_ext [OF _ len objs] nw by simp
  show "\<forall>e\<in>set es. entry_covered sn e \<Longrightarrow>
      map (transl2 sn' (d_seen d')) es = map (transl2 sn (d_seen d)) es"
    using transl2_ext [OF _ _ len objs] nw by (auto simp: entry_covered_def)
qed

lemma dstep_table:
  assumes st: "dstep {} h0 sn sn' d d'" and t: "t < h_tnext (d_heap d)"
  shows "h_table (d_heap d') t = h_table (d_heap d) t" "t < h_tnext (d_heap d')"
  using assms by (auto simp: dstep_def heap_le_def)

lemma fills_Nil:
  assumes dec: "decodes env h0 n LNil sn sn' (LUA_TNIL # bs)" and pre: "\<forall>e\<in>set pre. entry_covered sn e"
  shows "fills env h0 (Suc n) pre [] sn sn' (LUA_TNIL # bs)"
  unfolding fills_def
proof (intro allI impI)
  fix d :: decoder and rest t'
  assume rd: "reads (d_buf d) ((LUA_TNIL # bs) @ rest)" and m: "seen_match (d_heap d) sn (d_seen d)"
    and t': "t' < h_tnext (d_heap d)"
      "h_table (d_heap d) t' = \<lparr>t_entries = map (transl2 sn (d_seen d)) pre, t_codec = LNil\<rparr>"
  from dec rd m obtain d' where d': "decode_value env n d = Done (transl sn' (d_seen d') LNil) d'"
    "d_buf d' = adv (length (LUA_TNIL # bs)) (d_buf d)" "dstep {} h0 sn sn' d d'"
    unfolding decodes_def by meson
  have "transl sn' (d_seen d') LNil = LNil"
    using transl_not_nil [OF dstep_match [OF d'(3)]] by simp
  with d'(1) have "decode_table env (Suc n) t' d = Done () d'"
    using rd fetch_peek [of d LUA_TNIL] by (simp add: c_assert_def)
  moreover have "h_table (d_heap d') t' = \<lparr>t_entries = map (transl2 sn' (d_seen d')) (pre @ []), t_codec = LNil\<rparr>"
    using dstep_ext(2) [OF m d'(3) pre] dstep_table(1) [OF d'(3) t'(1)] t'(2) by simp
  ultimately show "\<exists>d'. decode_table env (Suc n) t' d = Done () d' \<and>
      d_buf d' = adv (length (LUA_TNIL # bs)) (d_buf d) \<and> dstep {t'} h0 sn sn' d d' \<and>
      h_table (d_heap d') t' = \<lparr>t_entries = map (transl2 sn' (d_seen d')) (pre @ []), t_codec = LNil\<rparr>"
    using d'(2) dstep_mono [OF d'(3), of "{t'}"] by blast
qed

text \<open>One round of the decoder's loop stores the translated entry at the end of the table.\<close>

definition put_entry :: "nat \<Rightarrow> lua_value \<times> lua_value \<Rightarrow> decoder \<Rightarrow> decoder" where
  "put_entry t e d =
     d\<lparr>d_heap := (d_heap d)\<lparr>h_table := (h_table (d_heap d))
         (t := (h_table (d_heap d) t)\<lparr>t_entries := t_entries (h_table (d_heap d) t) @ [e]\<rparr>)\<rparr>\<rparr>"

lemma put_entry_sel [simp]:
  "d_buf (put_entry t e d) = d_buf d" "d_seen (put_entry t e d) = d_seen d"
  "h_tnext (d_heap (put_entry t e d)) = h_tnext (d_heap d)"
  "h_table (d_heap (put_entry t e d)) t =
     (h_table (d_heap d) t)\<lparr>t_entries := t_entries (h_table (d_heap d) t) @ [e]\<rparr>"
  by (simp_all add: put_entry_def)

lemma dstep_put_entry:
  assumes "seen_match (d_heap d) sn (d_seen d)"
  shows "dstep {t} h0 sn sn d (put_entry t e d)"
proof -
  have "heap_le {t} (d_heap d) (d_heap (put_entry t e d))"
    by (auto simp: heap_le_def put_entry_def)
  with assms show ?thesis
    using seen_match_le by (fastforce simp: dstep_def)
qed

lemma settable_translated:
  assumes m: "seen_match (d_heap d) sn (d_seen d)"
    and t: "t_entries (h_table (d_heap d) t) = map (transl2 sn (d_seen d)) pre"
    and ok: "entries_ok (pre @ [(k, v)])" and c: "\<forall>e\<in>set (pre @ [(k, v)]). entry_covered sn e"
  shows "dec_settable t (transl sn (d_seen d) k) (transl sn (d_seen d) v) d =
    Done () (put_entry t (transl2 sn (d_seen d) (k, v)) d)"
proof -
  let ?k = "transl sn (d_seen d) k" and ?v = "transl sn (d_seen d) v"
  have "key_ok k" and v: "v \<noteq> LNil" using ok by (auto simp: entries_ok_append)
  then have k: "key_ok ?k" "?k \<noteq> LNil" using transl_key_ok [OF m] by force+
  have "\<not> raw_eq (fst e) ?k" if e: "e \<in> set (map (transl2 sn (d_seen d)) pre)" for e
  proof -
    from e obtain e0 where e0: "e0 \<in> set pre" "e = transl2 sn (d_seen d) e0" by auto
    then have "covered sn (fst e0)" "covered sn k" using c by (auto simp: entry_covered_def)
    then show ?thesis
      using transl_raw_eq [OF m] ok e0 by (auto simp: entries_ok_append raw_eq_sym)
  qed
  with v have "raw_put ?k ?v (t_entries (h_table (d_heap d) t)) =
      t_entries (h_table (d_heap d) t) @ [(?k, ?v)]"
    using transl_not_nil [OF m] t by (intro raw_put_append) auto
  with k show ?thesis by (simp add: dec_settable_def put_entry_def Let_def)
qed

lemma decodesD:
  assumes "decodes env h0 n v sn sn' bs" "reads (d_buf d) (bs @ rest)" "seen_match (d_heap d) sn (d_seen d)"
  obtains d' where "decode_value env n d = Done (transl sn' (d_seen d') v) d'"
    "d_buf d' = adv (length bs) (d_buf d)" "dstep {} h0 sn sn' d d'" "reads (d_buf d') rest"
proof -
  from assms obtain d' where d': "decode_value env n d = Done (transl sn' (d_seen d') v) d'"
    "d_buf d' = adv (length bs) (d_buf d)" "dstep {} h0 sn sn' d d'"
    unfolding decodes_def by meson
  moreover have "reads (d_buf d') rest" using assms(2) d'(2) by (simp add: reads_append)
  ultimately show ?thesis by (rule that)
qed

lemma fillsD:
  assumes "fills env h0 n pre es sn sn' bs" "reads (d_buf d) (bs @ rest)"
    "seen_match (d_heap d) sn (d_seen d)" "t' < h_tnext (d_heap d)"
    "h_table (d_heap d) t' = \<lparr>t_entries = map (transl2 sn (d_seen d)) pre, t_codec = LNil\<rparr>"
  obtains d' where "decode_table env n t' d = Done () d'" "d_buf d' = adv (length bs) (d_buf d)"
    "dstep {t'} h0 sn sn' d d'"
    "h_table (d_heap d') t' = \<lparr>t_entries = map (transl2 sn' (d_seen d')) (pre @ es), t_codec = LNil\<rparr>"
  using assms unfolding fills_def by meson

lemma fills_Cons:
  assumes dk: "decodes env h0 n k sn sn1 (lua_type k # b1)" and dv: "decodes env h0 n v sn1 sn2 b2"
    and fl: "fills env h0 n (pre @ [(k, v)]) es sn2 sn3 b3"
    and ok: "entries_ok (pre @ (k, v) # es)" and pre: "\<forall>e\<in>set pre. entry_covered sn e"
    and ck: "covered sn1 k" and cv: "covered sn2 v" and sn: "sn1 = sn @ nw1" "sn2 = sn1 @ nw2"
  shows "fills env h0 (Suc n) pre ((k, v) # es) sn sn3 (lua_type k # b1 @ b2 @ b3)"
  unfolding fills_def
proof (intro allI impI)
  fix d :: decoder and rest t'
  assume rd: "reads (d_buf d) ((lua_type k # b1 @ b2 @ b3) @ rest)" and m: "seen_match (d_heap d) sn (d_seen d)"
    and t': "t' < h_tnext (d_heap d)"
      "h_table (d_heap d) t' = \<lparr>t_entries = map (transl2 sn (d_seen d)) pre, t_codec = LNil\<rparr>"
  have ok1: "entries_ok (pre @ [(k, v)])" and "key_ok k" using ok by (auto simp: entries_ok_append)
  then have kt: "lua_type k \<noteq> LUA_TNIL" by (cases k) (auto simp: lua_tag_defs)
  obtain d1 where d1: "decode_value env n d = Done (transl sn1 (d_seen d1) k) d1"
    "d_buf d1 = adv (length (lua_type k # b1)) (d_buf d)" "dstep {} h0 sn sn1 d d1" "reads (d_buf d1) (b2 @ b3 @ rest)"
    using decodesD [OF dk _ m, of "b2 @ b3 @ rest"] rd by auto
  note m1 = dstep_match [OF d1(3)]
  obtain d2 where d2: "decode_value env n d1 = Done (transl sn2 (d_seen d2) v) d2"
    "d_buf d2 = adv (length b2) (d_buf d1)" "dstep {} h0 sn1 sn2 d1 d2" "reads (d_buf d2) (b3 @ rest)"
    using decodesD [OF dv d1(4) m1] by blast
  note m2 = dstep_match [OF d2(3)]
  have st2: "dstep {} h0 sn sn2 d d2" using dstep_trans [OF d1(3) d2(3)] by simp
  have tab2: "h_table (d_heap d2) t' = \<lparr>t_entries = map (transl2 sn2 (d_seen d2)) pre, t_codec = LNil\<rparr>"
    "t' < h_tnext (d_heap d2)"
    using dstep_ext(2) [OF m st2 pre] dstep_table [OF st2 t'(1)] t'(2) by simp_all
  have tk: "transl sn1 (d_seen d1) k = transl sn2 (d_seen d2) k"
    using dstep_ext(1) [OF m1 d2(3) ck] by simp
  have cov2: "\<forall>e\<in>set (pre @ [(k, v)]). entry_covered sn2 e"
    using pre ck cv by (auto simp: entry_covered_def covered_def sn)
  let ?d3 = "put_entry t' (transl2 sn2 (d_seen d2) (k, v)) d2"
  have put: "dec_settable t' (transl sn1 (d_seen d1) k) (transl sn2 (d_seen d2) v) d2 = Done () ?d3"
    using settable_translated [OF m2 _ ok1 cov2] tab2(1) tk by simp
  have st3: "dstep {t'} h0 sn sn2 d ?d3"
    using dstep_trans [OF st2 dstep_put_entry [OF m2]] t'(1) by simp
  obtain d4 where d4: "decode_table env n t' ?d3 = Done () d4" "d_buf d4 = adv (length b3) (d_buf d2)"
    "dstep {t'} h0 sn2 sn3 ?d3 d4"
    "h_table (d_heap d4) t' = \<lparr>t_entries = map (transl2 sn3 (d_seen d4)) ((pre @ [(k, v)]) @ es), t_codec = LNil\<rparr>"
    using fillsD [OF fl, of ?d3 rest t'] d2(4) dstep_match [OF st3] tab2 by auto
  have "dstep {t'} h0 sn sn3 d d4" using dstep_trans [OF st3 d4(3)] t'(1) by simp
  moreover have "decode_table env (Suc n) t' d = Done () d4"
    using rd fetch_peek [of d "lua_type k"] kt d1(1) d2(1) put d4(1) by simp
  moreover have "d_buf d4 = adv (length (lua_type k # b1 @ b2 @ b3)) (d_buf d)"
    using d4(2) d2(2) d1(2) by (simp add: add.assoc)
  ultimately show "\<exists>d'. decode_table env (Suc n) t' d = Done () d' \<and>
      d_buf d' = adv (length (lua_type k # b1 @ b2 @ b3)) (d_buf d) \<and> dstep {t'} h0 sn sn3 d d' \<and>
      h_table (d_heap d') t' =
        \<lparr>t_entries = map (transl2 sn3 (d_seen d')) (pre @ (k, v) # es), t_codec = LNil\<rparr>"
    using d4(4) by auto
qed

lemma enc_valueD:
  assumes "enc_value_ok env R h0 n" "value_ok R v" "enc_inv R h0 s"
  obtains "encode_value env n v s = Fail No_Return" "n \<le> enc_cost R h0 (e_seen s)"
  | s' where "encode_value env n v s = Done () s'" "value_sim env R h0 n v s s'"
  using assms unfolding enc_value_ok_def by blast

lemma enc_tableD:
  assumes "enc_table_ok env R h0 n" "enc_inv R h0 s" "t < h_tnext (e_heap s)"
    "t_entries (h_table (e_heap s) t) = pre @ es" "entries_ok (pre @ es)"
    "\<forall>e\<in>set pre. entry_covered (e_seen s) e" "\<forall>e\<in>set es. entry_ok R e"
  obtains "encode_table env n t (if pre = [] then LNil else fst (last pre)) s = Fail No_Return"
      "n < enc_cost R h0 (e_seen s) + length es + 2"
  | s' where "encode_table env n t (if pre = [] then LNil else fst (last pre)) s = Done () s'"
      "table_sim env R h0 n pre es s s'"
  using assms unfolding enc_table_ok_def by blast

lemma lua_next_split:
  assumes "entries_ok (pre @ es)"
  shows "lua_next (pre @ es) (if pre = [] then LNil else fst (last pre)) =
    (case es of [] \<Rightarrow> None | e # _ \<Rightarrow> Some e)"
proof (cases pre rule: rev_cases)
  case Nil
  then show ?thesis by (cases es) (auto simp: lua_next_none lua_next_first)
next
  case (snoc ys e)
  with assms lua_next_after [of ys "fst e" "snd e" es] show ?thesis by simp
qed

lemma value_sim_seen: "value_sim env R h0 n v s s' \<Longrightarrow> \<exists>nw. e_seen s' = e_seen s @ nw"
  and value_sim_inv: "value_sim env R h0 n v s s' \<Longrightarrow> enc_inv R h0 s'"
  by (simp_all add: value_sim_def)

lemma value_sim_cost: "value_sim env R h0 n v s s' \<Longrightarrow> enc_cost R h0 (e_seen s') \<le> enc_cost R h0 (e_seen s)"
  using enc_cost_mono by (auto simp: value_sim_def enc_inv_def)

lemma table_sim_Nil:
  assumes "value_sim env R h0 n LNil s s'" "\<forall>e\<in>set pre. entry_covered (e_seen s) e"
  shows "table_sim env R h0 (Suc n) pre [] s s'"
  using assms fills_Nil by (fastforce simp: table_sim_def value_sim_def)

lemma entry_covered_ext: "entry_covered sn e \<Longrightarrow> entry_covered (sn @ nw) e"
  by (simp add: entry_covered_def covered_ext)

lemma table_sim_Cons:
  assumes k: "value_sim env R h0 n k s s1" and v: "value_sim env R h0 n v s1 s2"
    and t: "table_sim env R h0 n (pre @ [(k, v)]) es s2 s3"
    and ok: "entries_ok (pre @ (k, v) # es)" and pre: "\<forall>e\<in>set pre. entry_covered (e_seen s) e"
  shows "table_sim env R h0 (Suc n) pre ((k, v) # es) s s3"
proof -
  from k obtain nw1 b1 where 1: "e_seen s1 = e_seen s @ nw1" "covered (e_seen s1) k"
    "contents (e_buf s1) = contents (e_buf s) @ lua_type k # b1" "heap_le {} (e_heap s) (e_heap s1)"
    "decodes env h0 n k (e_seen s) (e_seen s1) (lua_type k # b1)"
    by (auto simp: value_sim_def)
  from v obtain nw2 b2 where 2: "e_seen s2 = e_seen s1 @ nw2" "covered (e_seen s2) v"
    "contents (e_buf s2) = contents (e_buf s1) @ b2" "heap_le {} (e_heap s1) (e_heap s2)"
    "decodes env h0 n v (e_seen s1) (e_seen s2) b2"
    by (auto simp: value_sim_def)
  from t obtain nw3 b3 where 3: "e_seen s3 = e_seen s2 @ nw3" "\<forall>e\<in>set es. entry_covered (e_seen s3) e"
    "contents (e_buf s3) = contents (e_buf s2) @ b3" "heap_le {} (e_heap s2) (e_heap s3)" "enc_inv R h0 s3"
    "fills env h0 n (pre @ [(k, v)]) es (e_seen s2) (e_seen s3) b3"
    by (auto simp: table_sim_def)
  have "fills env h0 (Suc n) pre ((k, v) # es) (e_seen s) (e_seen s3) (lua_type k # b1 @ b2 @ b3)"
    using fills_Cons [OF 1(5) 2(5) 3(6) ok pre 1(2) 2(2) 1(1) 2(1)] .
  moreover have "heap_le {} (e_heap s) (e_heap s3)"
    using heap_le_trans [OF heap_le_trans [OF 1(4) 2(4)] 3(4)] by simp
  moreover have "entry_covered (e_seen s3) (k, v)"
    using 1(1,2) 2(1,2) 3(1) by (auto simp: entry_covered_def covered_def)
  ultimately show ?thesis
    using 1(1,3) 2(1,3) 3 by (auto simp: table_sim_def)
qed

lemma enc_table_step:
  assumes IV: "enc_value_ok env R h0 n" and IT: "enc_table_ok env R h0 n"
  shows "enc_table_ok env R h0 (Suc n)"
  unfolding enc_table_ok_def
proof (intro allI impI)
  fix t k pre es and s :: encoder
  assume inv: "enc_inv R h0 s" and t: "t < h_tnext (e_heap s)" "t_entries (h_table (e_heap s) t) = pre @ es"
    and ok: "entries_ok (pre @ es)" and k: "k = (if pre = [] then LNil else fst (last pre))"
    and pre: "\<forall>e\<in>set pre. entry_covered (e_seen s) e" and es: "\<forall>e\<in>set es. entry_ok R e"
  let ?goal = "\<lambda>es. (encode_table env (Suc n) t k s = Fail No_Return \<and> Suc n < enc_cost R h0 (e_seen s) + length es + 2) \<or>
        (\<exists>s'. encode_table env (Suc n) t k s = Done () s' \<and> table_sim env R h0 (Suc n) pre es s s')"
  note nx = lua_next_split [OF ok, folded k]
  show "?goal es"
  proof (cases es)
    case Nil
    have enc: "encode_table env (Suc n) t k s = encode_value env n LNil s" using nx t(2) Nil by simp
    have "value_ok R LNil" by simp
    from IV this inv show ?thesis
      by (rule enc_valueD) (use enc Nil table_sim_Nil [OF _ pre] in auto)
  next
    case (Cons e es')
    obtain key val where e: "e = (key, val)" by fastforce
    have enc: "encode_table env (Suc n) t k s =
        bindR (encode_value env n key s) (\<lambda>_ s. bindR (encode_value env n val s) (\<lambda>_ s. encode_table env n t key s))"
      using nx t(2) Cons e by simp
    have vok: "value_ok R key" "value_ok R val" using es Cons e by (auto simp: entry_ok_def)
    from IV vok(1) inv show ?thesis
    proof (rule enc_valueD)
      fix s1 assume s1: "encode_value env n key s = Done () s1" "value_sim env R h0 n key s s1"
      from IV vok(2) value_sim_inv [OF s1(2)] show ?thesis
      proof (rule enc_valueD)
        fix s2 assume s2: "encode_value env n val s1 = Done () s2" "value_sim env R h0 n val s1 s2"
        have le: "heap_le {} (e_heap s) (e_heap s2)" "enc_inv R h0 s2"
          using heap_le_trans [of "{}" "e_heap s" "e_heap s1" "{}" "e_heap s2"] s1(2) s2(2)
          by (auto simp: value_sim_def)
        have cost: "enc_cost R h0 (e_seen s2) \<le> enc_cost R h0 (e_seen s)"
          using value_sim_cost [OF s1(2)] value_sim_cost [OF s2(2)] by simp
        have cov: "\<forall>e\<in>set (pre @ [(key, val)]). entry_covered (e_seen s2) e"
          using pre s1(2) s2(2) by (auto simp: value_sim_def entry_covered_def covered_def)
        have T: "t < h_tnext (e_heap s2)" "t_entries (h_table (e_heap s2) t) = (pre @ [(key, val)]) @ es'"
          using t le(1) Cons e by (auto simp: heap_le_def)
        have ok2: "entries_ok ((pre @ [(key, val)]) @ es')" using ok Cons e by simp
        from IT le(2) T ok2 cov show ?thesis
        proof (rule enc_tableD)
          show "\<forall>e\<in>set es'. entry_ok R e" using es Cons by simp
        qed (use enc s1 s2 Cons e cost table_sim_Cons [OF s1(2) s2(2)] ok pre in auto)
      qed (use enc s1 Cons e value_sim_cost [OF s1(2)] in auto)
    qed (use enc Cons in auto)
  qed
qed

subsection \<open>New objects\<close>

lemma seen_match_new:
  assumes m: "seen_match h sn ds" and le: "heap_le X h h1"
    and w: "same_kind h1 v w" "fresh h w" and v: "v \<notin> set sn"
  shows "seen_match h1 (sn @ [v]) (ds @ [w])"
proof -
  have "\<not> fresh h b" if "b \<in> set ds" for b
  proof -
    from that m obtain a where "same_kind h a b"
      by (auto simp: seen_match_def in_set_conv_nth list_all2_conv_all_nth)
    then show ?thesis by (cases a; cases b) auto
  qed
  with w have "w \<notin> set ds" by blast
  with seen_match_le [OF m le] w v show ?thesis
    by (auto simp: seen_match_def intro: list_all2_appendI)
qed

lemma seen_match_cong:
  "h_tnext h' = h_tnext h \<Longrightarrow> h_fnext h' = h_fnext h \<Longrightarrow> seen_match h' sn ds = seen_match h sn ds"
proof -
  assume "h_tnext h' = h_tnext h" "h_fnext h' = h_fnext h"
  then have "same_kind h' a b = same_kind h a b" for a b by (cases a; cases b) auto
  then have "same_kind h' = same_kind h" by (intro ext)
  then show ?thesis by (simp add: seen_match_def)
qed

text \<open>
  The decoder makes the object \<open>w\<close> for \<open>v\<close> (state \<open>d1\<close>), decodes its contents (\<open>d2\<close>) and stores
  them in it (\<open>d3\<close>).
\<close>

lemma dstep_new:
  assumes le: "heap_le {} (d_heap d) (d_heap d1)"
    and w: "fresh (d_heap d) w" "d_seen d1 = d_seen d @ [w]"
    and st: "dstep X h0 (sn @ [v]) sn' d1 d2" and X: "\<forall>x\<in>X. h_tnext (d_heap d) \<le> x"
    and d3: "d_seen d3 = d_seen d2" "h_tnext (d_heap d3) = h_tnext (d_heap d2)"
      "h_fnext (d_heap d3) = h_fnext (d_heap d2)" "h_table (d_heap d3) = h_table (d_heap d2)"
      "\<forall>f. LFun f \<noteq> w \<longrightarrow> h_fun (d_heap d3) f = h_fun (d_heap d2) f"
    and c: "content h0 sn' (d_seen d3) (d_heap d3) v w"
  shows "dstep {} h0 sn sn' d d3"
proof -
  from st obtain nw nd where nw: "sn' = (sn @ [v]) @ nw" "d_seen d2 = d_seen d1 @ nd"
    "list_all2 (\<lambda>a b. content h0 sn' (d_seen d2) (d_heap d2) a b \<and> fresh (d_heap d1) b) nw nd"
    by (auto simp: dstep_def)
  have m: "seen_match (d_heap d3) sn' (d_seen d3)"
    using dstep_match [OF st] by (simp only: seen_match_cong [OF d3(2,3)] d3(1))
  then have "distinct (d_seen d3)" by (simp add: seen_match_def)
  with nw d3 w(2) have notw: "w \<notin> set nd" by auto
  have "content h0 sn' (d_seen d3) (d_heap d3) a b \<and> fresh (d_heap d) b"
    if "content h0 sn' (d_seen d2) (d_heap d2) a b" "fresh (d_heap d1) b" "b \<in> set nd" for a b
  proof -
    have "h_fun (d_heap d3) f = h_fun (d_heap d2) f" if "b = LFun f" for f
      using that \<open>b \<in> set nd\<close> notw d3(5) by (cases "LFun f = w") auto
    with that d3 have "content h0 sn' (d_seen d3) (d_heap d3) a b" by (cases a; cases b) auto
    with that(2) fresh_le [OF _ le] show ?thesis by blast
  qed
  then have rest: "list_all2 (\<lambda>a b. content h0 sn' (d_seen d3) (d_heap d3) a b \<and> fresh (d_heap d) b) nw nd"
    using nw(3) by (auto simp: list_all2_conv_all_nth)
  have hl: "heap_le X (d_heap d1) (d_heap d2)" using st by (simp add: dstep_def)
  have "heap_le {} (d_heap d) (d_heap d3)"
  proof -
    have "h_table (d_heap d3) t = h_table (d_heap d) t" if "t < h_tnext (d_heap d)" for t
      using that le hl X unfolding heap_le_def d3(4) by (metis empty_iff leD order_less_le_trans)
    moreover have "h_fun (d_heap d3) f = h_fun (d_heap d) f" if f: "f < h_fnext (d_heap d)" for f
    proof -
      have "LFun f \<noteq> w" using f w(1) by auto
      then have "h_fun (d_heap d3) f = h_fun (d_heap d2) f" using d3(5) by blast
      also have "\<dots> = h_fun (d_heap d) f" using f le hl by (simp add: heap_le_def)
      finally show ?thesis .
    qed
    ultimately show ?thesis using le hl d3(2,3) by (auto simp: heap_le_def)
  qed
  with m c rest w nw d3 show ?thesis
    by (auto simp: dstep_def intro!: exI [of _ "v # nw"] exI [of _ "w # nd"])
qed

lemma transl_new:
  assumes m: "seen_match h (sn @ [v]) (ds @ [w])" and st: "dstep X h0 (sn @ [v]) sn' d1 d2"
    and d1: "d_seen d1 = ds @ [w]" "d_heap d1 = h"
  shows "transl sn' (d_seen d2) v = w"
proof -
  have "transl sn' (d_seen d2) v = transl (sn @ [v]) (ds @ [w]) v"
    using dstep_ext(1) [of d1 "sn @ [v]"] m st d1 by (auto simp: covered_def)
  also have "\<dots> = w"
    using m seen_match_length [OF m] by (intro transl_snoc) (auto simp: seen_match_def)
  finally show ?thesis .
qed

definition upd_upvals :: "nat \<Rightarrow> lua_value list \<Rightarrow> decoder \<Rightarrow> decoder" where
  "upd_upvals f us s =
     s\<lparr>d_heap := (d_heap s)\<lparr>h_fun := (h_fun (d_heap s))(f := (h_fun (d_heap s) f)\<lparr>f_upvals := us\<rparr>)\<rparr>\<rparr>"

lemma upd_upvals_sel [simp]:
  "d_buf (upd_upvals f us s) = d_buf s" "d_seen (upd_upvals f us s) = d_seen s"
  "h_table (d_heap (upd_upvals f us s)) = h_table (d_heap s)"
  "h_tnext (d_heap (upd_upvals f us s)) = h_tnext (d_heap s)"
  "h_fnext (d_heap (upd_upvals f us s)) = h_fnext (d_heap s)"
  "h_fun (d_heap (upd_upvals f us s)) = (h_fun (d_heap s))(f := (h_fun (d_heap s) f)\<lparr>f_upvals := us\<rparr>)"
  "upd_upvals f vs (upd_upvals f us s) = upd_upvals f vs s"
  by (simp_all add: upd_upvals_def)

lemma upd_upvals_triv: "upd_upvals f (f_upvals (h_fun (d_heap s) f)) s = s"
  by (simp add: upd_upvals_def)

lemma set_upvals_fill:
  assumes "LNil \<notin> set vs" "length vs < 2 ^ 32" "i + k = length vs"
    "t_entries (h_table (d_heap s) t) = upval_entries 1 vs"
    "f_upvals (h_fun (d_heap s) f) = take i vs @ replicate k LNil"
  shows "set_upvals f t (Suc i) k s = Done () (upd_upvals f vs s)"
  using assms
proof (induction k arbitrary: i s)
  case 0
  then show ?case using upd_upvals_triv [of f s] by simp
next
  case (Suc k)
  have get: "raw_get (upval_entries (Suc 0) vs) (lua_int (Suc i)) = vs ! i"
    using upval_entries_get [of vs 1 i] Suc.prems by simp
  have "(take i vs @ LNil # replicate k LNil)[i := vs ! i] = take (Suc i) vs @ replicate k LNil"
    using Suc.prems(3) by (simp add: list_update_append take_Suc_conv_app_nth)
  with Suc.prems get
  have "set_upvals f t (Suc i) (Suc k) s =
      set_upvals f t (Suc (Suc i)) k (upd_upvals f (take (Suc i) vs @ replicate k LNil) s)"
    by (simp add: upd_upvals_def Let_def)
  also have "\<dots> = Done () (upd_upvals f vs s)"
    using Suc.IH [of "Suc i" "upd_upvals f (take (Suc i) vs @ replicate k LNil) s"] Suc.prems by simp
  finally show ?case .
qed

subsection \<open>Tables as values\<close>

lemma fetch_header:
  assumes "reads (d_buf d) ((ty # tag # bs) @ rest)"
  shows "fetch luvL_buf_get d = Done ty (dadv (Suc 0) d)"
    "fetch luvL_buf_get (dadv (Suc 0) d) = Done tag (dadv 2 d)"
    "reads (d_buf (dadv 2 d)) (bs @ rest)"
proof -
  have rd1: "reads (d_buf (dadv (Suc 0) d)) (tag # bs @ rest)"
    using reads_tl [of "d_buf d"] assms by simp
  show "fetch luvL_buf_get d = Done ty (dadv (Suc 0) d)"
    using assms fetch_get [of d] by simp
  show "fetch luvL_buf_get (dadv (Suc 0) d) = Done tag (dadv 2 d)"
    using fetch_get [OF rd1] by (simp add: numeral_2_eq_2)
  show "reads (d_buf (dadv 2 d)) (bs @ rest)"
    using reads_tl [OF rd1] by (simp add: numeral_2_eq_2)
qed

lemma decodes_table:
  assumes fl: "fills env h0 n [] (t_entries (h_table h0 t)) (sn @ [LTable t]) sn' bs"
    and cov: "\<forall>e\<in>set (t_entries (h_table h0 t)). entry_covered sn' e" and t: "LTable t \<notin> set sn"
  shows "decodes env h0 (Suc n) (LTable t) sn sn' (LUA_TTABLE # LUV_CODEC_TVAL # bs)"
  unfolding decodes_def
proof (intro allI impI)
  fix d :: decoder and rest
  assume rd: "reads (d_buf d) ((LUA_TTABLE # LUV_CODEC_TVAL # bs) @ rest)"
    and m: "seen_match (d_heap d) sn (d_seen d)"
  define t' where "t' = h_tnext (d_heap d)"
  define h1 where "h1 = snd (new_table [] (d_heap d))"
  define d1 where "d1 = (dadv 2 d)\<lparr>d_heap := h1, d_seen := d_seen d @ [LTable t']\<rparr>"
  have nt: "new_table [] (d_heap d) = (t', h1)" by (simp add: h1_def t'_def new_table_def)
  have le: "heap_le {} (d_heap d) h1" and kind: "same_kind h1 (LTable t) (LTable t')"
    and h1: "h_table h1 t' = \<lparr>t_entries = [], t_codec = LNil\<rparr>" "t' < h_tnext h1"
    by (auto simp: h1_def t'_def new_table_def heap_le_def)
  have fr: "fresh (d_heap d) (LTable t')" by (simp add: t'_def)
  have m1: "seen_match h1 (sn @ [LTable t]) (d_seen d @ [LTable t'])"
    by (rule seen_match_new [OF m le kind fr t])
  obtain d2 where d2: "decode_table env n t' d1 = Done () d2" "d_buf d2 = adv (length bs) (d_buf d1)"
    "dstep {t'} h0 (sn @ [LTable t]) sn' d1 d2"
    "h_table (d_heap d2) t' = \<lparr>t_entries = map (transl2 sn' (d_seen d2)) ([] @ t_entries (h_table h0 t)), t_codec = LNil\<rparr>"
    using fillsD [OF fl, of d1 rest t'] fetch_header(3) [OF rd] m1 h1 by (auto simp: d1_def)
  have "t' < h_tnext (d_heap d2)"
    using d2(3) h1(2) by (simp add: d1_def dstep_def heap_le_def)
  with d2(4) cov have "content h0 sn' (d_seen d2) (d_heap d2) (LTable t) (LTable t')"
    by (auto simp: entry_covered_def)
  with le fr d2(3) have "dstep {} h0 sn sn' d d2"
    by (intro dstep_new [where ?d1.0 = d1 and ?d2.0 = d2]) (auto simp: d1_def t'_def)
  moreover have "transl sn' (d_seen d2) (LTable t) = LTable t'"
    using transl_new [OF m1 d2(3)] by (simp add: d1_def)
  moreover have "decode_value env (Suc n) d = Done (LTable t') d2"
    using fetch_header(1,2) [OF rd] nt d2(1)
    by (simp add: lua_tag_defs codec_tag_defs decoder_seen_def d1_def)
  ultimately show "\<exists>d'. decode_value env (Suc n) d = Done (transl sn' (d_seen d') (LTable t)) d' \<and>
      d_buf d' = adv (length (LUA_TTABLE # LUV_CODEC_TVAL # bs)) (d_buf d) \<and> dstep {} h0 sn sn' d d'"
    using d2(2) by (intro exI [of _ d2]) (simp add: d1_def)
qed

subsection \<open>Functions as values\<close>

lemma decode_function:
  assumes rd: "reads (d_buf d) ((LUA_TFUNCTION # LUV_CODEC_TVAL # uleb128 (word_of_nat (length code)) @ code) @ rest)"
    and code: "length code < 2 ^ 32" "env_load env code = Some p"
  defines "k \<equiv> 2 + length (uleb128 (word_of_nat (length code))) + length code"
  defines "h1 \<equiv> snd (new_closure p (env_nups env p) (d_heap d))"
  defines "d1 \<equiv> (dadv k d)\<lparr>d_seen := d_seen d @ [LFun (h_fnext (d_heap d))], d_heap := snd (new_table [] h1)\<rparr>"
  shows "decode_value env (Suc n) d =
      bindR (decode_table env n (h_tnext h1) d1) (\<lambda>_ s.
      bindR (set_upvals (h_fnext (d_heap d)) (h_tnext h1) 1 (env_objlen env (t_entries (h_table (d_heap s) (h_tnext h1)))) s)
        (\<lambda>_ s. Done (LFun (h_fnext (d_heap d))) s))"
    and "reads (d_buf d1) rest"
proof -
  have rd': "reads (d_buf d) ((LUA_TFUNCTION # LUV_CODEC_TVAL # (uleb128 (word_of_nat (length code)) @ code @ rest)) @ [])"
    using rd by simp
  have rd2: "reads (d_buf (dadv 2 d)) (uleb128 (word_of_nat (length code)) @ code @ rest)"
    using fetch_header(3) [OF rd'] by simp
  note blk = fetch_block [OF rd2 code(1)]
  show "reads (d_buf d1) rest" using blk(3) by (simp add: d1_def k_def add.assoc)
  show "decode_value env (Suc n) d =
      bindR (decode_table env n (h_tnext h1) d1) (\<lambda>_ s.
      bindR (set_upvals (h_fnext (d_heap d)) (h_tnext h1) 1 (env_objlen env (t_entries (h_table (d_heap s) (h_tnext h1)))) s)
        (\<lambda>_ s. Done (LFun (h_fnext (d_heap d))) s))"
    using fetch_header(1,2) [OF rd'] blk(1,2) code(2)
    by (simp add: lua_tag_defs codec_tag_defs decoder_seen_def new_closure_def new_table_def d1_def k_def h1_def add.assoc)
qed

lemma map_transl_not_nil:
  assumes "seen_match h sn ds" "LNil \<notin> set vs"
  shows "LNil \<notin> set (map (transl sn ds) vs)"
proof
  assume "LNil \<in> set (map (transl sn ds) vs)"
  then obtain v where "v \<in> set vs" "transl sn ds v = LNil" by force
  with assms transl_not_nil [OF assms(1)] show False by simp
qed

lemma decodes_fun:
  assumes fl: "fills env h0 n [] (upval_entries 1 (f_upvals (h_fun h0 f))) (sn @ [LFun f]) sn' bs"
    and cov: "\<forall>v\<in>set (f_upvals (h_fun h0 f)). covered sn' v" and f: "LFun f \<notin> set sn"
    and ok: "closure_ok env R (h_fun h0 f)" and ol: "objlen_law env"
    and code: "code = concat (env_dump env (f_proto (h_fun h0 f)))"
  shows "decodes env h0 (Suc n) (LFun f) sn sn'
    (LUA_TFUNCTION # LUV_CODEC_TVAL # uleb128 (word_of_nat (length code)) @ code @ bs)"
  unfolding decodes_def
proof (intro allI impI)
  fix d :: decoder and rest
  let ?vs = "f_upvals (h_fun h0 f)" and ?p = "f_proto (h_fun h0 f)"
  let ?bs = "LUA_TFUNCTION # LUV_CODEC_TVAL # uleb128 (word_of_nat (length code)) @ code @ bs"
  assume rd: "reads (d_buf d) (?bs @ rest)" and m: "seen_match (d_heap d) sn (d_seen d)"
  define f' where "f' = h_fnext (d_heap d)"
  define h1 where "h1 = snd (new_closure ?p (env_nups env ?p) (d_heap d))"
  define t' where "t' = h_tnext h1"
  define k where "k = 2 + length (uleb128 (word_of_nat (length code))) + length code"
  define d1 where "d1 = (dadv k d)\<lparr>d_seen := d_seen d @ [LFun f'], d_heap := snd (new_table [] h1)\<rparr>"
  have cok: "length code < 2 ^ 32" "env_load env code = Some ?p" "LNil \<notin> set ?vs" "length ?vs < 2 ^ 32"
    "length ?vs = env_nups env ?p"
    using ok by (auto simp: closure_ok_def code)
  have rd': "reads (d_buf d) ((LUA_TFUNCTION # LUV_CODEC_TVAL # uleb128 (word_of_nat (length code)) @ code) @ bs @ rest)"
    using rd by simp
  note dec = decode_function [OF rd' cok(1,2), folded h1_def k_def, folded f'_def, folded t'_def d1_def]
  have le: "heap_le {} (d_heap d) (d_heap d1)" and kind: "same_kind (d_heap d1) (LFun f) (LFun f')"
    and h1: "h_table (d_heap d1) t' = \<lparr>t_entries = [], t_codec = LNil\<rparr>" "t' < h_tnext (d_heap d1)"
      "h_fun (d_heap d1) f' = \<lparr>f_lua = True, f_c = [], f_proto = ?p, f_upvals = replicate (env_nups env ?p) LNil\<rparr>"
      "f' < h_fnext (d_heap d1)" "h_tnext (d_heap d) \<le> t'"
    by (auto simp: d1_def h1_def t'_def f'_def new_table_def new_closure_def heap_le_def)
  have fr: "fresh (d_heap d) (LFun f')" by (simp add: f'_def)
  have m1: "seen_match (d_heap d1) (sn @ [LFun f]) (d_seen d @ [LFun f'])"
    by (rule seen_match_new [OF m le kind fr f])
  obtain d2 where d2: "decode_table env n t' d1 = Done () d2" "d_buf d2 = adv (length bs) (d_buf d1)"
    "dstep {t'} h0 (sn @ [LFun f]) sn' d1 d2"
    "t_entries (h_table (d_heap d2) t') = map (transl2 sn' (d_seen d2)) (upval_entries 1 ?vs)"
  proof (rule fillsD [OF fl dec(2) _ h1(2)])
    show "seen_match (d_heap d1) (sn @ [LFun f]) (d_seen d1)" using m1 by (simp add: d1_def)
    show "h_table (d_heap d1) t' = \<lparr>t_entries = map (transl2 (sn @ [LFun f]) (d_seen d1)) [], t_codec = LNil\<rparr>"
      using h1(1) by simp
  qed simp
  let ?us = "map (transl sn' (d_seen d2)) ?vs" and ?d3 = "upd_upvals f' (map (transl sn' (d_seen d2)) ?vs) d2"
  note m2 = dstep_match [OF d2(3)]
  have us: "LNil \<notin> set ?us" using cok(3) by (rule map_transl_not_nil [OF m2])
  have ents: "t_entries (h_table (d_heap d2) t') = upval_entries 1 ?us"
    using d2(4) upval_entries_map [OF m2] by simp
  have fun2: "h_fun (d_heap d2) f' = h_fun (d_heap d1) f'" "f' < h_fnext (d_heap d2)"
    using d2(3) h1(4) by (auto simp: dstep_def heap_le_def)
  have "set_upvals f' t' (Suc 0) (length ?us) d2 = Done () ?d3"
    using set_upvals_fill [OF us, of 0] cok(4,5) ents fun2(1) h1(3) by simp
  then have res: "decode_value env (Suc n) d = Done (LFun f') ?d3"
    using dec(1) d2(1) ents ol us by (simp add: objlen_law_def)
  have "content h0 sn' (d_seen ?d3) (d_heap ?d3) (LFun f) (LFun f')"
    using cov fun2 h1(3) by simp
  then have "dstep {} h0 sn sn' d ?d3"
    using le fr d2(3) h1(5) by (intro dstep_new [where ?d1.0 = d1 and ?d2.0 = d2]) (auto simp: d1_def)
  moreover have "transl sn' (d_seen d2) (LFun f) = LFun f'"
    using transl_new [OF m1 d2(3)] by (simp add: d1_def)
  ultimately show "\<exists>d'. decode_value env (Suc n) d = Done (transl sn' (d_seen d') (LFun f)) d' \<and>
      d_buf d' = adv (length ?bs) (d_buf d) \<and> dstep {} h0 sn sn' d d'"
    using res d2(2) by (intro exI [of _ ?d3]) (simp add: d1_def k_def add.assoc)
qed

subsection \<open>Encoding new objects\<close>

definition header :: "u8 \<Rightarrow> lua_value \<Rightarrow> encoder \<Rightarrow> encoder" where
  "header ty v s = epush 1 [LUV_CODEC_TVAL] (encoder_seen v (epush 1 [ty] s))"

lemma header_props:
  assumes inv: "enc_inv R h0 s" and v: "v \<in> R" "v \<notin> set (e_seen s)"
  shows "enc_inv R h0 (header ty v s)" "e_heap (header ty v s) = e_heap s"
    "e_seen (header ty v s) = e_seen s @ [v]"
    "contents (e_buf (header ty v s)) = contents (e_buf s) @ [ty, LUV_CODEC_TVAL]"
  using assms by (auto simp: header_def enc_inv_def encoder_seen_def)

lemma encode_table_value:
  assumes IT: "enc_table_ok env R h0 n" and inv: "enc_inv R h0 s" and hok: "heap_ok env R h0"
    and o: "LTable t \<in> R" "LTable t \<notin> set (e_seen s)"
  shows "(encode_value env (Suc n) (LTable t) s = Fail No_Return \<and> Suc n \<le> enc_cost R h0 (e_seen s)) \<or>
    (\<exists>s'. encode_value env (Suc n) (LTable t) s = Done () s' \<and> value_sim env R h0 (Suc n) (LTable t) s s')"
proof -
  let ?es = "t_entries (h_table h0 t)" and ?s = "header LUA_TTABLE (LTable t) s"
  note hd = header_props [OF inv o, of LUA_TTABLE]
  have t: "t < h_tnext h0" "LTable t \<notin> set (e_seen s)" and tab: "table_ok R (h_table h0 t)"
    using hok o by (auto simp: heap_ok_def)
  have eh: "h_table (e_heap s) t = h_table h0 t" "t < h_tnext (e_heap s)"
    using inv t by (auto simp: enc_inv_def heap_le_def)
  have b: "buf_ok (e_buf s)" and none: "seen_ref (e_seen s) (LTable t) = None"
    using inv t by (simp_all add: enc_inv_def seen_ref_None)
  have enc: "encode_value env (Suc n) (LTable t) s = encode_table env n t LNil ?s"
    using b none tab eh
    by (simp add: emit_push header_def encoder_seen_def table_ok_def Let_def del: encode_table.simps)
  have "finite R" using inv by (simp add: enc_inv_def)
  note cost = enc_cost_snoc [OF this o]
  have pre: "t < h_tnext (e_heap ?s)" "t_entries (h_table (e_heap ?s) t) = [] @ ?es" "entries_ok ([] @ ?es)"
    "\<forall>e\<in>set []. entry_covered (e_seen ?s) e" "\<forall>e\<in>set ?es. entry_ok R e"
    using tab eh hd by (auto simp: table_ok_def)
  from IT hd(1) pre show ?thesis
  proof (rule enc_tableD)
    fix s'
    assume s': "encode_table env n t (if [] = [] then LNil else fst (last [])) ?s = Done () s'" "table_sim env R h0 n [] ?es ?s s'"
    then obtain bs where sim: "enc_inv R h0 s'" "heap_le {} (e_heap s) (e_heap s')" "\<forall>e\<in>set ?es. entry_covered (e_seen s') e"
      "\<exists>nw. e_seen s' = (e_seen s @ [LTable t]) @ nw"
      "contents (e_buf s') = contents (e_buf s) @ LUA_TTABLE # LUV_CODEC_TVAL # bs"
      "fills env h0 n [] ?es (e_seen s @ [LTable t]) (e_seen s') bs"
      by (auto simp: table_sim_def hd)
    have "value_sim env R h0 (Suc n) (LTable t) s s'"
      using sim(1,2,4,5) decodes_table [OF sim(6,3) t(2)] by (auto simp: value_sim_def covered_def)
    with s'(1) show ?thesis by (simp add: enc del: encode_value.simps)
  qed (use cost hd(3) in \<open>auto simp: enc simp del: encode_value.simps\<close>)
qed

lemma encode_dump_ok:
  assumes "buf_ok (e_buf s)"
  shows "encode_dump env p s =
    Done () (let code = concat (env_dump env p)
             in epush (length code) code (epush 5 (uleb128 (word_of_nat (length code))) s))"
proof -
  obtain b where b: "dump_pieces (env_dump env p) null_buf = Some b" "buf_ok b" "contents b = concat (env_dump env p)"
    using dump_pieces_ok [of null_buf "env_dump env p"] by auto
  have "buf_head b = length (concat (env_dump env p))" using length_contents [OF b(2)] b(3) by simp
  with b assms show ?thesis by (simp add: encode_dump_def emit_push Let_def)
qed

lemma upval_entries_length: "length (upval_entries i vs) \<le> length vs"
  by (induction vs arbitrary: i) (auto intro: le_SucI)

text \<open>The encoder after the header and the bytecode, with the upvalue table on the heap.\<close>

definition fun_prefix :: "lua_env \<Rightarrow> lua_closure \<Rightarrow> nat \<Rightarrow> encoder \<Rightarrow> encoder" where
  "fun_prefix env c f s =
     (let code = concat (env_dump env (f_proto c));
          s = epush (length code) code (epush 5 (uleb128 (word_of_nat (length code))) (header LUA_TFUNCTION (LFun f) s))
      in s\<lparr>e_heap := snd (new_table (upval_entries 1 (f_upvals c)) (e_heap s))\<rparr>)"

lemma fun_prefix_props:
  fixes env :: lua_env and c :: lua_closure
  assumes inv: "enc_inv R h0 s" and f: "LFun f \<in> R" "LFun f \<notin> set (e_seen s)"
  defines "code \<equiv> concat (env_dump env (f_proto c))"
  shows "enc_inv R h0 (fun_prefix env c f s)" "heap_le {} (e_heap s) (e_heap (fun_prefix env c f s))"
    "h_tnext (e_heap s) < h_tnext (e_heap (fun_prefix env c f s))"
    "t_entries (h_table (e_heap (fun_prefix env c f s)) (h_tnext (e_heap s))) = upval_entries 1 (f_upvals c)"
    "e_seen (fun_prefix env c f s) = e_seen s @ [LFun f]"
    "contents (e_buf (fun_prefix env c f s)) =
      contents (e_buf s) @ LUA_TFUNCTION # LUV_CODEC_TVAL # uleb128 (word_of_nat (length code)) @ code"
proof -
  note hd = header_props [OF inv f, of LUA_TFUNCTION]
  have b: "buf_ok (e_buf (header LUA_TFUNCTION (LFun f) s))" using hd(1) by (simp add: enc_inv_def)
  show le: "heap_le {} (e_heap s) (e_heap (fun_prefix env c f s))"
    by (auto simp: fun_prefix_def new_table_def heap_le_def hd Let_def)
  with inv have "heap_le {} h0 (e_heap (fun_prefix env c f s))"
    using heap_le_trans [of "{}" h0 _ "{}"] by (auto simp: enc_inv_def)
  with hd(1) b show "enc_inv R h0 (fun_prefix env c f s)"
    by (auto simp: fun_prefix_def enc_inv_def Let_def)
  show "h_tnext (e_heap s) < h_tnext (e_heap (fun_prefix env c f s))"
    "t_entries (h_table (e_heap (fun_prefix env c f s)) (h_tnext (e_heap s))) = upval_entries 1 (f_upvals c)"
    by (simp_all add: fun_prefix_def new_table_def hd Let_def)
  show "e_seen (fun_prefix env c f s) = e_seen s @ [LFun f]"
    "contents (e_buf (fun_prefix env c f s)) =
      contents (e_buf s) @ LUA_TFUNCTION # LUV_CODEC_TVAL # uleb128 (word_of_nat (length code)) @ code"
    using b by (simp_all add: fun_prefix_def hd Let_def code_def)
qed

lemma encode_fun_prefix:
  assumes inv: "enc_inv R h0 s" and o: "LFun f \<in> R" and f: "f < h_fnext h0" "LFun f \<notin> set (e_seen s)"
    and ok: "closure_ok env R (h_fun h0 f)" and ol: "objlen_law env"
  shows "encode_value env (Suc n) (LFun f) s =
    encode_table env n (h_tnext (e_heap s)) LNil (fun_prefix env (h_fun h0 f) f s)"
proof -
  let ?h = "header LUA_TFUNCTION (LFun f) s"
  note hd = header_props [OF inv o f(2), of LUA_TFUNCTION]
  have b: "buf_ok (e_buf s)" "buf_ok (e_buf ?h)" and none: "seen_ref (e_seen s) (LFun f) = None"
    and c: "h_fun (e_heap s) f = h_fun h0 f"
    using inv f hd(1) by (auto simp: enc_inv_def seen_ref_None heap_le_def)
  have fl: "f_lua (h_fun h0 f)"
    and ol': "env_objlen env (upval_entries (Suc 0) (f_upvals (h_fun h0 f))) = length (f_upvals (h_fun h0 f))"
    using ok ol by (auto simp: closure_ok_def objlen_law_def)
  have "encode_value env (Suc n) (LFun f) s =
      bindR (encode_dump env (f_proto (h_fun h0 f)) ?h) (\<lambda>_ s.
        let (t, h) = new_table (upval_entries 1 (f_upvals (h_fun h0 f))) (e_heap s); s = s\<lparr>e_heap := h\<rparr>
        in bindR (c_assert (env_objlen env (t_entries (h_table h t)) = length (f_upvals (h_fun h0 f))) s)
             (\<lambda>_ s. encode_table env n t LNil s))"
    using b(1) none fl c by (simp add: emit_push header_def encoder_seen_def Let_def del: encode_table.simps)
  also have "\<dots> = encode_table env n (h_tnext (e_heap s)) LNil (fun_prefix env (h_fun h0 f) f s)"
    using ol' hd(2)
    by (simp add: encode_dump_ok [OF b(2)] fun_prefix_def new_table_def c_assert_def Let_def del: encode_table.simps)
  finally show ?thesis .
qed

lemma encode_fun_value:
  assumes IT: "enc_table_ok env R h0 n" and inv: "enc_inv R h0 s" and hok: "heap_ok env R h0" and ol: "objlen_law env"
    and o: "LFun f \<in> R" "LFun f \<notin> set (e_seen s)"
  shows "(encode_value env (Suc n) (LFun f) s = Fail No_Return \<and> Suc n \<le> enc_cost R h0 (e_seen s)) \<or>
    (\<exists>s'. encode_value env (Suc n) (LFun f) s = Done () s' \<and> value_sim env R h0 (Suc n) (LFun f) s s')"
proof -
  let ?c = "h_fun h0 f"
  let ?es = "upval_entries 1 (f_upvals ?c)" and ?s = "fun_prefix env ?c f s" and ?t = "h_tnext (e_heap s)"
  define code where "code = concat (env_dump env (f_proto ?c))"
  have f: "f < h_fnext h0" "LFun f \<notin> set (e_seen s)" and ok: "closure_ok env R ?c"
    using hok o by (auto simp: heap_ok_def)
  from ok have vs: "LNil \<notin> set (f_upvals ?c)" "\<forall>v\<in>set (f_upvals ?c). value_ok R v" "length (f_upvals ?c) < 2 ^ 32"
    by (auto simp: closure_ok_def)
  note fp = fun_prefix_props [OF inv o, of env ?c, folded code_def]
  note enc = encode_fun_prefix [OF inv o(1) f ok ol]
  have "finite R" using inv by (simp add: enc_inv_def)
  note cost = enc_cost_snoc [OF this o]
  have "entry_ok R e" if "e \<in> set ?es" for e
    using upval_entries_keys [OF that] vs(2) by (auto simp: entry_ok_def lua_int_def)
  then have pre: "?t < h_tnext (e_heap ?s)" "t_entries (h_table (e_heap ?s) ?t) = [] @ ?es" "entries_ok ([] @ ?es)"
    "\<forall>e\<in>set []. entry_covered (e_seen ?s) e" "\<forall>e\<in>set ?es. entry_ok R e"
    using vs(3) fp upval_entries_ok [of 1 "f_upvals ?c"] by auto
  from IT fp(1) pre show ?thesis
  proof (rule enc_tableD)
    fix s'
    assume s': "encode_table env n ?t (if [] = [] then LNil else fst (last [])) ?s = Done () s'" "table_sim env R h0 n [] ?es ?s s'"
    then obtain bs where sim: "enc_inv R h0 s'" "heap_le {} (e_heap ?s) (e_heap s')" "\<forall>e\<in>set ?es. entry_covered (e_seen s') e"
      "\<exists>nw. e_seen s' = (e_seen s @ [LFun f]) @ nw"
      "contents (e_buf s') = contents (e_buf s) @ LUA_TFUNCTION # LUV_CODEC_TVAL # uleb128 (word_of_nat (length code)) @ code @ bs"
      "fills env h0 n [] ?es (e_seen s @ [LFun f]) (e_seen s') bs"
      by (auto simp: table_sim_def fp)
    have "\<forall>v\<in>set (f_upvals ?c). covered (e_seen s') v"
      using sim(3) upval_entries_values [OF vs(1)] by (auto simp: entry_covered_def)
    then have "decodes env h0 (Suc n) (LFun f) (e_seen s) (e_seen s')
        (LUA_TFUNCTION # LUV_CODEC_TVAL # uleb128 (word_of_nat (length code)) @ code @ bs)"
      by (rule decodes_fun [OF sim(6) _ f(2) ok ol code_def])
    moreover have "heap_le {} (e_heap s) (e_heap s')" using heap_le_trans [OF fp(2) sim(2)] by simp
    ultimately have "value_sim env R h0 (Suc n) (LFun f) s s'"
      using sim(1,4,5) by (auto simp: value_sim_def covered_def)
    with s'(1) show ?thesis by (simp add: enc del: encode_value.simps)
  qed (use cost fp(5) upval_entries_length [of 1 "f_upvals ?c"] in \<open>auto simp: enc simp del: encode_value.simps\<close>)
qed

section \<open>The simulation holds for every fuel\<close>

theorem encoder_simulation:
  assumes hok: "heap_ok env R h0" and ol: "objlen_law env"
  shows "enc_value_ok env R h0 n \<and> enc_table_ok env R h0 n"
proof (induction n)
  case 0
  show ?case by (auto simp: enc_value_ok_def enc_table_ok_def)
next
  case (Suc n)
  have "enc_value_ok env R h0 (Suc n)"
    unfolding enc_value_ok_def
  proof (intro allI impI)
    fix v and s :: encoder
    assume ok: "value_ok R v" and inv: "enc_inv R h0 s"
    show "(encode_value env (Suc n) v s = Fail No_Return \<and> Suc n \<le> enc_cost R h0 (e_seen s)) \<or>
        (\<exists>s'. encode_value env (Suc n) v s = Done () s' \<and> value_sim env R h0 (Suc n) v s s')"
    proof (cases "is_obj v")
      case False
      with encode_scalar [OF inv ok] show ?thesis by blast
    next
      case True
      show ?thesis
      proof (cases "seen_ref (e_seen s) v")
        case (Some r)
        with encode_ref [OF inv hok True] show ?thesis by blast
      next
        case None
        then have new: "v \<notin> set (e_seen s)" by (simp add: seen_ref_None)
        from True consider t where "v = LTable t" | f where "v = LFun f" by (cases v) auto
        then show ?thesis
        proof cases
          case 1
          with ok new encode_table_value [OF _ inv hok, of n] Suc.IH show ?thesis by simp
        next
          case 2
          with ok new encode_fun_value [OF _ inv hok ol, of n] Suc.IH show ?thesis by simp
        qed
      qed
    qed
  qed
  with enc_table_step Suc.IH show ?case by blast
qed

end
