(* ===== verification/Codec_Decode.thy ===== *)
theory Codec_Decode
  imports Luv_Codec
begin

text \<open>
  The decoder on arbitrary bytes: more fuel never changes a result, every value and every table
  consumes input, and so the decoder always returns once the fuel exceeds the number of bytes left.
\<close>

section \<open>Results with more fuel\<close>

text \<open>The flat order in which \<open>Fail No_Return\<close> is the least element.\<close>

definition res_le :: "('e, 'a, 's) res \<Rightarrow> ('e, 'a, 's) res \<Rightarrow> bool" where
  "res_le r r' \<longleftrightarrow> r = Fail No_Return \<or> r' = r"

lemma res_le_refl: "res_le r r"
  by (simp add: res_le_def)

lemma res_le_bot: "res_le (Fail No_Return) r"
  by (simp add: res_le_def)

lemma res_le_bind:
  "res_le r r' \<Longrightarrow> (\<And>a s. res_le (f a s) (g a s)) \<Longrightarrow> res_le (bindR r f) (bindR r' g)"
  by (cases r) (auto simp: res_le_def)

lemma res_le_if:
  "res_le a c \<Longrightarrow> res_le b d \<Longrightarrow> res_le (if P then a else b) (if P then c else d)"
  by simp

lemma res_le_let: "(\<And>x. res_le (f x) (g x)) \<Longrightarrow> res_le (Let a f) (Let a g)"
  by simp

lemma res_le_split: "(\<And>x y. res_le (f x y) (g x y)) \<Longrightarrow> res_le (case_prod f p) (case_prod g p)"
  by (cases p) simp

lemma res_le_option:
  "res_le a b \<Longrightarrow> (\<And>x. res_le (f x) (g x)) \<Longrightarrow> res_le (case_option a f p) (case_option b g p)"
  by (cases p) simp_all

lemmas res_le_rules = res_le_bind res_le_let res_le_split res_le_option res_le_if res_le_refl

lemma decode_fuel_step:
  "res_le (decode_value env n s) (decode_value env (Suc n) s) \<and>
   res_le (decode_table env n t s) (decode_table env (Suc n) t s)"
proof (induction n arbitrary: s t)
  case 0
  show ?case by (simp add: res_le_bot)
next
  case (Suc n)
  have v: "res_le (decode_value env n s) (decode_value env (Suc n) s)"
    and t: "res_le (decode_table env n t s) (decode_table env (Suc n) t s)" for s t
    using Suc.IH by blast+
  show ?case
    by (subst (1 2) decode_value.simps(2), subst (1 2) decode_table.simps(2))
      (intro conjI v t res_le_rules)
qed

lemma decode_fuel_mono:
  assumes "n \<le> m" "decode_value env n s \<noteq> Fail No_Return"
  shows "decode_value env m s = decode_value env n s"
  using assms
proof (induction rule: dec_induct)
  case (step k)
  then show ?case using decode_fuel_step [of env k s] by (auto simp: res_le_def)
qed simp

section \<open>Progress\<close>

definition left :: "luv_buf \<Rightarrow> nat" where
  "left b = length (buf_mem b) - buf_head b"

text \<open>\<open>prog k r L\<close>: the run \<open>r\<close> returns, and a normal result has used \<open>k\<close> of the \<open>L\<close> bytes.\<close>

definition prog :: "nat \<Rightarrow> 'a dec_res \<Rightarrow> nat \<Rightarrow> bool" where
  "prog k r L \<longleftrightarrow> r \<noteq> Fail No_Return \<and> (\<forall>a s. r = Done a s \<longrightarrow> left (d_buf s) + k \<le> L)"

lemma prog_bind:
  assumes "prog j r L" "\<And>a s. left (d_buf s) + j \<le> L \<Longrightarrow> prog k (f a s) L"
  shows "prog k (bindR r f) L"
  using assms by (cases r) (auto simp: prog_def)

lemma prog_Done: "left (d_buf s) + k \<le> L \<Longrightarrow> prog k (Done a s) L"
  and prog_Raise: "prog k (Raise e s) L"
  and prog_Fail: "x \<noteq> No_Return \<Longrightarrow> prog k (Fail x) L"
  by (simp_all add: prog_def)

lemma prog_if: "(P \<Longrightarrow> prog k a L) \<Longrightarrow> (\<not> P \<Longrightarrow> prog k b L) \<Longrightarrow> prog k (if P then a else b) L"
  by simp

lemma prog_assert: "left (d_buf s) + k \<le> L \<Longrightarrow> prog k (c_assert b s) L"
  by (simp add: c_assert_def prog_def)

lemma uleb_get_left:
  "(uleb_get sh v b :: ('e, u32, luv_buf) res) = Done w b' \<Longrightarrow> left b' < left b"
  "(uleb_get sh v b :: ('e, u32, luv_buf) res) \<noteq> Fail No_Return"
proof (induction sh v b rule: uleb_get.induct)
  case (1 sh v b)
  {
    case 1
    then show ?case using "1.IH"(1)
      by (subst (asm) uleb_get.simps)
        (fastforce simp: bindR_Done_iff luvL_buf_get_def luvL_buf_peek_def left_def Let_def
          split: if_splits option.splits)
  next
    case 2
    show ?case using "1.IH"(2)
      by (subst uleb_get.simps)
        (auto simp: bindR_Fail_iff luvL_buf_get_def luvL_buf_peek_def Let_def
          split: if_splits option.splits)
  }
qed

lemma prog_get: "left (d_buf s) + i \<le> L \<Longrightarrow> prog (Suc i) (fetch luvL_buf_get s) L"
  by (auto simp: prog_def fetch_def luvL_buf_get_def luvL_buf_peek_def left_def split: option.splits)

lemma prog_peek: "left (d_buf s) + i \<le> L \<Longrightarrow> prog i (fetch luvL_buf_peek s) L"
  by (auto simp: prog_def fetch_def luvL_buf_peek_def left_def split: option.splits)

lemma prog_read: "left (d_buf s) + i \<le> L \<Longrightarrow> prog i (fetch (luvL_buf_read n) s) L"
  by (auto simp: prog_def fetch_def luvL_buf_read_def left_def Let_def)

lemma prog_uleb:
  assumes "left (d_buf s) + i \<le> L"
  shows "prog (Suc i) (fetch luvL_buf_read_uleb128 s) L"
proof -
  let ?r = "luvL_buf_read_uleb128 (d_buf s) :: (lua_value, u32, luv_buf) res"
  have "?r \<noteq> Fail No_Return"
    using uleb_get_left(2)
    by (auto simp: luvL_buf_read_uleb128_def luvL_buf_get_def luvL_buf_peek_def bindR_Fail_iff Let_def
        split: if_splits option.splits)
  moreover have "left b < left (d_buf s)" if "?r = Done w b" for w b
    using that
    by (fastforce simp: luvL_buf_read_uleb128_def luvL_buf_get_def luvL_buf_peek_def bindR_Done_iff left_def Let_def
        split: if_splits option.splits dest: uleb_get_left(1))
  ultimately show ?thesis
    using assms by (cases ?r) (force simp: prog_def fetch_def)+
qed

text \<open>Every Lua function the decoder calls returns or raises.\<close>

definition calls_return :: "lua_env \<Rightarrow> bool" where
  "calls_return env \<longleftrightarrow> (\<forall>f v h. env_call env f v h \<noteq> Fail No_Return)"

lemma prog_call:
  "calls_return env \<Longrightarrow> left (d_buf s) + i \<le> L \<Longrightarrow> prog i (dec_call env f v n s) L"
  by (auto simp: prog_def dec_call_def calls_return_def split: res.splits)

lemma prog_find_decoder: "left (d_buf s) + i \<le> L \<Longrightarrow> prog i (find_decoder env key s) L"
  by (auto simp: prog_def find_decoder_def Let_def)

lemma prog_hook:
  "left (d_buf s) + i \<le> L \<Longrightarrow>
    prog i (case hook of LStr key \<Rightarrow> find_decoder env key s | _ \<Rightarrow> Done hook s) L"
  by (cases hook) (simp_all add: prog_Done prog_find_decoder)

lemma prog_settable: "left (d_buf s) + i \<le> L \<Longrightarrow> prog i (dec_settable t k v s) L"
  by (auto simp: prog_def dec_settable_def Let_def)

lemma prog_set_upvals: "left (d_buf s) + i \<le> L \<Longrightarrow> prog i (set_upvals f t j n s) L"
  by (induction n arbitrary: j s) (simp_all add: prog_Done prog_Fail Let_def)

lemma decoder_seen_buf [simp]: "d_buf (decoder_seen v s) = d_buf s"
  by (simp add: decoder_seen_def)

definition value_total :: "lua_env \<Rightarrow> nat \<Rightarrow> bool" where
  "value_total env n \<longleftrightarrow>
     (\<forall>s i L. left (d_buf s) < n \<longrightarrow> left (d_buf s) + i \<le> L \<longrightarrow> prog (Suc i) (decode_value env n s) L)"

definition table_total :: "lua_env \<Rightarrow> nat \<Rightarrow> bool" where
  "table_total env n \<longleftrightarrow>
     (\<forall>s t i L. left (d_buf s) + 1 < n \<longrightarrow> left (d_buf s) + i \<le> L \<longrightarrow> prog (Suc i) (decode_table env n t s) L)"

lemma value_totalD:
  "value_total env n \<Longrightarrow> left (d_buf s) + i \<le> L \<Longrightarrow> left (d_buf s) < n \<Longrightarrow> prog (Suc i) (decode_value env n s) L"
  by (simp add: value_total_def)

lemma table_totalD:
  "table_total env n \<Longrightarrow> left (d_buf s) + i \<le> L \<Longrightarrow> left (d_buf s) + 1 < n \<Longrightarrow> prog (Suc i) (decode_table env n t s) L"
  by (simp add: table_total_def)

lemma prog_weaken: "prog j r L \<Longrightarrow> i \<le> j \<Longrightarrow> prog i r L"
  by (auto simp: prog_def)

lemma table_total_Suc:
  assumes V: "value_total env n" and T: "table_total env n"
  shows "table_total env (Suc n)"
  unfolding table_total_def
proof (intro allI impI)
  fix s :: decoder and t i L
  assume n: "left (d_buf s) + 1 < Suc n" and L: "left (d_buf s) + i \<le> L"
  let ?l = "left (d_buf s)"
  have "prog 1 (decode_table env (Suc n) t s) ?l"
    unfolding decode_table.simps
  proof (rule prog_bind [OF prog_peek [of s 0]], simp, rule prog_if)
    fix s1 :: decoder and ty
    assume s1: "left (d_buf s1) + 0 \<le> ?l"
    show "prog 1 (bindR (decode_value env n s1) (\<lambda>k s. bindR (decode_value env n s) (\<lambda>v s.
        bindR (dec_settable t k v s) (\<lambda>_ s. decode_table env n t s)))) ?l"
    proof (rule prog_bind [OF value_totalD [OF V s1]])
      show "left (d_buf s1) < n" using s1 n by simp
      fix k and s2 :: decoder
      assume s2: "left (d_buf s2) + Suc 0 \<le> ?l"
      show "prog 1 (bindR (decode_value env n s2) (\<lambda>v s. bindR (dec_settable t k v s) (\<lambda>_ s. decode_table env n t s))) ?l"
      proof (rule prog_bind [OF value_totalD [OF V s2]])
        show "left (d_buf s2) < n" using s2 n by simp
        fix v and s3 :: decoder
        assume s3: "left (d_buf s3) + Suc (Suc 0) \<le> ?l"
        show "prog 1 (bindR (dec_settable t k v s3) (\<lambda>_ s. decode_table env n t s)) ?l"
        proof (rule prog_bind [OF prog_settable [OF s3]])
          fix s4 :: decoder
          assume s4: "left (d_buf s4) + Suc (Suc 0) \<le> ?l"
          show "prog 1 (decode_table env n t s4) ?l"
            by (rule prog_weaken [OF table_totalD [OF T s4]]) (use s4 n in auto)
        qed
      qed
    qed
    show "prog 1 (bindR (decode_value env n s1) (\<lambda>v. c_assert (lua_type v = LUA_TNIL))) ?l"
      by (rule prog_bind [OF value_totalD [OF V s1]]) (use s1 n in \<open>auto intro: prog_assert\<close>)
  qed
  with L show "prog (Suc i) (decode_table env (Suc n) t s) L" by (auto simp: prog_def)
qed

lemma prog_new_table:
  assumes "d_buf s = d_buf s0" "table_total env n" "left (d_buf s0) + i \<le> L" "left (d_buf s0) + 1 < n"
    "\<And>a s. left (d_buf s) + Suc i \<le> L \<Longrightarrow> prog k (f a s) L"
  shows "prog k (bindR (decode_table env n t s) f) L"
  using assms prog_bind [OF table_totalD [OF assms(2)], of s i L k f] by simp

lemma prog_option:
  "(p = None \<Longrightarrow> prog k a L) \<Longrightarrow> (\<And>x. p = Some x \<Longrightarrow> prog k (f x) L) \<Longrightarrow> prog k (case_option a f p) L"
  by (cases p) simp_all

lemmas prog_binds = prog_bind [OF prog_get] prog_bind [OF prog_read] prog_bind [OF prog_uleb]
  prog_bind [OF prog_hook] prog_bind [OF prog_assert] prog_bind [OF prog_set_upvals]

lemma value_total_Suc:
  assumes V: "value_total env n" and T: "table_total env n" and C: "calls_return env"
  shows "value_total env (Suc n)"
  unfolding value_total_def
proof (intro allI impI)
  fix s :: decoder and i L
  assume n: "left (d_buf s) < Suc n" and L: "left (d_buf s) + i \<le> L"
  let ?l = "left (d_buf s)"
  note bindV = prog_bind [OF value_totalD [OF V]]
    and bindC = prog_bind [OF prog_call [OF C]]
  have s0: "left (d_buf s) + 0 \<le> ?l" by simp
  have "prog 1 (decode_value env (Suc n) s) ?l"
    unfolding decode_value.simps new_table_def new_closure_def Let_def split_conv
    apply (rule prog_bind [OF prog_get [OF s0]])
    apply ((rule prog_if prog_option)
      | (rule prog_binds bindV bindC, assumption)
      | (rule prog_new_table [OF _ T], simp, assumption)
      | (rule prog_Done prog_Raise; simp)
      | (use n in simp))+
    done
  with L show "prog (Suc i) (decode_value env (Suc n) s) L" by (auto simp: prog_def)
qed

end
