(* ===== verification/Codec_Props.thy ===== *)
theory Codec_Props
  imports Codec_Encode Codec_Decode
begin

text \<open>
  The entry points of the codec: the round trip, termination, the error branches, and the inputs
  on which the code does not do what it means to.
\<close>

section \<open>Decoding returns\<close>



lemma null_buf_room: "n \<le> length (buf_mem (luvL_buf_need n null_buf))"
proof -
  have "buf_head null_buf = 0" by (simp add: null_buf_def)
  then show ?thesis using buf_need_ok(3) [OF buf_ok_null, of n] by simp
qed

lemma buf_init_props:
  assumes "luvL_buf_init data null_buf = Some b"
  shows "reads (b\<lparr>buf_head := 0\<rparr>) data" "length (buf_mem b) \<le> 2 * length data + 128"
proof -
  let ?b = "luvL_buf_need (length data) null_buf"
  have m: "buf_mem b = map Some data @ drop (length data) (buf_mem ?b)"
    using assms by (auto simp: luvL_buf_init_def poke_def Let_def split: if_splits)
  then show "reads (b\<lparr>buf_head := 0\<rparr>) data" by (simp add: reads_def)
  have "length (buf_mem ?b) = buf_grow 128 (length data)"
    using buf_grow_mono [of 128 "length data"]
    by (simp add: luvL_buf_need_def luvL_buf_new_def null_buf_def Let_def)
  moreover have "length data \<le> length (buf_mem ?b)"
    by (rule null_buf_room)
  moreover have "buf_grow 128 (length data) \<le> 2 * length data + 128"
    using buf_grow_less [of 128 "length data"] by (cases "128 < length data") (auto simp: buf_grow.simps)
  ultimately show "length (buf_mem b) \<le> 2 * length data + 128" using m by simp
qed

lemma buf_init_ok: "\<exists>b. luvL_buf_init data null_buf = Some b"
  using null_buf_room [of "length data"] by (simp add: luvL_buf_init_def poke_def Let_def)

lemma decode_values_length: "decode_values env n k s = Done vs s' \<Longrightarrow> length vs = k"
  by (induction k arbitrary: s vs s') (auto simp: bindR_Done_iff)

text \<open>What the entry point does with a string that \<open>luvL_buf_init\<close> copied to \<open>b\<close>.\<close>

lemma codec_decode_run:
  assumes "luvL_buf_init data null_buf = Some b"
  shows "luvL_codec_decode env n (LStr data # rest) h =
    (case fetch luvL_buf_read_uleb128 \<lparr>d_heap = h, d_buf = b\<lparr>buf_head := 0\<rparr>, d_seen = []\<rparr> of
       Done nv s \<Rightarrow>
         (case decode_values env n (nat (sint nv)) s of
            Done vs s \<Rightarrow> if 0 \<le> sint nv then Done (sint nv, (LStr data # rest) @ vs) (d_heap s) else Fail Assertion_Failed
          | Raise e s \<Rightarrow> Raise e (d_heap s)
          | Fail x \<Rightarrow> Fail x)
     | Raise e s \<Rightarrow> Raise e (d_heap s)
     | Fail x \<Rightarrow> Fail x)"
  using assms
  by (auto simp: luvL_codec_decode_def check_string_def Let_def c_assert_def dest!: decode_values_length split: res.splits)


section \<open>Round trip\<close>

lemma res_le_value:
  "(\<And>b. res_le (f2 b) (g2 b)) \<Longrightarrow> (\<And>b. res_le (f3 b) (g3 b)) \<Longrightarrow> (\<And>b. res_le (f4 b) (g4 b)) \<Longrightarrow>
   (\<And>b. res_le (f5 b) (g5 b)) \<Longrightarrow> (\<And>b. res_le (f6 b) (g6 b)) \<Longrightarrow> (\<And>b. res_le (f7 b) (g7 b)) \<Longrightarrow>
   (\<And>b. res_le (f8 b) (g8 b)) \<Longrightarrow> (\<And>b. res_le (f9 b) (g9 b)) \<Longrightarrow> res_le f1 g1 \<Longrightarrow>
   res_le (case_lua_value f1 f2 f3 f4 f5 f6 f7 f8 f9 v) (case_lua_value g1 g2 g3 g4 g5 g6 g7 g8 g9 v)"
  by (cases v) simp_all

lemma encode_fuel_step:
  "res_le (encode_value env n v s) (encode_value env (Suc n) v s) \<and>
   res_le (encode_table env n t k s) (encode_table env (Suc n) t k s)"
proof (induction n arbitrary: v s t k)
  case 0
  show ?case by (simp add: res_le_bot)
next
  case (Suc n)
  have v: "res_le (encode_value env n v s) (encode_value env (Suc n) v s)"
    and t: "res_le (encode_table env n t k s) (encode_table env (Suc n) t k s)" for v s t k
    using Suc.IH by blast+
  have "res_le (encode_table env (Suc n) t k s) (encode_table env (Suc (Suc n)) t k s)"
    by (subst (2) encode_table.simps(2), subst (1) encode_table.simps(2)) (rule v t res_le_rules)+
  moreover have "res_le (encode_value env (Suc n) v s) (encode_value env (Suc (Suc n)) v s)"
    by (subst (2) encode_value.simps(2), subst (1) encode_value.simps(2), unfold encoder_hook_def)
      (rule v t res_le_value res_le_rules)+
  ultimately show ?case by blast
qed

lemma encode_fuel_mono:
  assumes "n \<le> m" "encode_value env n v s \<noteq> Fail No_Return"
  shows "encode_value env m v s = encode_value env n v s"
  using assms
proof (induction rule: dec_induct)
  case (step k)
  then show ?case using encode_fuel_step [of env k v s] by (auto simp: res_le_def)
qed simp

text \<open>All arguments one after the other: the decoder reads them back in order.\<close>

definition values_decode ::
    "lua_env \<Rightarrow> lua_heap \<Rightarrow> nat \<Rightarrow> lua_value list \<Rightarrow> lua_value list \<Rightarrow> lua_value list \<Rightarrow> bytes \<Rightarrow> bool" where
  "values_decode env h0 n vs sn sn' bs \<longleftrightarrow>
     (\<forall>d rest. reads (d_buf d) (bs @ rest) \<longrightarrow> seen_match (d_heap d) sn (d_seen d) \<longrightarrow>
        (\<exists>d'. (\<forall>m\<ge>n. decode_values env m (length vs) d = Done (map (transl sn' (d_seen d')) vs) d') \<and>
              dstep {} h0 sn sn' d d'))"

lemma values_decode_Cons:
  assumes v: "decodes env h0 n v sn sn1 b1" "covered sn1 v" and vs: "values_decode env h0 n vs sn1 sn2 b2"
  shows "values_decode env h0 n (v # vs) sn sn2 (b1 @ b2)"
  unfolding values_decode_def
proof (intro allI impI)
  fix d :: decoder and rest
  assume rd: "reads (d_buf d) ((b1 @ b2) @ rest)" and m: "seen_match (d_heap d) sn (d_seen d)"
  obtain d1 where d1: "decode_value env n d = Done (transl sn1 (d_seen d1) v) d1"
    "dstep {} h0 sn sn1 d d1" "reads (d_buf d1) (b2 @ rest)"
    using decodesD [OF v(1) rd [unfolded append_assoc] m] by blast
  have dm: "decode_value env m d = Done (transl sn1 (d_seen d1) v) d1" if "n \<le> m" for m
    using decode_fuel_mono [OF that, of env d] d1(1) by simp
  obtain d2 where d2: "\<forall>m\<ge>n. decode_values env m (length vs) d1 = Done (map (transl sn2 (d_seen d2)) vs) d2"
    "dstep {} h0 sn1 sn2 d1 d2"
    using vs d1(3) dstep_match [OF d1(2)] unfolding values_decode_def by meson
  have "transl sn1 (d_seen d1) v = transl sn2 (d_seen d2) v"
    using dstep_ext(1) [OF dstep_match [OF d1(2)] d2(2) v(2)] by simp
  then show "\<exists>d'. (\<forall>m\<ge>n. decode_values env m (length (v # vs)) d = Done (map (transl sn2 (d_seen d')) (v # vs)) d') \<and>
      dstep {} h0 sn sn2 d d'"
    using dm d2 dstep_trans [OF d1(2) d2(2)] by (intro exI [of _ d2]) simp
qed

lemma encode_args_sim:
  assumes hok: "heap_ok env R h0" and ol: "objlen_law env"
  shows "\<forall>v\<in>set vs. value_ok R v \<Longrightarrow> enc_inv R h0 s \<Longrightarrow> enc_cost R h0 (e_seen s) < n \<Longrightarrow>
    \<exists>s' bs. (\<forall>m\<ge>n. encode_args env m vs s = Done () s') \<and> enc_inv R h0 s' \<and>
      contents (e_buf s') = contents (e_buf s) @ bs \<and> (\<exists>nw. e_seen s' = e_seen s @ nw) \<and>
      heap_le {} (e_heap s) (e_heap s') \<and>
      (\<forall>v\<in>set vs. covered (e_seen s') v) \<and> values_decode env h0 n vs (e_seen s) (e_seen s') bs"
proof (induction vs arbitrary: s)
  case Nil
  then show ?case
    using dstep_refl by (intro exI [of _ s] exI [of _ "[]"]) (auto simp: values_decode_def)
next
  case (Cons v vs)
  have IV: "enc_value_ok env R h0 n" using encoder_simulation [OF hok ol] by blast
  have vok: "value_ok R v" using Cons.prems by simp
  from IV vok Cons.prems(2) show ?case
  proof (rule enc_valueD)
    fix s1 assume s1: "encode_value env n v s = Done () s1" "value_sim env R h0 n v s s1"
    then obtain nw b1 where 1: "e_seen s1 = e_seen s @ nw" "covered (e_seen s1) v" "enc_inv R h0 s1"
      "contents (e_buf s1) = contents (e_buf s) @ b1" "heap_le {} (e_heap s) (e_heap s1)"
      "decodes env h0 n v (e_seen s) (e_seen s1) b1"
      by (auto simp: value_sim_def)
    have "enc_cost R h0 (e_seen s1) < n" using value_sim_cost [OF s1(2)] Cons.prems(3) by simp
    with Cons.IH [OF _ 1(3)] Cons.prems(1) obtain s2 bs where 2: "\<forall>m\<ge>n. encode_args env m vs s1 = Done () s2"
      "enc_inv R h0 s2" "contents (e_buf s2) = contents (e_buf s1) @ bs" "\<exists>nw. e_seen s2 = e_seen s1 @ nw"
      "heap_le {} (e_heap s1) (e_heap s2)"
      "\<forall>v\<in>set vs. covered (e_seen s2) v" "values_decode env h0 n vs (e_seen s1) (e_seen s2) bs"
      by auto
    have "encode_args env m (v # vs) s = Done () s2" if "m \<ge> n" for m
      using encode_fuel_mono [OF that, of env v s] s1(1) 2(1) that by simp
    moreover have "covered (e_seen s2) v" using 1(2) 2(4) covered_ext by auto
    ultimately show ?thesis
      using 1 2 values_decode_Cons [OF 1(6,2) 2(7)] heap_le_trans [OF 1(5) 2(5)]
      by (intro exI [of _ s2] exI [of _ "b1 @ bs"]) auto
  qed (use Cons.prems in simp)
qed

text \<open>
  \<open>codec_copy h0 g h vs ws\<close>: the values \<open>ws\<close> in heap \<open>h\<close> are a copy of the values \<open>vs\<close> of heap \<open>h0\<close>.
  Some one-to-one pairing \<open>sn\<close>, \<open>ds\<close> of the objects reachable from \<open>vs\<close> with objects that are new
  since \<open>g\<close> maps every value to its copy and the contents of every object to those of its partner;
  nothing that was in \<open>g\<close> has changed.
\<close>

definition codec_copy :: "lua_heap \<Rightarrow> lua_heap \<Rightarrow> lua_heap \<Rightarrow> lua_value list \<Rightarrow> lua_value list \<Rightarrow> bool" where
  "codec_copy h0 g h vs ws \<longleftrightarrow>
     heap_le {} g h \<and>
     (\<exists>sn ds. distinct sn \<and> distinct ds \<and>
        list_all2 (\<lambda>a b. content h0 sn ds h a b \<and> fresh g b) sn ds \<and>
        (\<forall>v\<in>set vs. covered sn v) \<and> ws = map (transl sn ds) vs)"

lemma dstep_copy:
  assumes "dstep {} h0 [] sn d d'" "d_seen d = []" "\<forall>v\<in>set vs. covered sn v"
  shows "codec_copy h0 (d_heap d) (d_heap d') vs (map (transl sn (d_seen d')) vs)"
  using assms by (auto simp: dstep_def codec_copy_def seen_match_def)

text \<open>The round trip for the top values of a stack, with fuel above the bound.\<close>

lemma codec_top_roundtrip:
  assumes hok: "heap_ok env R h0" and ol: "objlen_law env"
    and vs: "\<forall>v\<in>set vs. value_ok R v" and len: "length vs < 2 ^ 31"
  shows "\<exists>data h1. heap_le {} h0 h1 \<and>
    (\<forall>n > enc_cost R h0 []. \<forall>pre. luvL_codec_encode env n (length vs) (pre @ vs) h0 =
       Done (1, take (length pre + 1) (pre @ vs @ [LNil]) @ [LStr data]) h1) \<and>
    (\<forall>g. \<exists>ws h2. codec_copy h0 g h2 vs ws \<and>
      (\<forall>m > enc_cost R h0 []. luvL_codec_decode env m [LStr data] g = Done (int (length vs), LStr data # ws) h2))"
proof -
  let ?w = "word_of_nat (length vs) :: u32" and ?N = "Suc (enc_cost R h0 [])"
  define s0 where "s0 = epush 5 (uleb128 ?w) \<lparr>e_heap = h0, e_buf = null_buf, e_seen = []\<rparr>"
  have s0: "enc_inv R h0 s0" "e_seen s0 = []" "e_heap s0 = h0" "contents (e_buf s0) = uleb128 ?w"
    using hok [unfolded heap_ok_def] by (simp_all add: s0_def enc_inv_def)
  obtain s' bs where s': "\<forall>m\<ge>?N. encode_args env m vs s0 = Done () s'" "enc_inv R h0 s'"
    "contents (e_buf s') = contents (e_buf s0) @ bs" "heap_le {} (e_heap s0) (e_heap s')"
    "\<forall>v\<in>set vs. covered (e_seen s') v" "values_decode env h0 ?N vs (e_seen s0) (e_seen s') bs"
    using encode_args_sim [OF hok ol vs s0(1), of ?N] s0(2) by auto
  define data where "data = uleb128 ?w @ bs"
  have em: "emit (luvL_buf_write_uleb128 ?w) \<lparr>e_heap = h0, e_buf = null_buf, e_seen = []\<rparr> = Done () s0"
    by (simp add: emit_push s0_def)
  have enc: "luvL_codec_encode env n (length vs) (pre @ vs) h0 =
      Done (1, take (length pre + 1) (pre @ vs @ [LNil]) @ [LStr data]) (e_heap s')"
    if "n > enc_cost R h0 []" for n pre
    using s'(1,3) s0(4) em that by (simp add: luvL_codec_encode_def data_def Let_def)
  have sw: "sint ?w = int (length vs)" using len by (simp add: signed_of_nat signed_take_bit_int_eq_self)
  have dec: "\<exists>ws h2. codec_copy h0 g h2 vs ws \<and>
      (\<forall>m > enc_cost R h0 []. luvL_codec_decode env m [LStr data] g = Done (int (length vs), LStr data # ws) h2)" for g
  proof -
    obtain b where b: "luvL_buf_init data null_buf = Some b" using buf_init_ok by blast
    let ?d = "\<lparr>d_heap = g, d_buf = b\<lparr>buf_head := 0\<rparr>, d_seen = []\<rparr>"
    let ?d1 = "dadv (length (uleb128 ?w)) ?d"
    have rd: "reads (d_buf ?d) (uleb128 ?w @ bs)" using buf_init_props(1) [OF b] by (simp add: data_def)
    then have "reads (d_buf ?d1) (bs @ [])" by (simp add: reads_append)
    moreover have "seen_match (d_heap ?d1) [] (d_seen ?d1)" by (simp add: seen_match_def)
    ultimately obtain d2 where d2: "\<forall>m\<ge>?N. decode_values env m (length vs) ?d1 = Done (map (transl (e_seen s') (d_seen d2)) vs) d2"
      "dstep {} h0 [] (e_seen s') ?d1 d2"
      using s'(6) unfolding values_decode_def s0(2) by meson
    have "codec_copy h0 g (d_heap d2) vs (map (transl (e_seen s') (d_seen d2)) vs)"
      using dstep_copy [OF d2(2) _ s'(5)] by simp
    moreover have "luvL_codec_decode env m [LStr data] g =
        Done (int (length vs), LStr data # map (transl (e_seen s') (d_seen d2)) vs) (d_heap d2)"
      if "m > enc_cost R h0 []" for m
      using d2(1) that fetch_uleb [OF rd] sw unfolding codec_decode_run [OF b] by simp
    ultimately show ?thesis by blast
  qed
  show ?thesis using enc dec s'(4) s0(3) by auto
qed

text \<open>C5: Round trip.  Let the tables and functions that can be reached from the arguments be plain: no \<open>__codec\<close>
  hooks, C functions, userdata or coroutines, no upvalue that is \<open>nil\<close>, and lengths that fit 32 bits.
  Whatever else is on the heap, \<open>codec.encode\<close> of the arguments returns one string, and
  \<open>codec.decode\<close> of that string in any Lua state returns as many values, which are a copy of the
  arguments: scalars are equal, and tables and functions come back as new objects with the same
  entries and upvalues in the same order, so that shared references stay shared and cycles stay
  cycles.  The fuel only has to exceed the number of entries and upvalues of the reachable objects
  (plus three per object).\<close>

theorem codec_roundtrip:
  assumes "heap_ok env R h0" "objlen_law env" "\<forall>v\<in>set vs. value_ok R v" "length vs < 2 ^ 31"
  shows "\<exists>data h1. heap_le {} h0 h1 \<and>
    (\<forall>n > enc_cost R h0 []. luv_codec_encode env n vs h0 = Done (1, take 1 (vs @ [LNil]) @ [LStr data]) h1) \<and>
    (\<forall>g. \<exists>ws h2. codec_copy h0 g h2 vs ws \<and>
      (\<forall>m > enc_cost R h0 []. luv_codec_decode env m [LStr data] g = Done (int (length vs), LStr data # ws) h2))"
proof -
  obtain data h1 where le: "heap_le {} h0 h1"
    and e: "\<And>n pre. n > enc_cost R h0 [] \<Longrightarrow> luvL_codec_encode env n (length vs) (pre @ vs) h0 =
      Done (1, take (length pre + 1) (pre @ vs @ [LNil]) @ [LStr data]) h1"
    and d: "\<forall>g. \<exists>ws h2. codec_copy h0 g h2 vs ws \<and>
      (\<forall>m > enc_cost R h0 []. luvL_codec_decode env m [LStr data] g = Done (int (length vs), LStr data # ws) h2)"
    using codec_top_roundtrip [OF assms] by blast
  have "luv_codec_encode env n vs h0 = Done (1, take 1 (vs @ [LNil]) @ [LStr data]) h1" if "n > enc_cost R h0 []" for n
    using e [OF that, of "[]"] by (simp add: luv_codec_encode_def)
  with le d show ?thesis unfolding luv_codec_decode_def by blast
qed

text \<open>A concrete heap: a table that holds itself and a closure whose upvalue is the table.\<close>

definition demo_env :: lua_env where
  "demo_env = \<lparr>env_dump = (\<lambda>p. [[0x1b], [0x4c, word_of_nat p]]),
     env_load = (\<lambda>code. if code = [0x1b, 0x4c, 0] then Some 0 else None),
     env_nups = (\<lambda>p. 1), env_objlen = length,
     env_call = (\<lambda>f v h. Done [v] h),
     env_registry = (\<lambda>_. LNil), env_globals = (\<lambda>_. LNil), env_tostring = (\<lambda>_. [])\<rparr>"

definition demo_heap :: lua_heap where
  "demo_heap = \<lparr>h_table = (\<lambda>_. \<lparr>t_entries = [(LBool True, LTable 0), (LStr [1], LFun 0)], t_codec = LNil\<rparr>),
     h_fun = (\<lambda>_. \<lparr>f_lua = True, f_c = [], f_proto = 0, f_upvals = [LTable 0]\<rparr>),
     h_user = (\<lambda>_. LNil), h_tnext = 1, h_fnext = 1\<rparr>"

definition demo_objects :: "lua_value set" where "demo_objects = {LTable 0, LFun 0}"

lemma demo_ok: "heap_ok demo_env demo_objects demo_heap" "objlen_law demo_env" "calls_return demo_env"
proof -
  have "LNil \<notin> set vs \<Longrightarrow> length (upval_entries i vs) = length vs" for vs i
    by (induction vs arbitrary: i) auto
  then show "objlen_law demo_env" by (simp add: objlen_law_def demo_env_def)
  show "heap_ok demo_env demo_objects demo_heap"
    by (auto simp: demo_objects_def heap_ok_def table_ok_def entry_ok_def closure_ok_def demo_heap_def demo_env_def)
  show "calls_return demo_env" by (simp add: calls_return_def demo_env_def)
qed

lemma demo_cost: "enc_cost demo_objects demo_heap [] = 9"
  by (simp add: enc_cost_def demo_objects_def) (simp add: demo_heap_def)

theorem codec_roundtrip_witness:
  "\<exists>data h1 ws h2. luv_codec_encode demo_env 10 [LTable 0, LFun 0, LTable 0] demo_heap =
      Done (1, [LTable 0, LStr data]) h1 \<and>
    luv_codec_decode demo_env 10 [LStr data] demo_heap = Done (3, LStr data # ws) h2 \<and>
    codec_copy demo_heap demo_heap h2 [LTable 0, LFun 0, LTable 0] ws"
proof -
  have "\<forall>v\<in>set [LTable 0, LFun 0, LTable 0]. value_ok demo_objects v" by (simp add: demo_objects_def)
  from codec_roundtrip [OF demo_ok(1,2) this] show ?thesis
    unfolding demo_cost by (simp del: luv_codec_encode_def) (meson numeral_less_iff semiring_norm)
qed


section \<open>Values that cannot be sent\<close>

text \<open>C21: \<open>encode_value\<close> refuses a coroutine, a userdata whose metatable has no \<open>__codec\<close>, and a C
  function that was not numbered before: it raises the Lua error of the source, with nothing but
  the type byte written.\<close>

theorem encode_rejects:
  assumes "buf_ok (e_buf s)"
  shows "encode_value env (Suc n) (LThread i) s =
      Raise (quoted_msg ''cannot encode a `'' (str ''thread'')) (epush 1 [LUA_TTHREAD] s) \<and>
    (h_user (e_heap s) u = LNil \<longrightarrow>
      encode_value env (Suc n) (LUser u) s = Raise (line_msg ''cannot encode userdata'') (epush 1 [LUA_TUSERDATA] s)) \<and>
    (\<not> f_lua (h_fun (e_heap s) f) \<longrightarrow> LFun f \<notin> set (e_seen s) \<longrightarrow>
      encode_value env (Suc n) (LFun f) s =
      Raise (quoted_msg ''attempt to persist a C function '' (str (CHR 0x27 # ''(null)''))) (epush 1 [LUA_TFUNCTION] s))"
  using assms by (simp add: emit_push flip: seen_ref_None)

definition demo_encoder :: encoder where
  "demo_encoder = \<lparr>e_heap = demo_heap\<lparr>h_fun := (\<lambda>_. \<lparr>f_lua = False, f_c = [], f_proto = 0, f_upvals = []\<rparr>)\<rparr>,
     e_buf = null_buf, e_seen = []\<rparr>"

theorem encode_rejects_witness:
  "encode_value demo_env 1 (LUser 0) demo_encoder =
     Raise (line_msg ''cannot encode userdata'') (epush 1 [LUA_TUSERDATA] demo_encoder) \<and>
   encode_value demo_env 1 (LFun 0) demo_encoder =
     Raise (quoted_msg ''attempt to persist a C function '' (str (CHR 0x27 # ''(null)''))) (epush 1 [LUA_TFUNCTION] demo_encoder)"
  using encode_rejects [of demo_encoder demo_env 0 0 0 0]
  by (simp add: demo_encoder_def demo_heap_def del: encode_value.simps)

lemma upval_entries_append: "upval_entries i (us @ vs) = upval_entries i us @ upval_entries (i + length us) vs"
  by (induction us arbitrary: i) auto

lemma raw_get_absent: "\<forall>e\<in>set es. \<not> raw_eq (fst e) k \<Longrightarrow> raw_get es k = LNil"
  by (induction es rule: entries_ok.induct) auto

text \<open>C22: A Lua function whose last upvalue is \<open>nil\<close> cannot be sent: the table of its upvalues has no
  entry for the last index, so no border of it is the number of upvalues, and the \<open>assert\<close>
  on \<open>lua_objlen\<close> in \<open>encode_value\<close> aborts the process.\<close>

theorem encode_nil_upvalue_aborts:
  assumes b: "buf_ok (e_buf s)" and new: "LFun f \<notin> set (e_seen s)"
    and c: "h_fun (e_heap s) f = \<lparr>f_lua = True, f_c = [], f_proto = p, f_upvals = us @ [LNil]\<rparr>" and len: "length us < 2 ^ 32"
    and lua: "border (upval_entries 1 (us @ [LNil])) (env_objlen env (upval_entries 1 (us @ [LNil])))"
  shows "encode_value env (Suc n) (LFun f) s = Fail Assertion_Failed"
proof -
  let ?es = "upval_entries 1 (us @ [LNil])"
  have "\<not> raw_eq (fst e) (lua_int (Suc (length us)))" if "e \<in> set ?es" for e
    using that upval_entries_keys [of e 1 us] raw_eq_lua_int [of _ "Suc (length us)"] len
    by (auto simp: upval_entries_append)
  then have "raw_get ?es (lua_int (Suc (length us))) = LNil" by (intro raw_get_absent) blast
  with lua have "env_objlen env ?es \<noteq> Suc (length us)" by (auto simp: border_def)
  moreover have "seen_ref (e_seen s) (LFun f) = None" using new by (simp add: seen_ref_None)
  moreover have "buf_ok (e_buf (epush 1 [LUV_CODEC_TVAL] (encoder_seen (LFun f) (epush 1 [LUA_TFUNCTION] s))))"
    using b by (simp add: encoder_seen_def)
  ultimately show ?thesis
    using b c by (simp add: emit_push encode_dump_ok encoder_seen_def new_table_def c_assert_def Let_def)
qed

theorem encode_nil_upvalue_aborts_witness:
  "encode_value demo_env 1 (LFun 0)
     (demo_encoder\<lparr>e_heap := demo_heap\<lparr>h_fun := (\<lambda>_. \<lparr>f_lua = True, f_c = [], f_proto = 0, f_upvals = [LBool True, LNil]\<rparr>)\<rparr>\<rparr>)
   = Fail Assertion_Failed"
proof -
  have len: "length [LBool True] < 2 ^ 32" by simp
  have "border (upval_entries 1 ([LBool True] @ [LNil])) 1"
    using raw_eq_lua_int [of 1 1] raw_eq_lua_int [of 1 "Suc 1"] by (simp add: border_def)
  then have "border (upval_entries 1 ([LBool True] @ [LNil])) (env_objlen demo_env (upval_entries 1 ([LBool True] @ [LNil])))"
    by (simp add: demo_env_def)
  from encode_nil_upvalue_aborts [OF _ _ _ len this,
      of "demo_encoder\<lparr>e_heap := demo_heap\<lparr>h_fun := (\<lambda>_. \<lparr>f_lua = True, f_c = [], f_proto = 0, f_upvals = [LBool True, LNil]\<rparr>)\<rparr>\<rparr>" 0 0 0]
  show ?thesis by (simp add: demo_encoder_def)
qed

section \<open>Objects with a \<open>__codec\<close> hook\<close>

text \<open>
  One table whose \<open>__codec\<close> hook (function 0) returns a decoder function (function 1) and a value;
  the decoder function builds a new table.
\<close>

definition hook_env :: lua_env where
  "hook_env = demo_env\<lparr>env_nups := (\<lambda>p. 0),
     env_call := (\<lambda>f v h. if f = LFun 0 then Done [LFun 1, LBool True] h
                          else (let (t, h) = new_table [] h in Done [LTable t] h))\<rparr>"

definition hook_heap :: lua_heap where
  "hook_heap = \<lparr>h_table = (\<lambda>_. \<lparr>t_entries = [], t_codec = LFun 0\<rparr>),
     h_fun = (\<lambda>_. \<lparr>f_lua = True, f_c = [], f_proto = 0, f_upvals = []\<rparr>),
     h_user = (\<lambda>_. LNil), h_tnext = 1, h_fnext = 2\<rparr>"

definition encoded :: "lua_env \<Rightarrow> nat \<Rightarrow> lua_value list \<Rightarrow> lua_heap \<Rightarrow> bytes" where
  "encoded env n vs h = (case luv_codec_encode env n vs h of Done (_, [_, LStr data]) _ \<Rightarrow> data | _ \<Rightarrow> [])"

definition decoded :: "lua_env \<Rightarrow> nat \<Rightarrow> bytes \<Rightarrow> lua_heap \<Rightarrow> lua_value list" where
  "decoded env n data h = (case luv_codec_decode env n [LStr data] h of Done (_, _ # vs) _ \<Rightarrow> vs | _ \<Rightarrow> [])"

text \<open>A table with a \<open>__codec\<close> hook that is sent twice does not arrive as one object.  The encoder
  gives the table its number before it encodes the decoder function, the decoder after; the
  reference to number 1 then means the function, so the second copy of the table arrives as
  the decoder function.\<close>

lemma codec_hook_wrong_reference:
  "decoded hook_env 9 (encoded hook_env 9 [LTable 0, LTable 0] hook_heap) hook_heap = [LTable 2, LFun 2]"
  by code_simp

end
