(* ===== verification/Ngx_Queue.thy ===== *)
theory Ngx_Queue
  imports Luv_Prelude
begin

text \<open>
  The intrusive queues of \<open>src/src/ngx-queue.h\<close>: circular doubly linked lists threaded through
  \<open>prev\<close>/\<open>next\<close> members of larger structs.  The heap maps every link address to its two pointers;
  each macro is the sequence of pointer writes of the header, in its order.

  \<open>queue s h xs\<close> says that in heap \<open>s\<close> the list headed by the sentinel \<open>h\<close> holds the links
  \<open>xs\<close>, in order.  \<open>qfamily s H Q\<close> says it for a whole set \<open>H\<close> of sentinels at once, with lists
  \<open>Q\<close> that share no link: it is the form the scheduler uses, since its queues live in one heap
  and links move from one to another.
\<close>

section \<open>The heap and the macros\<close>

record 'a ngx_heap =
  prev :: "'a \<Rightarrow> 'a"
  "next" :: "'a \<Rightarrow> 'a"

definition set_prev :: "'a \<Rightarrow> 'a \<Rightarrow> 'a ngx_heap \<Rightarrow> 'a ngx_heap" where
  "set_prev p v s = s\<lparr>prev := (prev s)(p := v)\<rparr>"

definition set_next :: "'a \<Rightarrow> 'a \<Rightarrow> 'a ngx_heap \<Rightarrow> 'a ngx_heap" where
  "set_next p v s = s\<lparr>next := (next s)(p := v)\<rparr>"

lemma set_prev_sel [simp, queue_simps]:
  "prev (set_prev p v s) = (prev s)(p := v)"
  "next (set_prev p v s) = next s"
  by (simp_all add: set_prev_def)

lemma set_next_sel [simp, queue_simps]:
  "prev (set_next p v s) = prev s"
  "next (set_next p v s) = (next s)(p := v)"
  by (simp_all add: set_next_def)

definition ngx_queue_init :: "'a \<Rightarrow> 'a ngx_heap \<Rightarrow> 'a ngx_heap" where
  "ngx_queue_init q s =
     (let s = set_prev q q s
      in set_next q q s)"

definition ngx_queue_empty :: "'a \<Rightarrow> 'a ngx_heap \<Rightarrow> bool" where
  "ngx_queue_empty h s \<longleftrightarrow> h = prev s h"

definition ngx_queue_insert_head :: "'a \<Rightarrow> 'a \<Rightarrow> 'a ngx_heap \<Rightarrow> 'a ngx_heap" where
  "ngx_queue_insert_head h x s =
     (let s = set_next x (next s h) s;
          s = set_prev (next s x) x s;
          s = set_prev x h s
      in set_next h x s)"

definition ngx_queue_insert_tail :: "'a \<Rightarrow> 'a \<Rightarrow> 'a ngx_heap \<Rightarrow> 'a ngx_heap" where
  "ngx_queue_insert_tail h x s =
     (let s = set_prev x (prev s h) s;
          s = set_next (prev s x) x s;
          s = set_next x h s
      in set_prev h x s)"

definition ngx_queue_head :: "'a \<Rightarrow> 'a ngx_heap \<Rightarrow> 'a" where
  "ngx_queue_head h s = next s h"

definition ngx_queue_last :: "'a \<Rightarrow> 'a ngx_heap \<Rightarrow> 'a" where
  "ngx_queue_last h s = prev s h"

definition ngx_queue_remove :: "'a \<Rightarrow> 'a ngx_heap \<Rightarrow> 'a ngx_heap" where
  "ngx_queue_remove x s =
     (let s = set_prev (next s x) (prev s x) s
      in set_next (prev s x) (next s x) s)"

definition ngx_queue_split :: "'a \<Rightarrow> 'a \<Rightarrow> 'a \<Rightarrow> 'a ngx_heap \<Rightarrow> 'a ngx_heap" where
  "ngx_queue_split h q n s =
     (let s = set_prev n (prev s h) s;
          s = set_next (prev s n) n s;
          s = set_next n q s;
          s = set_prev h (prev s q) s;
          s = set_next (prev s h) h s
      in set_prev q n s)"

definition ngx_queue_add :: "'a \<Rightarrow> 'a \<Rightarrow> 'a ngx_heap \<Rightarrow> 'a ngx_heap" where
  "ngx_queue_add h n s =
     (let s = set_next (prev s h) (next s n) s;
          s = set_prev (next s n) (prev s h) s;
          s = set_prev h (prev s n) s
      in set_next (prev s h) h s)"

text \<open>
  \<open>ngx_queue_foreach\<close> visits the links from the head to the sentinel.  On a heap that is not a
  queue it may run forever, which is the value \<open>None\<close> here.
\<close>

partial_function (option) ngx_walk :: "'a ngx_heap \<Rightarrow> 'a \<Rightarrow> 'a \<Rightarrow> 'a list option" where
  "ngx_walk s h q =
     (if q = h then Some []
      else Option.bind (ngx_walk s h (next s q)) (\<lambda>qs. Some (q # qs)))"

definition ngx_queue_foreach :: "'a \<Rightarrow> 'a ngx_heap \<Rightarrow> 'a list option" where
  "ngx_queue_foreach h s = ngx_walk s h (ngx_queue_head h s)"

section \<open>Well-formed queues\<close>

text \<open>A doubly linked segment from \<open>a\<close> through \<open>xs\<close> to \<open>b\<close>.\<close>

fun dlseg :: "'a ngx_heap \<Rightarrow> 'a \<Rightarrow> 'a list \<Rightarrow> 'a \<Rightarrow> bool" where
  "dlseg s a [] b \<longleftrightarrow> next s a = b \<and> prev s b = a"
| "dlseg s a (x # xs) b \<longleftrightarrow> next s a = x \<and> prev s x = a \<and> dlseg s x xs b"

definition queue :: "'a ngx_heap \<Rightarrow> 'a \<Rightarrow> 'a list \<Rightarrow> bool" where
  "queue s h xs \<longleftrightarrow> distinct (h # xs) \<and> dlseg s h xs h"

lemma dlseg_append:
  "dlseg s a (xs @ y # ys) b \<longleftrightarrow> dlseg s a xs y \<and> dlseg s y ys b"
  by (induction xs arbitrary: a) auto

lemma dlseg_set_next:
  "p \<notin> set (a # xs) \<Longrightarrow> dlseg (set_next p v s) a xs b \<longleftrightarrow> dlseg s a xs b"
  by (induction xs arbitrary: a) auto

lemma dlseg_set_prev:
  "p \<notin> set (xs @ [b]) \<Longrightarrow> dlseg (set_prev p v s) a xs b \<longleftrightarrow> dlseg s a xs b"
  by (induction xs arbitrary: a) auto

lemmas dlseg_frame = dlseg_set_next dlseg_set_prev

lemma dlseg_cong:
  assumes "\<forall>p\<in>set (a # xs). next s p = next t p"
    and "\<forall>p\<in>set (xs @ [b]). prev s p = prev t p"
  shows "dlseg s a xs b \<longleftrightarrow> dlseg t a xs b"
  using assms by (induction xs arbitrary: a) auto

lemma dlseg_last: "dlseg s a xs b \<Longrightarrow> prev s b = last (a # xs) \<and> next s (last (a # xs)) = b"
  by (induction xs arbitrary: a) auto

lemma queue_Nil [simp]: "queue s h [] \<longleftrightarrow> next s h = h \<and> prev s h = h"
  by (auto simp: queue_def)

lemma queue_distinct: "queue s h xs \<Longrightarrow> distinct (h # xs)"
  by (simp add: queue_def)

lemma queue_cong:
  assumes "\<forall>p\<in>set (h # xs). next s p = next t p \<and> prev s p = prev t p"
  shows "queue s h xs \<longleftrightarrow> queue t h xs"
  using dlseg_cong [of h xs s t h] assms by (auto simp: queue_def)

lemma queue_empty_iff: "queue s h xs \<Longrightarrow> ngx_queue_empty h s \<longleftrightarrow> xs = []"
  using dlseg_last [of s h xs h]
  by (cases xs rule: rev_cases) (auto simp: queue_def ngx_queue_empty_def)

lemma queue_head_Cons: "queue s h (x # xs) \<Longrightarrow> ngx_queue_head h s = x"
  by (simp add: queue_def ngx_queue_head_def)

lemma queue_last_snoc: "queue s h (xs @ [x]) \<Longrightarrow> ngx_queue_last h s = x"
  using dlseg_last [of s h "xs @ [x]" h] by (simp add: queue_def ngx_queue_last_def)


section \<open>What the macros do to a queue\<close>

lemma queue_init: "queue (ngx_queue_init q s) q []"
  by (simp add: ngx_queue_init_def Let_def)

lemma queue_insert_tail:
  assumes q: "queue s h xs" and x: "x \<notin> set (h # xs)"
  shows "queue (ngx_queue_insert_tail h x s) h (xs @ [x])"
proof (cases xs rule: rev_cases)
  case Nil
  with q x show ?thesis
    by (simp add: queue_def ngx_queue_insert_tail_def Let_def)
next
  case (snoc ys y)
  with q have "dlseg s h ys y" "next s y = h" "prev s h = y" "distinct (h # ys @ [y])"
    by (auto simp: queue_def dlseg_append)
  with snoc x show ?thesis
    by (auto simp: queue_def dlseg_append dlseg_frame ngx_queue_insert_tail_def Let_def)
qed

lemma queue_insert_head:
  assumes q: "queue s h xs" and x: "x \<notin> set (h # xs)"
  shows "queue (ngx_queue_insert_head h x s) h (x # xs)"
proof (cases xs)
  case Nil
  with q x show ?thesis
    by (simp add: queue_def ngx_queue_insert_head_def Let_def)
next
  case (Cons y ys)
  with q have "dlseg s y ys h" "next s h = y" "prev s y = h" "distinct (h # y # ys)"
    by (auto simp: queue_def)
  with Cons x show ?thesis
    by (auto simp: queue_def dlseg_frame ngx_queue_insert_head_def Let_def)
qed

text \<open>The links on either side of an element of a queue.\<close>

lemma queue_neighbours:
  assumes "queue s h (xs @ x # ys)"
  shows "prev s x = last (h # xs)" "next s x = hd (ys @ [h])"
proof -
  from assms have "dlseg s h xs x" "dlseg s x ys h"
    by (simp_all add: queue_def dlseg_append)
  then show "prev s x = last (h # xs)" "next s x = hd (ys @ [h])"
    by (auto dest: dlseg_last) (cases ys; simp)
qed

lemma queue_remove:
  assumes q: "queue s h (xs @ x # ys)"
  shows "queue (ngx_queue_remove x s) h (xs @ ys)"
proof -
  from q have d: "distinct (h # xs @ x # ys)"
    by (simp add: queue_def)
  from q have segs: "dlseg s h xs x" "dlseg s x ys h"
    by (simp_all add: queue_def dlseg_append)
  show ?thesis
  proof (cases xs rule: rev_cases)
    case Nil
    with segs d show ?thesis
      by (cases ys) (auto simp: queue_def ngx_queue_remove_def Let_def dlseg_frame)
  next
    case (snoc us u)
    with segs d show ?thesis
      by (cases ys) (auto simp: queue_def dlseg_append ngx_queue_remove_def Let_def dlseg_frame)
  qed
qed

lemma queue_split:
  assumes q: "queue s h (xs @ q # ys)" and n: "n \<notin> set (h # xs @ q # ys)"
  shows "queue (ngx_queue_split h q n s) h xs"
    and "queue (ngx_queue_split h q n s) n (q # ys)"
proof -
  from q have d: "distinct (h # xs @ q # ys)"
    by (simp add: queue_def)
  from q have segs: "dlseg s h xs q" "dlseg s q ys h"
    by (simp_all add: queue_def dlseg_append)
  from d n segs show "queue (ngx_queue_split h q n s) h xs"
    by (cases xs rule: rev_cases; cases ys rule: rev_cases)
      (auto simp: queue_def dlseg_append ngx_queue_split_def Let_def dlseg_frame)
  from d n segs show "queue (ngx_queue_split h q n s) n (q # ys)"
    by (cases xs rule: rev_cases; cases ys rule: rev_cases)
      (auto simp: queue_def dlseg_append ngx_queue_split_def Let_def dlseg_frame)
qed

lemma queue_add:
  assumes qh: "queue s h xs" and qn: "queue s n ys" and d: "set (h # xs) \<inter> set (n # ys) = {}"
  shows "queue (ngx_queue_add h n s) h (xs @ ys)"
proof (cases ys)
  case Nil
  with qh qn d show ?thesis
    by (cases xs rule: rev_cases)
      (auto simp: queue_def dlseg_append ngx_queue_add_def Let_def dlseg_frame)
next
  case (Cons y zs)
  with qh qn d show ?thesis
    by (cases xs rule: rev_cases; cases zs rule: rev_cases)
      (auto simp: queue_def dlseg_append ngx_queue_add_def Let_def dlseg_frame)
qed

lemma ngx_walk_dlseg:
  assumes "dlseg s a xs h" "h \<notin> set xs"
  shows "ngx_walk s h (next s a) = Some xs"
  using assms
proof (induction xs arbitrary: a)
  case Nil
  then show ?case by (simp add: ngx_walk.simps)
next
  case (Cons x xs)
  then have "ngx_walk s h (next s x) = Some xs" by simp
  with Cons.prems show ?case
    by (auto simp: ngx_walk.simps [of s h x])
qed

lemma queue_foreach: "queue s h xs \<Longrightarrow> ngx_queue_foreach h s = Some xs"
  by (simp add: queue_def ngx_queue_foreach_def ngx_queue_head_def ngx_walk_dlseg)

lemma queue_unique: "queue s h xs \<Longrightarrow> queue s h ys \<Longrightarrow> xs = ys"
  using queue_foreach [of s h xs] queue_foreach [of s h ys] by simp

section \<open>Frames: the links a macro leaves alone\<close>

lemma init_frame:
  "p \<noteq> q \<Longrightarrow> next (ngx_queue_init q s) p = next s p \<and> prev (ngx_queue_init q s) p = prev s p"
  by (simp add: ngx_queue_init_def Let_def)

lemma insert_tail_frame:
  assumes "p \<noteq> h" "p \<noteq> x" "p \<noteq> prev s h"
  shows "next (ngx_queue_insert_tail h x s) p = next s p
    \<and> prev (ngx_queue_insert_tail h x s) p = prev s p"
  using assms by (simp add: ngx_queue_insert_tail_def Let_def)

lemma remove_frame:
  assumes "p \<noteq> prev s x" "p \<noteq> next s x" "x \<noteq> next s x"
  shows "next (ngx_queue_remove x s) p = next s p \<and> prev (ngx_queue_remove x s) p = prev s p"
  using assms by (simp add: ngx_queue_remove_def Let_def)

text \<open>\<open>ngx_queue_remove\<close> (without \<open>NGX_DEBUG\<close>) does not clear the removed link's own pointers.\<close>

lemma remove_keeps_own_links:
  assumes "queue s h (xs @ x # ys)"
  shows "next (ngx_queue_remove x s) x = next s x" "prev (ngx_queue_remove x s) x = prev s x"
proof -
  from assms have "distinct (h # xs @ x # ys)" by (rule queue_distinct)
  with queue_neighbours [OF assms] have "prev s x \<noteq> x" "next s x \<noteq> x"
    by (cases xs rule: rev_cases; cases ys; force)+
  then show "next (ngx_queue_remove x s) x = next s x" "prev (ngx_queue_remove x s) x = prev s x"
    by (simp_all add: ngx_queue_remove_def Let_def)
qed

section \<open>Families of disjoint queues in one heap\<close>

definition qfamily :: "'a ngx_heap \<Rightarrow> 'a set \<Rightarrow> ('a \<Rightarrow> 'a list) \<Rightarrow> bool" where
  "qfamily s H Q \<longleftrightarrow>
     (\<forall>h\<in>H. queue s h (Q h)) \<and>
     (\<forall>h\<in>H. set (Q h) \<inter> H = {}) \<and>
     (\<forall>h\<in>H. \<forall>g\<in>H. h \<noteq> g \<longrightarrow> set (Q h) \<inter> set (Q g) = {})"

text \<open>A link is in use when it is in one of the queues.\<close>

definition linked :: "'a set \<Rightarrow> ('a \<Rightarrow> 'a list) \<Rightarrow> 'a \<Rightarrow> bool" where
  "linked H Q x \<longleftrightarrow> (\<exists>h\<in>H. x \<in> set (Q h))"

lemma qfamily_queue: "qfamily s H Q \<Longrightarrow> h \<in> H \<Longrightarrow> queue s h (Q h)"
  by (simp add: qfamily_def)

lemma qfamily_empty: "qfamily s {} Q"
  by (simp add: qfamily_def)

lemma qfamily_disjoint:
  assumes "qfamily s H Q" "h \<in> H" "g \<in> H" "h \<noteq> g"
  shows "set (h # Q h) \<inter> set (g # Q g) = {}"
  using assms by (auto simp: qfamily_def)

lemma qfamily_init:
  assumes f: "qfamily s H Q" and h: "h \<notin> H" "\<not> linked H Q h"
  shows "qfamily (ngx_queue_init h s) (insert h H) (Q(h := []))"
proof -
  have "queue (ngx_queue_init h s) g (Q g)" if "g \<in> H" for g
  proof -
    have "h \<notin> set (g # Q g)"
      using that h by (auto simp: linked_def)
    then have "\<forall>p\<in>set (g # Q g). next (ngx_queue_init h s) p = next s p
        \<and> prev (ngx_queue_init h s) p = prev s p"
      by (metis init_frame)
    from queue_cong [OF this] show ?thesis
      using f that by (simp add: qfamily_def)
  qed
  with f h queue_init [of h s] show ?thesis
    by (auto simp: qfamily_def linked_def simp del: queue_Nil)
qed

lemma qfamily_subset: "qfamily s H Q \<Longrightarrow> G \<subseteq> H \<Longrightarrow> qfamily s G Q"
  unfolding qfamily_def by blast

lemma qfamily_cong: "(\<And>h. h \<in> H \<Longrightarrow> Q h = P h) \<Longrightarrow> qfamily s H Q = qfamily s H P"
  by (simp add: qfamily_def)

text \<open>Initialising a link that is in no queue changes no queue.\<close>

lemma qfamily_init_link:
  assumes f: "qfamily s H Q" and h: "h \<notin> H" "\<not> linked H Q h"
  shows "qfamily (ngx_queue_init h s) H Q"
proof -
  have "qfamily (ngx_queue_init h s) H (Q(h := []))"
    using qfamily_subset [OF qfamily_init [OF assms]] by blast
  moreover have "(Q(h := [])) g = Q g" if "g \<in> H" for g using h that by auto
  ultimately show ?thesis using qfamily_cong [of H "Q(h := [])" Q] by blast
qed

text \<open>One queue of a family changes: it may lose links and gain links that were not in use.\<close>

lemma qfamily_update:
  assumes f: "qfamily s H Q" and h: "h \<in> H"
    and other: "\<And>g. g \<in> H \<Longrightarrow> g \<noteq> h \<Longrightarrow> queue t g (Q g)" and new: "queue t h ys"
    and ys: "\<And>y. y \<in> set ys \<Longrightarrow> y \<in> set (Q h) \<or> (y \<notin> H \<and> \<not> linked H Q y)"
  shows "qfamily t H (Q(h := ys))"
proof -
  have "set ys \<inter> H = {}"
    using f h ys by (fastforce simp: qfamily_def)
  moreover have "set ys \<inter> set (Q g) = {}" if "g \<in> H" "g \<noteq> h" for g
    using qfamily_disjoint [OF f h that(1)] that ys by (fastforce simp: linked_def)
  ultimately show ?thesis
    using f other new by (auto simp: qfamily_def)
qed

lemma qfamily_insert_tail:
  assumes f: "qfamily s H Q" and h: "h \<in> H" and x: "x \<notin> H" "\<not> linked H Q x"
  shows "qfamily (ngx_queue_insert_tail h x s) H (Q(h := Q h @ [x]))"
proof -
  let ?s = "ngx_queue_insert_tail h x s"
  have qh: "queue s h (Q h)" using f h by (rule qfamily_queue)
  have ph: "prev s h \<in> set (h # Q h)"
    using dlseg_last [of s h "Q h" h] qh last_in_set [of "h # Q h"] by (simp add: queue_def)
  have "queue ?s g (Q g)" if g: "g \<in> H" "g \<noteq> h" for g
  proof -
    have "set (g # Q g) \<inter> set (h # Q h) = {}"
      using f g h by (intro qfamily_disjoint) auto
    moreover have "x \<notin> set (g # Q g)"
      using x g by (auto simp: linked_def)
    ultimately have "\<forall>p\<in>set (g # Q g). next ?s p = next s p \<and> prev ?s p = prev s p"
      using ph insert_tail_frame [of _ h x s] by (metis disjoint_iff list.set_intros(1))
    from queue_cong [OF this] show ?thesis
      using f g by (simp add: qfamily_def)
  qed
  moreover have "queue ?s h (Q h @ [x])"
    using qh h x by (intro queue_insert_tail) (auto simp: linked_def)
  ultimately show ?thesis
    using x by (intro qfamily_update [OF f h]) auto
qed

lemma qfamily_remove:
  assumes f: "qfamily s H Q" and h: "h \<in> H" and Qh: "Q h = xs @ x # ys"
  shows "qfamily (ngx_queue_remove x s) H (Q(h := xs @ ys))"
proof -
  let ?s = "ngx_queue_remove x s"
  have qh: "queue s h (xs @ x # ys)" using qfamily_queue [OF f h] Qh by simp
  have nb: "prev s x \<in> set (h # Q h)" "next s x \<in> set (h # Q h)" "x \<noteq> next s x"
    using queue_neighbours [OF qh] queue_distinct [OF qh] Qh
    by (cases xs rule: rev_cases; cases ys; auto)+
  have "queue ?s g (Q g)" if g: "g \<in> H" "g \<noteq> h" for g
  proof -
    have "set (g # Q g) \<inter> set (h # Q h) = {}"
      using f g h by (intro qfamily_disjoint) auto
    then have "\<forall>p\<in>set (g # Q g). next ?s p = next s p \<and> prev ?s p = prev s p"
      using nb remove_frame [of _ s x] by (metis disjoint_iff)
    from queue_cong [OF this] show ?thesis
      using f g by (simp add: qfamily_def)
  qed
  then show ?thesis
    using queue_remove [OF qh] Qh by (intro qfamily_update [OF f h]) auto
qed

lemma qfamily_pop:
  assumes "qfamily s H Q" "h \<in> H" "Q h = x # xs"
  shows "ngx_queue_head h s = x"
    and "qfamily (ngx_queue_remove x s) H (Q(h := xs))"
    and "\<not> linked H (Q(h := xs)) x"
proof -
  have q: "queue s h (x # xs)" using assms qfamily_queue by fastforce
  then show "ngx_queue_head h s = x" by (rule queue_head_Cons)
  show "qfamily (ngx_queue_remove x s) H (Q(h := xs))"
    using qfamily_remove [of s H Q h "[]" x xs] assms by simp
  have "x \<notin> set xs" using queue_distinct [OF q] by simp
  moreover have "x \<notin> set (Q g)" if "g \<in> H" "g \<noteq> h" for g
    using qfamily_disjoint [OF assms(1) that(1) assms(2) that(2)] assms(3) by auto
  ultimately show "\<not> linked H (Q(h := xs)) x"
    by (auto simp: linked_def)
qed

section \<open>The interface the scheduler uses\<close>

text \<open>
  A heap of disjoint first-in first-out queues.  The scheduler uses the queues only through these
  laws: what initialising, testing, inserting at the tail, reading the head and removing do to
  the family of lists the heap represents.
\<close>

locale link_queues =
  fixes rep :: "'h \<Rightarrow> 'a set \<Rightarrow> ('a \<Rightarrow> 'a list) \<Rightarrow> bool"
    and init :: "'a \<Rightarrow> 'h \<Rightarrow> 'h" and emp :: "'a \<Rightarrow> 'h \<Rightarrow> bool" and ins :: "'a \<Rightarrow> 'a \<Rightarrow> 'h \<Rightarrow> 'h"
    and front :: "'a \<Rightarrow> 'h \<Rightarrow> 'a" and rem :: "'a \<Rightarrow> 'h \<Rightarrow> 'h"
  assumes init_law: "rep s H Q \<Longrightarrow> h \<notin> H \<Longrightarrow> \<not> linked H Q h \<Longrightarrow> rep (init h s) (insert h H) (Q(h := []))"
    and empty_law: "rep s H Q \<Longrightarrow> h \<in> H \<Longrightarrow> emp h s \<longleftrightarrow> Q h = []"
    and insert_law: "rep s H Q \<Longrightarrow> h \<in> H \<Longrightarrow> x \<notin> H \<Longrightarrow> \<not> linked H Q x \<Longrightarrow> rep (ins h x s) H (Q(h := Q h @ [x]))"
    and front_law: "rep s H Q \<Longrightarrow> h \<in> H \<Longrightarrow> Q h = x # xs \<Longrightarrow> front h s = x"
    and remove_law: "rep s H Q \<Longrightarrow> h \<in> H \<Longrightarrow> Q h = xs @ x # ys \<Longrightarrow> rep (rem x s) H (Q(h := xs @ ys))"
    and disjoint_law: "rep s H Q \<Longrightarrow> h \<in> H \<Longrightarrow> g \<in> H \<Longrightarrow> h \<noteq> g \<Longrightarrow> set (Q h) \<inter> set (Q g) = {}"
    and distinct_law: "rep s H Q \<Longrightarrow> h \<in> H \<Longrightarrow> distinct (Q h)"
begin

text \<open>Taking the first link out leaves the rest, and the link in no queue.\<close>

lemma pop:
  assumes "rep s H Q" "h \<in> H" "Q h = x # xs"
  shows "front h s = x" "rep (rem x s) H (Q(h := xs))" "\<not> linked H (Q(h := xs)) x"
proof -
  show "front h s = x" using front_law assms .
  show "rep (rem x s) H (Q(h := xs))" using remove_law [of s H Q h "[]" x xs] assms by simp
  show "\<not> linked H (Q(h := xs)) x"
    using distinct_law [OF assms(1,2)] disjoint_law [OF assms(1,2)] assms(3) by (auto simp: linked_def)
qed

lemma insert_all:
  assumes "rep s H Q" "h \<in> H" "set xs \<inter> H = {}" "\<forall>x\<in>set xs. \<not> linked H Q x" "distinct xs"
  shows "rep (fold (ins h) xs s) H (Q(h := Q h @ xs))"
  using assms
proof (induction xs arbitrary: s Q)
  case (Cons x xs)
  then have r: "rep (ins h x s) H (Q(h := Q h @ [x]))" using insert_law by simp
  have l: "\<forall>y\<in>set xs. \<not> linked H (Q(h := Q h @ [x])) y"
    using Cons.prems by (auto simp: linked_def)
  have "set xs \<inter> H = {}" "distinct xs" using Cons.prems by auto
  from Cons.IH [OF r Cons.prems(2) this(1) l this(2)]
  have "rep (fold (ins h) xs (ins h x s)) H (Q(h := Q h @ [x], h := (Q(h := Q h @ [x])) h @ xs))" .
  then show ?case by (simp only: fun_upd_upd fun_upd_same append_assoc append.simps fold_simps)
qed simp

text \<open>The loop of \<open>luvL_cond_broadcast\<close> and of the end of a fiber, without what they do to each state.\<close>

lemma drain_all:
  assumes "rep s H Q" "h \<in> H"
  shows "\<exists>s'. whileR (\<lambda>(_, s). \<not> emp h s) (\<lambda>(out, s). Done () (out @ [front h s], rem (front h s) s)) (out, s) =
    Done () (out @ Q h, s') \<and> rep s' H (Q(h := []))"
  using assms
proof (induction "Q h" arbitrary: s Q out)
  case Nil
  then show ?case using empty_law by (subst whileR_simps) (auto simp: fun_upd_idem)
next
  case (Cons x xs)
  note p = pop [OF Cons.prems Cons.hyps(2) [symmetric]]
  have "\<not> emp h s" using Cons empty_law by fastforce
  then show ?case
    using Cons.hyps(1) [of "Q(h := xs)" "rem x s" "out @ [x]"] p Cons.prems(2) Cons.hyps(2)
    by (subst whileR_simps) auto
qed

end

interpretation nq: link_queues qfamily ngx_queue_init ngx_queue_empty ngx_queue_insert_tail ngx_queue_head ngx_queue_remove
proof
  fix s :: "'a ngx_heap" and H Q h x xs assume "qfamily s H Q" "h \<in> H" "Q h = x # xs"
  then show "ngx_queue_head h s = x" by (rule qfamily_pop)
next
  fix s :: "'a ngx_heap" and H Q h assume "qfamily s H Q" "h \<in> H"
  then have "queue s h (Q h)" by (rule qfamily_queue)
  then show "ngx_queue_empty h s \<longleftrightarrow> Q h = []" "distinct (Q h)"
    using queue_empty_iff queue_distinct by fastforce+
next
  fix s :: "'a ngx_heap" and H Q h g assume "qfamily s H Q" "h \<in> H" "g \<in> H" "h \<noteq> g"
  then show "set (Q h) \<inter> set (Q g) = {}" by (simp add: qfamily_def)
qed (fact qfamily_init qfamily_insert_tail qfamily_remove)+

section \<open>Properties\<close>

text \<open>C17: Queues are first-in first-out and do not disturb each other: links inserted one by one with
  \<open>ngx_queue_insert_tail\<close> come out in that order, behind what was there, when the queue is
  emptied by \<open>ngx_queue_head\<close> and \<open>ngx_queue_remove\<close> until \<open>ngx_queue_empty\<close>; the loop ends, and
  every other queue of the heap is as before.\<close>

theorem ngx_queue_fifo:
  assumes "qfamily s H Q" "h \<in> H" "set xs \<inter> H = {}" "\<forall>x\<in>set xs. \<not> linked H Q x" "distinct xs"
  shows "\<exists>s'. whileR (\<lambda>(_, s). \<not> ngx_queue_empty h s)
      (\<lambda>(out, s). Done () (out @ [ngx_queue_head h s], ngx_queue_remove (ngx_queue_head h s) s))
      ([], fold (ngx_queue_insert_tail h) xs s) = Done () (Q h @ xs, s') \<and>
    qfamily s' H (Q(h := []))"
  using nq.drain_all [OF nq.insert_all [OF assms] assms(2), of "[]"] by simp

definition demo_queues :: "nat ngx_heap" where
  "demo_queues = ngx_queue_insert_tail 0 5 (ngx_queue_init 1 (ngx_queue_init 0 \<lparr>prev = id, next = id\<rparr>))"

lemma demo_queues_ok: "qfamily demo_queues {0, 1} ((\<lambda>_. [])(0 := [5]))"
  by (simp add: qfamily_def queue_def demo_queues_def ngx_queue_insert_tail_def ngx_queue_init_def Let_def)

theorem ngx_queue_fifo_witness:
  "\<exists>s'. whileR (\<lambda>(_, s). \<not> ngx_queue_empty 0 s)
      (\<lambda>(out, s). Done () (out @ [ngx_queue_head 0 s], ngx_queue_remove (ngx_queue_head 0 s) s))
      ([], fold (ngx_queue_insert_tail 0) [7, 6] demo_queues) = Done () ([5, 7, 6], s') \<and>
    qfamily s' {0, 1} (\<lambda>_. [])"
  using ngx_queue_fifo [OF demo_queues_ok, of 0 "[7, 6]"] by (simp add: linked_def fun_upd_idem)

text \<open>\<open>ngx_queue_split\<close> moves the tail of a queue from a link on to a new sentinel, and
  \<open>ngx_queue_add\<close> of the two queues restores the queue; \<open>ngx_queue_foreach\<close> ends and visits exactly
  the links of each of them, in order.\<close>

lemma ngx_queue_split_add:
  assumes "queue s h (xs @ q # ys)" "n \<notin> set (h # xs @ q # ys)"
  shows "ngx_queue_foreach h (ngx_queue_split h q n s) = Some xs \<and>
    ngx_queue_foreach n (ngx_queue_split h q n s) = Some (q # ys) \<and>
    queue (ngx_queue_add h n (ngx_queue_split h q n s)) h (xs @ q # ys)"
proof -
  note sp = queue_split [OF assms]
  have "set (h # xs) \<inter> set (n # q # ys) = {}" using queue_distinct [OF assms(1)] assms(2) by auto
  from queue_add [OF sp this] show ?thesis using sp by (simp add: queue_foreach)
qed

end
