(* ===== verification/Luv_World.thy ===== *)
theory Luv_World
  imports Ngx_Queue Lua_Value
begin

text \<open>
  The data the scheduler works on (\<open>src/src/luv.h\<close>): states (\<open>luv_state_t\<close>, with the extra members
  of \<open>luv_thread_t\<close>), objects (\<open>luv_object_t\<close>), the queue links embedded in them, and the Lua
  stacks.  Structs are numbered by the order of their allocation.

  What runs Lua code and what libuv does is not part of the repository.  Each \<open>lua_State\<close> is its
  stack and the pending \<open>lua_yield\<close>; the rest of Lua and libuv is the field \<open>w_ext\<close>, of a type
  the model leaves open, and the operations on it are arguments (\<open>vm\<close> and, for the handles, \<open>uv\<close>).
\<close>

section \<open>Structs\<close>

type_synonym sid = nat \<comment> \<open>\<open>luv_state_t*\<close>\<close>
type_synonym oid = nat \<comment> \<open>\<open>luv_object_t*\<close>\<close>
type_synonym lid = nat \<comment> \<open>\<open>lua_State*\<close>\<close>

text \<open>The queue links of the structs, and the sentinels of condition variables.\<close>

datatype qnode =
    SRouse sid
  | SQueue sid
  | SJoin sid
  | SCond sid
  | ORouse oid
  | OQueue oid
  | CondVar nat

datatype luv_state_type = LUV_TFIBER | LUV_TTHREAD

definition LUV_FSTART :: u32 where "LUV_FSTART = flag_bit 0"
definition LUV_FREADY :: u32 where "LUV_FREADY = flag_bit 1"
definition LUV_FMAIN :: u32 where "LUV_FMAIN = flag_bit 2"
definition LUV_FWAIT :: u32 where "LUV_FWAIT = flag_bit 3"
definition LUV_FJOIN :: u32 where "LUV_FJOIN = flag_bit 4"
definition LUV_FDEAD :: u32 where "LUV_FDEAD = flag_bit 5"

text \<open>\<open>luv_state_t\<close>; the last three members are those of \<open>luv_thread_t\<close> and its \<open>async\<close> handle.\<close>

record luv_state =
  st_type :: luv_state_type
  st_flags :: u32
  st_outer :: sid
  st_L :: lid
  st_loop :: nat
  st_data :: bool \<comment> \<open>whether \<open>data\<close> is not null\<close>
  st_curr :: sid
  st_async_sent :: bool
  st_async_ref :: bool

definition LUV_OSTARTED :: u32 where "LUV_OSTARTED = flag_bit 0"
definition LUV_OSTOPPED :: u32 where "LUV_OSTOPPED = flag_bit 1"
definition LUV_OWAITING :: u32 where "LUV_OWAITING = flag_bit 2"
definition LUV_OCLOSING :: u32 where "LUV_OCLOSING = flag_bit 3"
definition LUV_OCLOSED :: u32 where "LUV_OCLOSED = flag_bit 4"
definition LUV_OSHUTDOWN :: u32 where "LUV_OSHUTDOWN = flag_bit 5"

lemmas luv_flag_defs = LUV_FSTART_def LUV_FREADY_def LUV_FMAIN_def LUV_FWAIT_def LUV_FJOIN_def LUV_FDEAD_def
  LUV_OSTARTED_def LUV_OSTOPPED_def LUV_OWAITING_def LUV_OCLOSING_def LUV_OCLOSED_def LUV_OSHUTDOWN_def

text \<open>
  \<open>luv_object_t\<close>; \<open>o_base\<close> is the memory \<open>buf.base\<close> points to.  The members \<open>type\<close> and \<open>ref\<close> are
  never used; the libuv handle in \<open>h\<close> belongs to \<open>w_ext\<close>, but for the file descriptor.
\<close>

record luv_object =
  o_state :: "sid option"
  o_flags :: u32
  o_count :: int
  o_data :: "nat option" \<comment> \<open>\<open>None\<close> is the null pointer\<close>
  o_base :: "bytes option"
  o_len :: int
  o_file :: int \<comment> \<open>\<open>h.file\<close>\<close>

definition luvL_object_is_started :: "luv_object \<Rightarrow> bool" where
  "luvL_object_is_started ob = has_flag (o_flags ob) LUV_OSTARTED"

definition luvL_object_is_stopped :: "luv_object \<Rightarrow> bool" where
  "luvL_object_is_stopped ob = has_flag (o_flags ob) LUV_OSTOPPED"

definition luvL_object_is_waiting :: "luv_object \<Rightarrow> bool" where
  "luvL_object_is_waiting ob = has_flag (o_flags ob) LUV_OWAITING"

definition luvL_object_is_closing :: "luv_object \<Rightarrow> bool" where
  "luvL_object_is_closing ob = has_flag (o_flags ob) LUV_OCLOSING"

definition luvL_object_is_shutdown :: "luv_object \<Rightarrow> bool" where
  "luvL_object_is_shutdown ob = has_flag (o_flags ob) LUV_OSHUTDOWN"

definition luvL_object_is_closed :: "luv_object \<Rightarrow> bool" where
  "luvL_object_is_closed ob = has_flag (o_flags ob) LUV_OCLOSED"

text \<open>What a full userdata holds, and the name of its metatable (the empty string: none).\<close>

datatype ptr = PState sid | PObject oid | PCond nat

record udata =
  u_meta :: string
  u_ptr :: ptr

definition LUV_FIBER_T :: string where "LUV_FIBER_T = ''luv.fiber''"
definition LUV_THREAD_T :: string where "LUV_THREAD_T = ''luv.thread''"
definition LUV_COND_T :: string where "LUV_COND_T = ''luv.cond''"
definition LUV_TIMER_T :: string where "LUV_TIMER_T = ''luv.timer''"
definition LUV_IDLE_T :: string where "LUV_IDLE_T = ''luv.idle''"
definition LUV_FILE_T :: string where "LUV_FILE_T = ''luv.file''"
definition LUV_PIPE_T :: string where "LUV_PIPE_T = ''luv.pipe''"
definition LUV_PROCESS_T :: string where "LUV_PROCESS_T = ''luv.process''"
definition LUV_NET_TCP_T :: string where "LUV_NET_TCP_T = ''luv.net.tcp''"
definition LUV_NET_UDP_T :: string where "LUV_NET_UDP_T = ''luv.net.udp''"
definition LUV_ZMQ_CTX_T :: string where "LUV_ZMQ_CTX_T = ''luv.zmq.ctx''"
definition LUV_ZMQ_SOCKET_T :: string where "LUV_ZMQ_SOCKET_T = ''luv.zmq.socket''"

text \<open>The metatables \<open>luaopen_luv\<close> registers; \<open>luaL_getmetatable\<close> of any other name is \<open>nil\<close>.\<close>

definition luv_classes :: "string list" where
  "luv_classes = [LUV_THREAD_T, LUV_FIBER_T, LUV_TIMER_T, LUV_IDLE_T, LUV_FILE_T, LUV_PIPE_T, LUV_NET_TCP_T,
     LUV_PROCESS_T, LUV_ZMQ_CTX_T, LUV_ZMQ_SOCKET_T]"

definition metatable :: "string \<Rightarrow> string" where
  "metatable name = (if name \<in> set luv_classes then name else [])"

record 'x world =
  w_queue :: "qnode ngx_heap"
  w_state :: "sid \<Rightarrow> luv_state"
  w_nstate :: nat
  w_object :: "oid \<Rightarrow> luv_object"
  w_nobject :: nat
  w_ncond :: nat
  w_stack :: "lid \<Rightarrow> lua_value list"
  w_yield :: "lid \<Rightarrow> int option" \<comment> \<open>the last \<open>lua_yield\<close> and its number of results\<close>
  w_nlua :: nat
  w_registry :: "lid \<Rightarrow> sid option" \<comment> \<open>the state registered for a coroutine or main thread\<close>
  w_udata :: "nat \<Rightarrow> udata option"
  w_nudata :: nat
  w_heap :: lua_heap
  w_names :: "lid \<Rightarrow> bytes \<Rightarrow> lua_value" \<comment> \<open>the string keys of the registry of a Lua state\<close>
  w_main :: bool \<comment> \<open>\<open>MAIN_INITIALIZED\<close>\<close>
  w_ext :: 'x

type_synonym ('x, 'a) luv = "'x world \<Rightarrow> (lua_value, 'a, 'x world) res"

text \<open>\<open>lua_resume\<close> ends with the coroutine yielding, returning, or failing with a message.\<close>

datatype resume_status = LUA_YIELD | LUA_OK | LUA_ERR

text \<open>Running Lua code (\<open>lua_resume\<close>) and one turn of the event loop (\<open>uv_run_once\<close>).\<close>

record 'x vm =
  vm_resume :: "lid \<Rightarrow> int \<Rightarrow> ('x, resume_status) luv"
  vm_run_once :: "nat \<Rightarrow> ('x, bool) luv"

section \<open>Access to the world\<close>

definition upd_state :: "sid \<Rightarrow> (luv_state \<Rightarrow> luv_state) \<Rightarrow> 'x world \<Rightarrow> 'x world" where
  "upd_state s f w = w\<lparr>w_state := (w_state w)(s := f (w_state w s))\<rparr>"

definition upd_object :: "oid \<Rightarrow> (luv_object \<Rightarrow> luv_object) \<Rightarrow> 'x world \<Rightarrow> 'x world" where
  "upd_object o' f w = w\<lparr>w_object := (w_object w)(o' := f (w_object w o'))\<rparr>"

definition upd_queue :: "(qnode ngx_heap \<Rightarrow> qnode ngx_heap) \<Rightarrow> 'x world \<Rightarrow> 'x world" where
  "upd_queue f w = w\<lparr>w_queue := f (w_queue w)\<rparr>"

definition upd_stack :: "lid \<Rightarrow> (lua_value list \<Rightarrow> lua_value list) \<Rightarrow> 'x world \<Rightarrow> 'x world" where
  "upd_stack L f w = w\<lparr>w_stack := (w_stack w)(L := f (w_stack w L))\<rparr>"

definition state_flag :: "u32 \<Rightarrow> sid \<Rightarrow> 'x world \<Rightarrow> bool" where
  "state_flag f s w = has_flag (st_flags (w_state w s)) f"

definition raise_flag :: "u32 \<Rightarrow> sid \<Rightarrow> 'x world \<Rightarrow> 'x world" where
  "raise_flag f s = upd_state s (\<lambda>st. st\<lparr>st_flags := set_flag f (st_flags st)\<rparr>)"

definition drop_flag :: "u32 \<Rightarrow> sid \<Rightarrow> 'x world \<Rightarrow> 'x world" where
  "drop_flag f s = upd_state s (\<lambda>st. st\<lparr>st_flags := clear_flag f (st_flags st)\<rparr>)"

abbreviation is_empty :: "qnode \<Rightarrow> 'x world \<Rightarrow> bool" where
  "is_empty h w \<equiv> ngx_queue_empty h (w_queue w)"

text \<open>\<open>ngx_queue_data(q, type, member)\<close>: the struct a link is embedded in.\<close>

definition queue_data :: "(qnode \<Rightarrow> sid option) \<Rightarrow> qnode \<Rightarrow> ('x, sid) luv" where
  "queue_data member q w = (case member q of None \<Rightarrow> Fail Wrong_Struct | Some s \<Rightarrow> Done s w)"

definition of_queue :: "qnode \<Rightarrow> sid option" where
  "of_queue q = (case q of SQueue s \<Rightarrow> Some s | _ \<Rightarrow> None)"

definition of_join :: "qnode \<Rightarrow> sid option" where
  "of_join q = (case q of SJoin s \<Rightarrow> Some s | _ \<Rightarrow> None)"

definition of_cond :: "qnode \<Rightarrow> sid option" where
  "of_cond q = (case q of SCond s \<Rightarrow> Some s | _ \<Rightarrow> None)"

section \<open>The Lua stack\<close>

definition lua_gettop :: "lid \<Rightarrow> 'x world \<Rightarrow> nat" where
  "lua_gettop L w = length (w_stack w L)"

definition lua_push :: "lid \<Rightarrow> lua_value \<Rightarrow> 'x world \<Rightarrow> 'x world" where
  "lua_push L v = upd_stack L (\<lambda>st. st @ [v])"

definition lua_settop :: "lid \<Rightarrow> nat \<Rightarrow> 'x world \<Rightarrow> 'x world" where
  "lua_settop L n = upd_stack L (adjust n)"

text \<open>\<open>lua_xmove(a, b, n)\<close> for two different stacks.\<close>

definition lua_xmove :: "lid \<Rightarrow> lid \<Rightarrow> nat \<Rightarrow> 'x world \<Rightarrow> 'x world" where
  "lua_xmove a b n w =
     (let st = w_stack w a; k = length st - n
      in upd_stack b (\<lambda>st'. st' @ drop k st) (upd_stack a (take k) w))"

definition lua_arg :: "lid \<Rightarrow> nat \<Rightarrow> 'x world \<Rightarrow> lua_value option" where
  "lua_arg L i w = (if 0 < i \<and> i \<le> lua_gettop L w then Some (w_stack w L ! (i - 1)) else None)"

definition lua_isnoneornil :: "lid \<Rightarrow> nat \<Rightarrow> 'x world \<Rightarrow> bool" where
  "lua_isnoneornil L i w \<longleftrightarrow> lua_arg L i w = None \<or> lua_arg L i w = Some LNil"

definition lua_touserdata :: "lid \<Rightarrow> nat \<Rightarrow> 'x world \<Rightarrow> ptr option" where
  "lua_touserdata L i w = (case lua_arg L i w of
       Some (LUser u) \<Rightarrow> map_option u_ptr (w_udata w u)
     | _ \<Rightarrow> None)"

definition luaL_checkudata :: "lid \<Rightarrow> nat \<Rightarrow> string \<Rightarrow> ('x, ptr) luv" where
  "luaL_checkudata L i tname w = (case lua_arg L i w of
       Some (LUser u) \<Rightarrow> (case w_udata w u of
           Some d \<Rightarrow> if u_meta d = tname then Done (u_ptr d) w else Raise (lua_msg (tname @ '' expected'')) w
         | None \<Rightarrow> Raise (lua_msg (tname @ '' expected'')) w)
     | _ \<Rightarrow> Raise (lua_msg (tname @ '' expected'')) w)"

text \<open>Casts of a userdata pointer.\<close>

definition as_state :: "ptr option \<Rightarrow> ('x, sid) luv" where
  "as_state p w = (case p of
       None \<Rightarrow> Fail Null_Deref
     | Some (PState s) \<Rightarrow> Done s w
     | Some _ \<Rightarrow> Fail Wrong_Struct)"

definition as_object :: "ptr option \<Rightarrow> ('x, oid) luv" where
  "as_object p w = (case p of
       None \<Rightarrow> Fail Null_Deref
     | Some (PObject s) \<Rightarrow> Done s w
     | Some _ \<Rightarrow> Fail Wrong_Struct)"

definition as_cond :: "ptr option \<Rightarrow> ('x, nat) luv" where
  "as_cond p w = (case p of
       None \<Rightarrow> Fail Null_Deref
     | Some (PCond c) \<Rightarrow> Done c w
     | Some _ \<Rightarrow> Fail Wrong_Struct)"

text \<open>\<open>lua_newuserdata\<close> with \<open>lua_setmetatable\<close>: the new value.\<close>

definition new_udata :: "string \<Rightarrow> ptr \<Rightarrow> 'x world \<Rightarrow> lua_value \<times> 'x world" where
  "new_udata meta p w =
     (LUser (w_nudata w),
      w\<lparr>w_udata := (w_udata w)(w_nudata w \<mapsto> \<lparr>u_meta = meta, u_ptr = p\<rparr>), w_nudata := Suc (w_nudata w)\<rparr>)"

text \<open>\<open>lua_yield\<close> in a C function: it records the yield and answers \<open>-1\<close>, which the function returns.\<close>

definition lua_yield :: "lid \<Rightarrow> int \<Rightarrow> ('x, int) luv" where
  "lua_yield L nres w = Done (- 1) (w\<lparr>w_yield := (w_yield w)(L \<mapsto> nres)\<rparr>)"

section \<open>Reading after writing\<close>

lemma upd_state_sel [simp]:
  "w_state (upd_state s f w) = (w_state w)(s := f (w_state w s))"
  "w_queue (upd_state s f w) = w_queue w" "w_nstate (upd_state s f w) = w_nstate w"
  "w_object (upd_state s f w) = w_object w" "w_nobject (upd_state s f w) = w_nobject w"
  "w_ncond (upd_state s f w) = w_ncond w" "w_stack (upd_state s f w) = w_stack w"
  "w_yield (upd_state s f w) = w_yield w" "w_nlua (upd_state s f w) = w_nlua w"
  "w_registry (upd_state s f w) = w_registry w" "w_udata (upd_state s f w) = w_udata w"
  "w_nudata (upd_state s f w) = w_nudata w" "w_heap (upd_state s f w) = w_heap w" "w_names (upd_state s f w) = w_names w" "w_main (upd_state s f w) = w_main w" "w_ext (upd_state s f w) = w_ext w"
  by (simp_all add: upd_state_def)

lemma upd_object_sel [simp]:
  "w_object (upd_object s f w) = (w_object w)(s := f (w_object w s))"
  "w_queue (upd_object s f w) = w_queue w" "w_nstate (upd_object s f w) = w_nstate w"
  "w_state (upd_object s f w) = w_state w" "w_nobject (upd_object s f w) = w_nobject w"
  "w_ncond (upd_object s f w) = w_ncond w" "w_stack (upd_object s f w) = w_stack w"
  "w_yield (upd_object s f w) = w_yield w" "w_nlua (upd_object s f w) = w_nlua w"
  "w_registry (upd_object s f w) = w_registry w" "w_udata (upd_object s f w) = w_udata w"
  "w_nudata (upd_object s f w) = w_nudata w" "w_heap (upd_object s f w) = w_heap w" "w_names (upd_object s f w) = w_names w" "w_main (upd_object s f w) = w_main w" "w_ext (upd_object s f w) = w_ext w"
  by (simp_all add: upd_object_def)

lemma upd_queue_sel [simp]:
  "w_queue (upd_queue f w) = f (w_queue w)"
  "w_state (upd_queue f w) = w_state w" "w_nstate (upd_queue f w) = w_nstate w"
  "w_object (upd_queue f w) = w_object w" "w_nobject (upd_queue f w) = w_nobject w"
  "w_ncond (upd_queue f w) = w_ncond w" "w_stack (upd_queue f w) = w_stack w"
  "w_yield (upd_queue f w) = w_yield w" "w_nlua (upd_queue f w) = w_nlua w"
  "w_registry (upd_queue f w) = w_registry w" "w_udata (upd_queue f w) = w_udata w"
  "w_nudata (upd_queue f w) = w_nudata w" "w_heap (upd_queue f w) = w_heap w" "w_names (upd_queue f w) = w_names w" "w_main (upd_queue f w) = w_main w" "w_ext (upd_queue f w) = w_ext w"
  by (simp_all add: upd_queue_def)

lemma upd_stack_sel [simp]:
  "w_stack (upd_stack L f w) = (w_stack w)(L := f (w_stack w L))"
  "w_state (upd_stack L f w) = w_state w" "w_nstate (upd_stack L f w) = w_nstate w"
  "w_object (upd_stack L f w) = w_object w" "w_nobject (upd_stack L f w) = w_nobject w"
  "w_ncond (upd_stack L f w) = w_ncond w" "w_queue (upd_stack L f w) = w_queue w"
  "w_yield (upd_stack L f w) = w_yield w" "w_nlua (upd_stack L f w) = w_nlua w"
  "w_registry (upd_stack L f w) = w_registry w" "w_udata (upd_stack L f w) = w_udata w"
  "w_nudata (upd_stack L f w) = w_nudata w" "w_heap (upd_stack L f w) = w_heap w" "w_names (upd_stack L f w) = w_names w" "w_main (upd_stack L f w) = w_main w" "w_ext (upd_stack L f w) = w_ext w"
  by (simp_all add: upd_stack_def)

text \<open>Raising and dropping a flag changes one flag word.\<close>

lemma flag_frame [simp]:
  "st_type (w_state (raise_flag f s w) x) = st_type (w_state w x)"
  "st_outer (w_state (raise_flag f s w) x) = st_outer (w_state w x)"
  "st_L (w_state (raise_flag f s w) x) = st_L (w_state w x)"
  "st_loop (w_state (raise_flag f s w) x) = st_loop (w_state w x)"
  "st_curr (w_state (raise_flag f s w) x) = st_curr (w_state w x)"
  "w_queue (raise_flag f s w) = w_queue w" "w_nstate (raise_flag f s w) = w_nstate w"
  "w_nlua (raise_flag f s w) = w_nlua w" "w_registry (raise_flag f s w) = w_registry w"
  "w_stack (raise_flag f s w) = w_stack w" "w_object (raise_flag f s w) = w_object w"
  "w_yield (raise_flag f s w) = w_yield w" "w_udata (raise_flag f s w) = w_udata w"
  "w_ext (raise_flag f s w) = w_ext w" "w_ncond (raise_flag f s w) = w_ncond w"
  "w_nobject (raise_flag f s w) = w_nobject w" "w_heap (raise_flag f s w) = w_heap w" "w_names (raise_flag f s w) = w_names w" "w_main (raise_flag f s w) = w_main w" "w_nudata (raise_flag f s w) = w_nudata w"
  "st_type (w_state (drop_flag f s w) x) = st_type (w_state w x)"
  "st_outer (w_state (drop_flag f s w) x) = st_outer (w_state w x)"
  "st_L (w_state (drop_flag f s w) x) = st_L (w_state w x)"
  "st_loop (w_state (drop_flag f s w) x) = st_loop (w_state w x)"
  "st_curr (w_state (drop_flag f s w) x) = st_curr (w_state w x)"
  "w_queue (drop_flag f s w) = w_queue w" "w_nstate (drop_flag f s w) = w_nstate w"
  "w_nlua (drop_flag f s w) = w_nlua w" "w_registry (drop_flag f s w) = w_registry w"
  "w_stack (drop_flag f s w) = w_stack w" "w_object (drop_flag f s w) = w_object w"
  "w_yield (drop_flag f s w) = w_yield w" "w_udata (drop_flag f s w) = w_udata w"
  "w_ext (drop_flag f s w) = w_ext w" "w_ncond (drop_flag f s w) = w_ncond w"
  "w_nobject (drop_flag f s w) = w_nobject w" "w_heap (drop_flag f s w) = w_heap w" "w_names (drop_flag f s w) = w_names w" "w_main (drop_flag f s w) = w_main w" "w_nudata (drop_flag f s w) = w_nudata w"
  by (simp_all add: raise_flag_def drop_flag_def)

lemma state_flag_upd [simp]:
  "state_flag LUV_FREADY x (raise_flag LUV_FREADY s w) \<longleftrightarrow> x = s \<or> state_flag LUV_FREADY x w"
  "state_flag LUV_FDEAD x (raise_flag LUV_FREADY s w) \<longleftrightarrow> state_flag LUV_FDEAD x w"
  "state_flag LUV_FSTART x (raise_flag LUV_FREADY s w) \<longleftrightarrow> state_flag LUV_FSTART x w"
  "state_flag LUV_FREADY x (raise_flag LUV_FDEAD s w) \<longleftrightarrow> state_flag LUV_FREADY x w"
  "state_flag LUV_FDEAD x (raise_flag LUV_FDEAD s w) \<longleftrightarrow> x = s \<or> state_flag LUV_FDEAD x w"
  "state_flag LUV_FSTART x (raise_flag LUV_FDEAD s w) \<longleftrightarrow> state_flag LUV_FSTART x w"
  "state_flag LUV_FREADY x (raise_flag LUV_FSTART s w) \<longleftrightarrow> state_flag LUV_FREADY x w"
  "state_flag LUV_FDEAD x (raise_flag LUV_FSTART s w) \<longleftrightarrow> state_flag LUV_FDEAD x w"
  "state_flag LUV_FSTART x (raise_flag LUV_FSTART s w) \<longleftrightarrow> x = s \<or> state_flag LUV_FSTART x w"
  "state_flag LUV_FREADY x (drop_flag LUV_FREADY s w) \<longleftrightarrow> x \<noteq> s \<and> state_flag LUV_FREADY x w"
  "state_flag LUV_FDEAD x (drop_flag LUV_FREADY s w) \<longleftrightarrow> state_flag LUV_FDEAD x w"
  "state_flag LUV_FSTART x (drop_flag LUV_FREADY s w) \<longleftrightarrow> state_flag LUV_FSTART x w"
  by (auto simp: state_flag_def raise_flag_def drop_flag_def luv_flag_defs flag_simps)

lemma state_flag_frame [simp]:
  "state_flag f s (upd_queue g w) = state_flag f s w"
  "state_flag f s (upd_stack L h w) = state_flag f s w"
  "state_flag f s (upd_object ob k w) = state_flag f s w"
  by (simp_all add: state_flag_def)

end
