(* ===== verification/Luv_Sched.thy ===== *)
theory Luv_Sched
  imports Luv_World
begin

text \<open>
  The scheduler: \<open>src/src/luv_state.c\<close>, \<open>src/src/luv_fiber.c\<close> and the part of
  \<open>src/src/luv_thread.c\<close> that runs fibers.  A thread keeps the fibers that are ready in its queue
  \<open>rouse\<close> and resumes them in order (\<open>luvL_thread_once\<close>); a fiber keeps the states that join it in
  its own queue \<open>rouse\<close>.
\<close>

section \<open>Finding the current state and thread\<close>

definition luvL_state_is_thread :: "sid \<Rightarrow> 'x world \<Rightarrow> bool" where
  "luvL_state_is_thread s w \<longleftrightarrow> st_type (w_state w s) = LUV_TTHREAD"

definition luvL_state_in_thread :: "sid \<Rightarrow> 'x world \<Rightarrow> bool" where
  "luvL_state_in_thread s w \<longleftrightarrow> st_type (w_state w s) = LUV_TTHREAD"

text \<open>The registry entry of the running \<open>lua_State\<close>; \<open>None\<close> is the null pointer.\<close>

definition luvL_state_self :: "lid \<Rightarrow> 'x world \<Rightarrow> sid option" where
  "luvL_state_self L w = w_registry w L"

text \<open>\<open>while (self->type != LUV_TTHREAD) self = self->outer\<close>.\<close>

partial_function (option) outer_thread :: "(sid \<Rightarrow> luv_state) \<Rightarrow> sid \<Rightarrow> sid option" where
  "outer_thread st s =
     (if st_type (st s) = LUV_TTHREAD then Some s else outer_thread st (st_outer (st s)))"

declare outer_thread.simps [code]

definition to_thread :: "sid \<Rightarrow> ('x, sid) luv" where
  "to_thread s w = (case outer_thread (w_state w) s of None \<Rightarrow> Fail No_Return | Some t \<Rightarrow> Done t w)"

definition luvL_thread_self :: "lid \<Rightarrow> ('x, sid) luv" where
  "luvL_thread_self L w = bindR (deref (luvL_state_self L w) w) (\<lambda>s w. to_thread s w)"

definition luvL_state_is_active :: "sid \<Rightarrow> ('x, bool) luv" where
  "luvL_state_is_active s w =
     bindR (luvL_thread_self (st_L (w_state w s)) w) (\<lambda>t w. Done (s = st_curr (w_state w t)) w)"

section \<open>Making states ready\<close>

definition uv_async_send :: "sid \<Rightarrow> 'x world \<Rightarrow> 'x world" where
  "uv_async_send t = upd_state t (\<lambda>st. st\<lparr>st_async_sent := True\<rparr>)"

definition uv_ref_async :: "sid \<Rightarrow> 'x world \<Rightarrow> 'x world" where
  "uv_ref_async t = upd_state t (\<lambda>st. st\<lparr>st_async_ref := True\<rparr>)"

text \<open>\<open>_async_cb\<close> only interrupts the event loop.\<close>

definition async_cb :: "sid \<Rightarrow> ('x, unit) luv" where
  "async_cb t w = Done () w"

definition luvL_thread_ready :: "sid \<Rightarrow> ('x, unit) luv" where
  "luvL_thread_ready self w =
     (if \<not> state_flag LUV_FREADY self w
      then Done () (uv_async_send self (raise_flag LUV_FREADY self w))
      else Done () w)"

definition luvL_thread_enqueue :: "sid \<Rightarrow> sid \<Rightarrow> 'x world \<Rightarrow> 'x world" where
  "luvL_thread_enqueue self fiber w =
     (let need_async = is_empty (SRouse self) w;
          w = upd_queue (ngx_queue_insert_tail (SRouse self) (SQueue fiber)) w
      in if need_async then uv_ref_async self (uv_async_send self w) else w)"

definition luvL_fiber_ready :: "sid \<Rightarrow> ('x, unit) luv" where
  "luvL_fiber_ready fiber w =
     (if \<not> state_flag LUV_FREADY fiber w
      then let w = raise_flag LUV_FREADY fiber w
           in bindR (luvL_thread_self (st_L (w_state w fiber)) w)
                (\<lambda>t w. Done () (luvL_thread_enqueue t fiber w))
      else Done () w)"

definition luvL_state_ready :: "sid \<Rightarrow> ('x, unit) luv" where
  "luvL_state_ready s w =
     (if st_type (w_state w s) = LUV_TTHREAD then luvL_thread_ready s w else luvL_fiber_ready s w)"

lemma async_frame [simp]:
  "st_type (w_state (uv_async_send t w) x) = st_type (w_state w x)"
  "st_flags (w_state (uv_async_send t w) x) = st_flags (w_state w x)"
  "st_outer (w_state (uv_async_send t w) x) = st_outer (w_state w x)"
  "st_L (w_state (uv_async_send t w) x) = st_L (w_state w x)"
  "st_curr (w_state (uv_async_send t w) x) = st_curr (w_state w x)"
  "st_type (w_state (uv_ref_async t w) x) = st_type (w_state w x)"
  "st_flags (w_state (uv_ref_async t w) x) = st_flags (w_state w x)"
  "st_outer (w_state (uv_ref_async t w) x) = st_outer (w_state w x)"
  "st_L (w_state (uv_ref_async t w) x) = st_L (w_state w x)"
  "st_curr (w_state (uv_ref_async t w) x) = st_curr (w_state w x)"
  "w_queue (uv_async_send t w) = w_queue w" "w_nstate (uv_async_send t w) = w_nstate w"
  "w_nlua (uv_async_send t w) = w_nlua w" "w_registry (uv_async_send t w) = w_registry w"
  "w_stack (uv_async_send t w) = w_stack w" "w_ext (uv_async_send t w) = w_ext w"
  "w_object (uv_async_send t w) = w_object w" "w_yield (uv_async_send t w) = w_yield w"
  "w_ext (uv_ref_async t w) = w_ext w" "w_object (uv_ref_async t w) = w_object w"
  "w_yield (uv_ref_async t w) = w_yield w"
  "w_ncond (uv_async_send t w) = w_ncond w" "w_nobject (uv_async_send t w) = w_nobject w"
  "w_ncond (uv_ref_async t w) = w_ncond w" "w_nobject (uv_ref_async t w) = w_nobject w"
  "w_queue (uv_ref_async t w) = w_queue w" "w_nstate (uv_ref_async t w) = w_nstate w"
  "w_nlua (uv_ref_async t w) = w_nlua w" "w_registry (uv_ref_async t w) = w_registry w"
  "w_stack (uv_ref_async t w) = w_stack w"
  "state_flag f s (uv_async_send t w) = state_flag f s w"
  "state_flag f s (uv_ref_async t w) = state_flag f s w"
  by (simp_all add: uv_async_send_def uv_ref_async_def state_flag_def)

section \<open>Fibers\<close>

definition luvL_fiber_close :: "sid \<Rightarrow> 'x world \<Rightarrow> 'x world" where
  "luvL_fiber_close fiber w =
     (if state_flag LUV_FDEAD fiber w then w
      else raise_flag LUV_FDEAD fiber
             (w\<lparr>w_registry := (w_registry w)(st_L (w_state w fiber) := None)\<rparr>))"

definition luvL_fiber_yield :: "sid \<Rightarrow> int \<Rightarrow> ('x, int) luv" where
  "luvL_fiber_yield self narg w =
     bindR (luvL_fiber_ready self w) (\<lambda>_ w. lua_yield (st_L (w_state w self)) narg w)"

definition luvL_fiber_suspend :: "sid \<Rightarrow> ('x, int) luv" where
  "luvL_fiber_suspend self w =
     (if state_flag LUV_FREADY self w
      then let w = drop_flag LUV_FREADY self w
           in bindR (luvL_state_is_active self w) (\<lambda>active w.
                let w = (if \<not> active then upd_queue (ngx_queue_remove (SQueue self)) w else w);
                    L = st_L (w_state w self)
                in lua_yield L (int (lua_gettop L w)) w)
      else Done 0 w)"

definition luvL_fiber_resume :: "'x vm \<Rightarrow> sid \<Rightarrow> int \<Rightarrow> ('x, resume_status) luv" where
  "luvL_fiber_resume vm self narg w =
     bindR (luvL_fiber_ready self w) (\<lambda>_ w. vm_resume vm (st_L (w_state w self)) narg w)"

definition luvL_fiber_create :: "sid \<Rightarrow> nat \<Rightarrow> ('x, sid) luv" where
  "luvL_fiber_create outer narg w =
     (let L = st_L (w_state w outer); st = w_stack w L; k = length st - narg
      in if \<not> (narg \<noteq> 0 \<and> k < length st \<and> is_fun (st ! k))
         then Raise (lua_msg ''function expected'') w
         else
           let L1 = w_nlua w; self = w_nstate w;
               w = w\<lparr>w_nlua := Suc L1, w_stack := (w_stack w)(L1 := []), w_yield := (w_yield w)(L1 := None)\<rparr>;
               w = lua_xmove L L1 narg w;
               (u, w) = new_udata LUV_FIBER_T (PState self) (w\<lparr>w_nstate := Suc self\<rparr>);
               w = lua_push L u (w\<lparr>w_registry := (w_registry w)(L1 \<mapsto> self)\<rparr>)
           in bindR (to_thread outer w) (\<lambda>outer w.
                let w = upd_state self (\<lambda>_. \<lparr>st_type = LUV_TFIBER, st_flags = 0, st_outer = outer, st_L = L1,
                          st_loop = st_loop (w_state w outer), st_data = False,
                          st_curr = self, st_async_sent = False, st_async_ref = False\<rparr>) w;
                    w = upd_queue (ngx_queue_init (SRouse self)) w;
                    w = upd_queue (ngx_queue_init (SQueue self)) w
                in Done self w))"

definition luv_new_fiber :: "lid \<Rightarrow> ('x, int) luv" where
  "luv_new_fiber L w =
     bindR (deref (luvL_state_self L w) w) (\<lambda>outer w.
     bindR (luvL_fiber_create outer (lua_gettop L w) w) (\<lambda>_ w.
     bindR (c_assert (lua_gettop L w = 1) w) (\<lambda>_ w. Done 1 w)))"

text \<open>\<open>luvL_state_xcopy\<close>: copy the whole stack of one state to another state.\<close>

definition luvL_state_xcopy :: "sid \<Rightarrow> sid \<Rightarrow> 'x world \<Rightarrow> int \<times> 'x world" where
  "luvL_state_xcopy a b w =
     (let st = w_stack w (st_L (w_state w a))
      in (int (length st), upd_stack (st_L (w_state w b)) (\<lambda>st'. st' @ st) w))"

definition luv_fiber_ready :: "lid \<Rightarrow> ('x, int) luv" where
  "luv_fiber_ready L w =
     bindR (as_state (lua_touserdata L 1 w) w) (\<lambda>self w.
     bindR (luvL_fiber_ready self w) (\<lambda>_ w. Done 1 w))"

definition luv_fiber_free :: "lid \<Rightarrow> ('x, int) luv" where
  "luv_fiber_free L w =
     bindR (as_state (lua_touserdata L 1 w) w) (\<lambda>self w. Done 1 w)"

section \<open>The loop of a thread\<close>

definition set_curr :: "sid \<Rightarrow> sid \<Rightarrow> 'x world \<Rightarrow> 'x world" where
  "set_curr self s = upd_state self (\<lambda>st. st\<lparr>st_curr := s\<rparr>)"

text \<open>
  The end of a fiber: every state that joins it becomes ready; a joining fiber gets copies of the
  \<open>narg\<close> results at the bottom of the stack of the finished one.
\<close>

definition copy_results :: "sid \<Rightarrow> nat \<Rightarrow> sid \<Rightarrow> 'x world \<Rightarrow> 'x world" where
  "copy_results fiber narg s w =
     (if st_type (w_state w s) = LUV_TFIBER
      then upd_stack (st_L (w_state w s)) (\<lambda>st. st @ take narg (w_stack w (st_L (w_state w fiber)))) w
      else w)"

definition rouse_joiner :: "sid \<Rightarrow> nat \<Rightarrow> ('x, unit) luv" where
  "rouse_joiner fiber narg w =
     (let q = ngx_queue_head (SRouse fiber) (w_queue w)
      in bindR (queue_data of_join q w) (\<lambda>s w.
           let w = upd_queue (ngx_queue_remove q) w
           in bindR (luvL_state_ready s w) (\<lambda>_ w. Done () (copy_results fiber narg s w))))"

definition rouse_joiners :: "sid \<Rightarrow> nat \<Rightarrow> ('x, unit) luv" where
  "rouse_joiners fiber narg = whileR (\<lambda>w. \<not> is_empty (SRouse fiber) w) (rouse_joiner fiber narg)"

text \<open>What \<open>luvL_thread_once\<close> does with the status \<open>lua_resume\<close> returned.\<close>

definition after_resume :: "sid \<Rightarrow> sid \<Rightarrow> resume_status \<Rightarrow> ('x, unit) luv" where
  "after_resume self fiber stat w =
     (let L = st_L (w_state w fiber)
      in case stat of
           LUA_YIELD \<Rightarrow>
             Done () (if state_flag LUV_FREADY fiber w
                      then upd_queue (ngx_queue_insert_tail (SRouse self) (SQueue fiber)) w
                      else w)
         | LUA_OK \<Rightarrow>
             bindR (rouse_joiners fiber (lua_gettop L w) w) (\<lambda>_ w. Done () (luvL_fiber_close fiber w))
         | LUA_ERR \<Rightarrow>
             let msg = (case rev (w_stack w L) of [] \<Rightarrow> LNil | v # _ \<Rightarrow> v);
                 w = lua_push (st_L (w_state w self)) msg w
             in Raise msg (luvL_fiber_close fiber w))"

definition luvL_thread_once :: "'x vm \<Rightarrow> sid \<Rightarrow> ('x, bool) luv" where
  "luvL_thread_once vm self w =
     bindR
       (if \<not> is_empty (SRouse self) w
        then let q = ngx_queue_head (SRouse self) (w_queue w)
             in bindR (queue_data of_queue q w) (\<lambda>fiber w.
                  let w = upd_queue (ngx_queue_remove q) w
                  in if state_flag LUV_FDEAD fiber w
                     then Raise (lua_msg ''cannot resume a dead fiber'') w
                     else
                       let L = st_L (w_state w fiber);
                           narg = int (lua_gettop L w);
                           (narg, w) = (if \<not> state_flag LUV_FSTART fiber w
                                        then (narg - 1, raise_flag LUV_FSTART fiber w)
                                        else (narg, w));
                           w = set_curr self fiber w
                       in bindR (vm_resume vm L narg w) (\<lambda>stat w.
                            after_resume self fiber stat (set_curr self self w)))
        else Done () w)
       (\<lambda>_ w. Done (\<not> is_empty (SRouse self) w) w)"

definition luvL_thread_loop :: "'x vm \<Rightarrow> sid \<Rightarrow> ('x, unit) luv" where
  "luvL_thread_loop vm self = loopR (luvL_thread_once vm self)"

section \<open>Threads as states\<close>

definition luvL_thread_yield :: "'x vm \<Rightarrow> sid \<Rightarrow> int \<Rightarrow> ('x, int) luv" where
  "luvL_thread_yield vm self narg w =
     bindR (vm_run_once vm (st_loop (w_state w self)) w) (\<lambda>_ w.
       Done (if narg = - 1 then int (lua_gettop (st_L (w_state w self)) w) else narg) w)"

text \<open>The \<open>do\<close>/\<open>while\<close> loop of \<open>luvL_thread_suspend\<close>; a round answers whether there is another.\<close>

definition suspend_round :: "'x vm \<Rightarrow> sid \<Rightarrow> ('x, bool) luv" where
  "suspend_round vm self w =
     bindR (luvL_thread_loop vm self w) (\<lambda>_ w.
     bindR (vm_run_once vm (st_loop (w_state w self)) w) (\<lambda>active w.
       Done (\<not> state_flag LUV_FREADY self w \<and> active) w))"

definition luvL_thread_suspend :: "'x vm \<Rightarrow> sid \<Rightarrow> ('x, int) luv" where
  "luvL_thread_suspend vm self w =
     bindR (if state_flag LUV_FREADY self w
            then bindR (loopR (suspend_round vm self) (drop_flag LUV_FREADY self w))
                   (\<lambda>_ w. Done () (raise_flag LUV_FREADY self w))
            else Done () w)
       (\<lambda>_ w. Done (int (lua_gettop (st_L (w_state w self)) w)) w)"

definition luvL_thread_resume :: "sid \<Rightarrow> int \<Rightarrow> ('x, int) luv" where
  "luvL_thread_resume self narg w =
     bindR (luvL_thread_ready self w) (\<lambda>_ w.
       if narg \<noteq> 0 then
         let curr = st_curr (w_state w self); Lc = st_L (w_state w curr);
             narg = (if narg = - 1 then int (lua_gettop Lc w) else narg)
         in if curr \<noteq> self
            then bindR (c_assert (int (lua_gettop Lc w) \<ge> narg) w) (\<lambda>_ w.
                   Done narg (lua_xmove Lc (st_L (w_state w self)) (nat narg) w))
            else Done narg w
       else Done narg w)"

section \<open>States\<close>

definition luvL_state_yield :: "'x vm \<Rightarrow> sid \<Rightarrow> int \<Rightarrow> ('x, int) luv" where
  "luvL_state_yield vm s narg w =
     bindR (luvL_state_is_active s w) (\<lambda>active w.
     bindR (c_assert active w) (\<lambda>_ w.
       if st_type (w_state w s) = LUV_TTHREAD then luvL_thread_yield vm s narg w
       else luvL_fiber_yield s narg w))"

definition luvL_state_suspend :: "'x vm \<Rightarrow> sid \<Rightarrow> ('x, int) luv" where
  "luvL_state_suspend vm s w =
     (if st_type (w_state w s) = LUV_TTHREAD then luvL_thread_suspend vm s w else luvL_fiber_suspend s w)"

text \<open>The result of \<open>lua_resume\<close> as the \<open>int\<close> the C function returns.\<close>

definition status_int :: "resume_status \<Rightarrow> int" where
  "status_int stat = (case stat of LUA_OK \<Rightarrow> 0 | LUA_YIELD \<Rightarrow> 1 | LUA_ERR \<Rightarrow> 2)"

definition luvL_state_resume :: "'x vm \<Rightarrow> sid \<Rightarrow> int \<Rightarrow> ('x, int) luv" where
  "luvL_state_resume vm s narg w =
     (if st_type (w_state w s) = LUV_TTHREAD then luvL_thread_resume s narg w
      else bindR (luvL_fiber_resume vm s narg w) (\<lambda>stat w. Done (status_int stat) w))"

definition luv_fiber_join :: "'x vm \<Rightarrow> lid \<Rightarrow> ('x, int) luv" where
  "luv_fiber_join vm L w =
     bindR (luaL_checkudata L 1 LUV_FIBER_T w) (\<lambda>p w.
     bindR (as_state (Some p) w) (\<lambda>self w.
     bindR (deref (luvL_state_self L w) w) (\<lambda>curr w.
     bindR (c_assert (self \<noteq> curr) w) (\<lambda>_ w.
       if state_flag LUV_FDEAD self w
       then let (n, w) = luvL_state_xcopy self curr w in Done n w
       else
         let w = upd_queue (ngx_queue_insert_tail (SRouse self) (SJoin curr)) w
         in bindR (luvL_fiber_ready self w) (\<lambda>_ w.
              if st_type (w_state w curr) = LUV_TFIBER then luvL_state_suspend vm curr w
              else bindR (luvL_state_suspend vm curr w) (\<lambda>_ w.
                     let (n, w) = luvL_state_xcopy self curr w in Done n w))))))"

definition luvL_thread_init_main :: "lid \<Rightarrow> 'x world \<Rightarrow> 'x world" where
  "luvL_thread_init_main L w =
     (let self = w_nstate w;
          (u, w) = new_udata LUV_THREAD_T (PState self) (w\<lparr>w_nstate := Suc self\<rparr>);
          w = lua_push L u w;
          w = upd_state self (\<lambda>_. \<lparr>st_type = LUV_TTHREAD, st_flags = LUV_FREADY, st_outer = self, st_L = L,
                st_loop = 0, st_data = False, st_curr = self, st_async_sent = False, st_async_ref = False\<rparr>) w;
          w = upd_queue (ngx_queue_init (SRouse self)) w
      in w\<lparr>w_registry := (w_registry w)(L \<mapsto> self)\<rparr>)"

end
