(* ===== verification/Luv_Cond.thy ===== *)
theory Luv_Cond
  imports Luv_Sched
begin

text \<open>
  Condition variables (\<open>src/src/luv_cond.c\<close>): a queue of the states that wait, linked through their
  \<open>cond\<close> members.  A \<open>luv_cond_t*\<close> is the sentinel of such a queue: its own (\<open>CondVar\<close>) or the
  \<open>rouse\<close> member of an object (\<open>ORouse\<close>).
\<close>

definition luvL_cond_init :: "qnode \<Rightarrow> ('x, int) luv" where
  "luvL_cond_init cond w = Done 1 (upd_queue (ngx_queue_init cond) w)"

definition luvL_cond_wait :: "'x vm \<Rightarrow> qnode \<Rightarrow> sid \<Rightarrow> ('x, int) luv" where
  "luvL_cond_wait vm cond cur w =
     luvL_state_suspend vm cur (upd_queue (ngx_queue_insert_tail cond (SCond cur)) w)"

text \<open>The body the two functions below share: take the first waiting state and make it ready.\<close>

definition cond_rouse :: "qnode \<Rightarrow> ('x, unit) luv" where
  "cond_rouse cond w =
     (let q = ngx_queue_head cond (w_queue w)
      in bindR (queue_data of_cond q w) (\<lambda>s w.
           luvL_state_ready s (upd_queue (ngx_queue_remove q) w)))"

definition luvL_cond_signal :: "qnode \<Rightarrow> ('x, int) luv" where
  "luvL_cond_signal cond w =
     (if \<not> is_empty cond w then bindR (cond_rouse cond w) (\<lambda>_ w. Done 1 w) else Done 0 w)"

text \<open>The loop of \<open>luvL_cond_broadcast\<close>, on the counter \<open>roused\<close> and the world.\<close>

definition broadcast_round :: "qnode \<Rightarrow> int \<times> 'x world \<Rightarrow> (lua_value, unit, int \<times> 'x world) res" where
  "broadcast_round cond = (\<lambda>(roused, w).
     case cond_rouse cond w of
       Done _ w \<Rightarrow> Done () (roused + 1, w)
     | Raise e w \<Rightarrow> Raise e (roused, w)
     | Fail x \<Rightarrow> Fail x)"

definition luvL_cond_broadcast :: "qnode \<Rightarrow> ('x, int) luv" where
  "luvL_cond_broadcast cond w =
     (case whileR (\<lambda>(_, w). \<not> is_empty cond w) (broadcast_round cond) (0, w) of
        Done _ (roused, w) \<Rightarrow> Done roused w
      | Raise e (_, w) \<Rightarrow> Raise e w
      | Fail x \<Rightarrow> Fail x)"

section \<open>Lua API\<close>

text \<open>
  \<open>luv_new_cond\<close> pushes the new userdata, then a copy of the value at index 1, and sets the
  metatable of that copy, which is also what it returns.  No metatable \<open>luv.cond\<close> is registered.
\<close>

definition luv_new_cond :: "lid \<Rightarrow> ('x, int) luv" where
  "luv_new_cond L w =
     (let c = w_ncond w;
          (u, w) = new_udata '''' (PCond c) (w\<lparr>w_ncond := Suc c\<rparr>);
          w = lua_push L u w;
          v = w_stack w L ! 0;
          w = lua_push L v w;
          w = (case v of
                 LUser i \<Rightarrow> w\<lparr>w_udata := (w_udata w)(i := map_option (u_meta_update (\<lambda>_. metatable LUV_COND_T)) (w_udata w i))\<rparr>
               | _ \<Rightarrow> w)
      in bindR (luvL_cond_init (CondVar c) w) (\<lambda>_ w. Done 1 w))"

definition luv_cond_wait :: "'x vm \<Rightarrow> lid \<Rightarrow> ('x, int) luv" where
  "luv_cond_wait vm L w =
     bindR (as_cond (lua_touserdata L 1 w) w) (\<lambda>cond w.
     bindR (if \<not> lua_isnoneornil L 2 w
            then bindR (luaL_checkudata L 2 LUV_FIBER_T w) (\<lambda>p w. as_state (Some p) w)
            else deref (luvL_state_self L w) w) (\<lambda>curr w.
     bindR (luvL_cond_wait vm (CondVar cond) curr w) (\<lambda>_ w. Done 1 w)))"

definition luv_cond_signal :: "lid \<Rightarrow> ('x, int) luv" where
  "luv_cond_signal L w =
     bindR (as_cond (lua_touserdata L 1 w) w) (\<lambda>cond w.
     bindR (luvL_cond_signal (CondVar cond) w) (\<lambda>_ w. Done 1 w))"

definition luv_cond_broadcast :: "lid \<Rightarrow> ('x, int) luv" where
  "luv_cond_broadcast L w =
     bindR (as_cond (lua_touserdata L 1 w) w) (\<lambda>cond w.
     bindR (luvL_cond_broadcast (CondVar cond) w) (\<lambda>_ w. Done 1 w))"

definition luv_cond_free :: "lid \<Rightarrow> ('x, int) luv" where
  "luv_cond_free L w = Done 0 w"

end
