(* ===== verification/Sched_Inv.thy ===== *)
theory Sched_Inv
  imports Luv_Cond
begin

text \<open>
  The abstract scheduler and the relation to the pointer structures of the code.

  An abstract scheduler is three families of lists of states: the fibers ready to run on each
  thread, the states that join each fiber, and the states that wait on each condition queue.
  \<open>sched_rel R w a\<close> says that the world \<open>w\<close> represents \<open>a\<close>: the linked queues hold exactly these
  lists, a live fiber that is not running is in the ready list of its thread if and only if its
  flag \<open>LUV_FREADY\<close> is set, and a waiting state does not have that flag.
\<close>

section \<open>Abstract schedulers\<close>

record asched =
  a_ready :: "sid \<Rightarrow> sid list"
  a_join :: "sid \<Rightarrow> sid list"
  a_wait :: "qnode \<Rightarrow> sid list"
  a_conds :: "qnode set"

definition a_waiting :: "asched \<Rightarrow> sid \<Rightarrow> bool" where
  "a_waiting a s \<longleftrightarrow> (\<exists>f. s \<in> set (a_join a f)) \<or> (\<exists>c. s \<in> set (a_wait a c))"

definition a_enqueue :: "sid \<Rightarrow> sid \<Rightarrow> asched \<Rightarrow> asched" where
  "a_enqueue t f a = a\<lparr>a_ready := (a_ready a)(t := a_ready a t @ [f])\<rparr>"

abbreviation is_thread :: "'x world \<Rightarrow> sid \<Rightarrow> bool" where
  "is_thread w s \<equiv> st_type (w_state w s) = LUV_TTHREAD"

abbreviation is_fiber :: "'x world \<Rightarrow> sid \<Rightarrow> bool" where
  "is_fiber w s \<equiv> st_type (w_state w s) = LUV_TFIBER"

abbreviation ready :: "'x world \<Rightarrow> sid \<Rightarrow> bool" where
  "ready w s \<equiv> state_flag LUV_FREADY s w"

abbreviation dead :: "'x world \<Rightarrow> sid \<Rightarrow> bool" where
  "dead w s \<equiv> state_flag LUV_FDEAD s w"

abbreviation outer :: "'x world \<Rightarrow> sid \<Rightarrow> sid" where
  "outer w s \<equiv> st_outer (w_state w s)"

abbreviation current :: "'x world \<Rightarrow> sid \<Rightarrow> sid" where
  "current w t \<equiv> st_curr (w_state w t)"

section \<open>The relation\<close>

fun links :: "'x world \<Rightarrow> asched \<Rightarrow> qnode \<Rightarrow> qnode list" where
  "links w a (SRouse s) = (if is_thread w s then map SQueue (a_ready a s) else map SJoin (a_join a s))"
| "links w a h = map SCond (a_wait a h)"

definition heads :: "'x world \<Rightarrow> asched \<Rightarrow> qnode set" where
  "heads w a = SRouse ` {..<w_nstate w} \<union> a_conds a"

definition cond_nodes :: "qnode set" where
  "cond_nodes = range CondVar \<union> range ORouse \<union> range OQueue"

definition cond_heads :: "'x world \<Rightarrow> qnode set" where
  "cond_heads w = CondVar ` {..<w_ncond w} \<union> ORouse ` {..<w_nobject w} \<union> OQueue ` {..<w_nobject w}"

definition states_ok :: "'x world \<Rightarrow> bool" where
  "states_ok w \<longleftrightarrow>
     (\<forall>s<w_nstate w. st_L (w_state w s) < w_nlua w \<and>
        (is_fiber w s \<longrightarrow> outer w s < w_nstate w \<and> is_thread w (outer w s)) \<and>
        (is_thread w s \<longrightarrow> current w s < w_nstate w) \<and>
        (\<not> dead w s \<longrightarrow> w_registry w (st_L (w_state w s)) = Some s)) \<and>
     inj_on (\<lambda>s. st_L (w_state w s)) {..<w_nstate w}"

definition queued :: "sid set \<Rightarrow> 'x world \<Rightarrow> sid \<Rightarrow> sid \<Rightarrow> bool" where
  "queued R w t f \<longleftrightarrow> t < w_nstate w \<and> is_thread w t \<and> f < w_nstate w \<and> is_fiber w f \<and> outer w f = t \<and>
     ready w f \<and> \<not> dead w f \<and> f \<notin> R"

definition sched_rel :: "sid set \<Rightarrow> 'x world \<Rightarrow> asched \<Rightarrow> bool" where
  "sched_rel R w a \<longleftrightarrow>
     a_conds a = cond_heads w \<and>
     qfamily (w_queue w) (heads w a) (links w a) \<and>
     states_ok w \<and>
     (\<forall>t f. f \<in> set (a_ready a t) \<longleftrightarrow> queued R w t f) \<and>
     (\<forall>f s. s \<in> set (a_join a f) \<longrightarrow> f < w_nstate w \<and> is_fiber w f) \<and>
     (\<forall>c s. s \<in> set (a_wait a c) \<longrightarrow> c \<in> a_conds a) \<and>
     (\<forall>s. a_waiting a s \<longrightarrow> s < w_nstate w \<and> \<not> ready w s) \<and>
     (\<forall>s f c. s \<in> set (a_join a f) \<longrightarrow> s \<notin> set (a_wait a c)) \<and>
     (\<forall>f<w_nstate w. is_fiber w f \<longrightarrow> dead w f \<longrightarrow> ready w f \<and> f \<notin> R)"

text \<open>
  The fibers in \<open>R\<close> have been taken from their queue to run.  Outside \<open>luvL_thread_once\<close> they are the
  current fibers of the threads.  As long as they do not suspend themselves they stay ready.
\<close>

definition running :: "'x world \<Rightarrow> sid set" where
  "running w = {f. f < w_nstate w \<and> is_fiber w f \<and> current w (outer w f) = f}"

definition run_ok :: "sid set \<Rightarrow> 'x world \<Rightarrow> bool" where
  "run_ok R w \<longleftrightarrow> (\<forall>f\<in>R. ready w f)"

text \<open>The part of the world the relation reads.\<close>

definition core :: "'x world \<Rightarrow> _" where
  "core w = (w_queue w, w_nstate w, w_nlua w, w_registry w, w_ncond w, w_nobject w,
     \<lambda>s. let st = w_state w s in (st_type st, st_flags st, st_outer st, st_L st, st_curr st))"

lemma core_eq:
  assumes "core w' = core w"
  shows "w_queue w' = w_queue w" "w_nstate w' = w_nstate w" "w_nlua w' = w_nlua w" "w_registry w' = w_registry w"
    "st_type (w_state w' s) = st_type (w_state w s)" "st_flags (w_state w' s) = st_flags (w_state w s)"
    "outer w' s = outer w s" "st_L (w_state w' s) = st_L (w_state w s)" "current w' s = current w s"
    "state_flag f s w' = state_flag f s w" "cond_heads w' = cond_heads w"
  using assms by (auto simp: core_def state_flag_def cond_heads_def Let_def fun_eq_iff)

lemma links_core: assumes "core w' = core w" shows "links w' a = links w a"
proof
  fix h show "links w' a h = links w a h" by (cases h) (simp_all add: core_eq [OF assms])
qed

lemma sched_rel_core: assumes "core w' = core w" shows "sched_rel R w' a = sched_rel R w a"
  unfolding sched_rel_def heads_def states_ok_def queued_def
  by (simp only: links_core [OF assms] core_eq [OF assms])

lemma run_ok_core: assumes "core w' = core w" shows "run_ok R w' = run_ok R w"
  unfolding run_ok_def by (simp only: core_eq [OF assms])

lemma core_frame [simp]:
  "core (upd_stack L f w) = core w" "core (upd_object ob k w) = core w"
  "core (uv_async_send t w) = core w" "core (uv_ref_async t w) = core w"
  "core (w\<lparr>w_yield := y\<rparr>) = core w" "core (w\<lparr>w_ext := e\<rparr>) = core w"
  by (simp_all add: core_def Let_def)

lemma cond_heads_frame [simp]:
  "cond_heads (upd_queue g w) = cond_heads w" "cond_heads (upd_state s f w) = cond_heads w"
  "cond_heads (raise_flag F s w) = cond_heads w" "cond_heads (drop_flag F s w) = cond_heads w"
  "cond_heads (uv_async_send t w) = cond_heads w" "cond_heads (uv_ref_async t w) = cond_heads w"
  by (simp_all add: cond_heads_def)

lemma sched_conds: "sched_rel R w a \<Longrightarrow> a_conds a \<subseteq> cond_nodes"
  by (auto simp: sched_rel_def cond_heads_def cond_nodes_def)

section \<open>Links and lists\<close>

lemma cond_nodes_other [simp]:
  "SRouse s \<notin> cond_nodes" "SQueue s \<notin> cond_nodes" "SJoin s \<notin> cond_nodes" "SCond s \<notin> cond_nodes"
  by (auto simp: cond_nodes_def)

lemma cond_node_links: "c \<in> cond_nodes \<Longrightarrow> links w a c = map SCond (a_wait a c)"
  by (cases c) simp_all

lemma links_upd:
  assumes "c \<in> cond_nodes" "a_ready a' = a_ready a" "a_join a' = a_join a" "a_wait a' = (a_wait a)(c := ss)"
    "\<forall>s. st_type (w_state w' s) = st_type (w_state w s)"
  shows "links w' a' = (links w a)(c := map SCond ss)"
proof
  fix h show "links w' a' h = ((links w a)(c := map SCond ss)) h" using assms by (cases h) auto
qed

lemma linked_iff:
  assumes "sched_rel R w a"
  shows "linked (heads w a) (links w a) (SQueue f) \<longleftrightarrow> (\<exists>t. f \<in> set (a_ready a t))"
    "linked (heads w a) (links w a) (SJoin s) \<longleftrightarrow> (\<exists>f. s \<in> set (a_join a f))"
    "linked (heads w a) (links w a) (SCond s) \<longleftrightarrow> (\<exists>c. s \<in> set (a_wait a c))"
proof -
  note conds = sched_conds [OF assms]
  have r: "\<And>t f. f \<in> set (a_ready a t) \<Longrightarrow> t < w_nstate w \<and> is_thread w t"
    and j: "\<And>f s. s \<in> set (a_join a f) \<Longrightarrow> f < w_nstate w \<and> is_fiber w f"
    and wt: "\<And>c s. s \<in> set (a_wait a c) \<Longrightarrow> c \<in> a_conds a"
    using assms by (auto simp: sched_rel_def queued_def)
  have cond_links: "links w a c = map SCond (a_wait a c)" if "c \<in> a_conds a" for c
    using conds that cond_node_links by blast
  have l: "linked (heads w a) (links w a) x \<longleftrightarrow>
      (\<exists>s<w_nstate w. x \<in> set (links w a (SRouse s))) \<or> (\<exists>c\<in>a_conds a. x \<in> set (map SCond (a_wait a c)))" for x
  proof -
    have "linked (heads w a) (links w a) x \<longleftrightarrow>
        (\<exists>s<w_nstate w. x \<in> set (links w a (SRouse s))) \<or> (\<exists>c\<in>a_conds a. x \<in> set (links w a c))"
      unfolding linked_def heads_def by blast
    with cond_links show ?thesis by (simp del: links.simps set_map)
  qed
  show "linked (heads w a) (links w a) (SQueue f) \<longleftrightarrow> (\<exists>t. f \<in> set (a_ready a t))"
    using r by (auto simp: l)
  show "linked (heads w a) (links w a) (SJoin s) \<longleftrightarrow> (\<exists>f. s \<in> set (a_join a f))"
    using j by (force simp: l split: if_splits)
  show "linked (heads w a) (links w a) (SCond s) \<longleftrightarrow> (\<exists>c. s \<in> set (a_wait a c))"
    using wt by (auto simp: l)
qed

lemma link_not_head:
  assumes "sched_rel R w a"
  shows "SQueue s \<notin> heads w a" "SJoin s \<notin> heads w a" "SCond s \<notin> heads w a"
  using sched_conds [OF assms] cond_nodes_other by (auto simp: heads_def)

lemma sched_family: "sched_rel R w a \<Longrightarrow> qfamily (w_queue w) (heads w a) (links w a)"
  by (simp add: sched_rel_def)

lemma state_head: "s < w_nstate w \<Longrightarrow> SRouse s \<in> heads w a"
  by (simp add: heads_def)

lemma sched_queue: "sched_rel R w a \<Longrightarrow> h \<in> heads w a \<Longrightarrow> queue (w_queue w) h (links w a h)"
  unfolding sched_rel_def by (blast intro: qfamily_queue)

lemma sched_ready: "sched_rel R w a \<Longrightarrow> f \<in> set (a_ready a t) \<longleftrightarrow> queued R w t f"
  and sched_states: "sched_rel R w a \<Longrightarrow> states_ok w"
  and sched_waiting: "sched_rel R w a \<Longrightarrow> a_waiting a s \<Longrightarrow> s < w_nstate w \<and> \<not> ready w s"
  and sched_dead: "sched_rel R w a \<Longrightarrow> s < w_nstate w \<Longrightarrow> is_fiber w s \<Longrightarrow> dead w s \<Longrightarrow>
    ready w s \<and> s \<notin> R"
  by (simp_all add: sched_rel_def)

lemma sched_distinct:
  assumes "sched_rel R w a"
  shows "distinct (a_ready a t)" "distinct (a_join a f)" "distinct (a_wait a c)"
proof -
  have d: "distinct (links w a h)" if "h \<in> heads w a" for h
    using queue_distinct [OF sched_queue [OF assms that]] by simp
  show "distinct (a_ready a t)"
  proof (cases "a_ready a t = []")
    case False
    then have "hd (a_ready a t) \<in> set (a_ready a t)" by simp
    then have "t < w_nstate w" "is_thread w t" using sched_ready [OF assms] by (auto simp: queued_def)
    with d [of "SRouse t"] show ?thesis by (simp add: heads_def distinct_map)
  qed simp
  show "distinct (a_join a f)"
  proof (cases "a_join a f = []")
    case False
    then have "hd (a_join a f) \<in> set (a_join a f)" by simp
    then have "f < w_nstate w" "is_fiber w f" using assms by (auto simp: sched_rel_def)
    with d [of "SRouse f"] show ?thesis by (simp add: heads_def distinct_map)
  qed simp
  show "distinct (a_wait a c)"
  proof (cases "a_wait a c = []")
    case False
    then have "hd (a_wait a c) \<in> set (a_wait a c)" by simp
    then have c: "c \<in> a_conds a" "a_conds a \<subseteq> cond_nodes"
      using assms sched_conds [OF assms] unfolding sched_rel_def by blast+
    then have "links w a c = map SCond (a_wait a c)" using cond_node_links by blast
    with d [of c] c show ?thesis by (simp add: heads_def distinct_map)
  qed simp
qed

section \<open>Making a state ready\<close>

lemma thread_self_fiber:
  assumes "states_ok w" "s < w_nstate w" "is_fiber w s" "\<not> dead w s"
  shows "luvL_thread_self (st_L (w_state w s)) w = Done (outer w s) w"
  using assms
  by (simp add: luvL_thread_self_def luvL_state_self_def to_thread_def states_ok_def
      outer_thread.simps [of "w_state w" s] outer_thread.simps [of "w_state w" "outer w s"])

lemma fiber_ready_eq:
  assumes "states_ok w" "s < w_nstate w" "is_fiber w s" "\<not> dead w s"
  shows "luvL_fiber_ready s w =
    Done () (if ready w s then w else luvL_thread_enqueue (outer w s) s (raise_flag LUV_FREADY s w))"
proof -
  have "states_ok (raise_flag LUV_FREADY s w)"
    using assms(1) by (simp add: states_ok_def)
  then have "luvL_thread_self (st_L (w_state w s)) (raise_flag LUV_FREADY s w) =
      Done (outer w s) (raise_flag LUV_FREADY s w)"
    using thread_self_fiber [of "raise_flag LUV_FREADY s w" s] assms(2-) by simp
  then show ?thesis by (simp add: luvL_fiber_ready_def)
qed

lemma thread_enqueue_core:
  "core (luvL_thread_enqueue t f w) = core (upd_queue (ngx_queue_insert_tail (SRouse t) (SQueue f)) w)"
  by (simp add: luvL_thread_enqueue_def Let_def)

lemma a_enqueue_sel [simp]:
  "a_ready (a_enqueue t f a) = (a_ready a)(t := a_ready a t @ [f])"
  "a_join (a_enqueue t f a) = a_join a" "a_wait (a_enqueue t f a) = a_wait a"
  "a_conds (a_enqueue t f a) = a_conds a" "a_waiting (a_enqueue t f a) = a_waiting a"
  by (auto simp: a_enqueue_def a_waiting_def fun_eq_iff)

lemma links_cong: "\<forall>s. st_type (w_state w' s) = st_type (w_state w s) \<Longrightarrow> links w' a = links w a"
proof
  fix h assume "\<forall>s. st_type (w_state w' s) = st_type (w_state w s)"
  then show "links w' a h = links w a h" by (cases h) auto
qed

lemma links_enqueue:
  "is_thread w t \<Longrightarrow> links w (a_enqueue t f a) = (links w a)(SRouse t := links w a (SRouse t) @ [SQueue f])"
proof
  fix h assume "is_thread w t"
  then show "links w (a_enqueue t f a) h = ((links w a)(SRouse t := links w a (SRouse t) @ [SQueue f])) h"
    by (cases h) auto
qed

text \<open>A fiber that is neither ready nor waiting goes to the end of the list of its thread.\<close>

lemma sched_enqueue:
  assumes rel: "sched_rel R w a" and f: "f < w_nstate w" "is_fiber w f" "\<not> ready w f" "\<not> a_waiting a f"
    and cur: "f \<notin> R"
  shows "sched_rel R (luvL_thread_enqueue (outer w f) f (raise_flag LUV_FREADY f w)) (a_enqueue (outer w f) f a)"
proof -
  let ?t = "outer w f"
  let ?w = "upd_queue (ngx_queue_insert_tail (SRouse ?t) (SQueue f)) (raise_flag LUV_FREADY f w)"
  have t: "?t < w_nstate w" "is_thread w ?t" using sched_states [OF rel] f by (auto simp: states_ok_def)
  have nd: "\<not> dead w f" using sched_dead [OF rel f(1,2)] f(3) by blast
  have hd: "heads ?w (a_enqueue ?t f a) = heads w a" by (simp add: heads_def)
  have ls: "links ?w (a_enqueue ?t f a) = (links w a)(SRouse ?t := links w a (SRouse ?t) @ [SQueue f])"
    using links_cong [of ?w w] links_enqueue [of w ?t f a] t by simp
  have nl: "\<not> linked (heads w a) (links w a) (SQueue f)"
    using linked_iff(1) [OF rel] sched_ready [OF rel] f(3) by (auto simp: queued_def)
  have "qfamily (w_queue ?w) (heads ?w (a_enqueue ?t f a)) (links ?w (a_enqueue ?t f a))"
    unfolding hd ls
    using nq.insert_law [OF sched_family [OF rel] state_head [OF t(1)] link_not_head(1) [OF rel] nl]
    by (simp del: links.simps)
  moreover have "f' \<in> set (a_ready (a_enqueue ?t f a) t') \<longleftrightarrow> queued R ?w t' f'" for t' f'
    using sched_ready [OF rel, of f' t'] f t nd cur by (auto simp: queued_def)
  moreover have "states_ok ?w" using sched_states [OF rel] by (simp add: states_ok_def)
  ultimately have "sched_rel R ?w (a_enqueue ?t f a)"
    using rel f(4) by (auto simp: sched_rel_def)
  then show ?thesis by (simp add: sched_rel_core [OF thread_enqueue_core])
qed

definition a_make_ready :: "'x world \<Rightarrow> sid \<Rightarrow> asched \<Rightarrow> asched" where
  "a_make_ready w s a = (if is_fiber w s \<and> \<not> ready w s then a_enqueue (outer w s) s a else a)"

text \<open>What \<open>luvL_fiber_ready\<close> and \<open>luvL_state_ready\<close> leave behind.\<close>

definition made_ready :: "sid \<Rightarrow> 'x world \<Rightarrow> 'x world \<Rightarrow> bool" where
  "made_ready s w w' \<longleftrightarrow>
     w_nstate w' = w_nstate w \<and> w_nlua w' = w_nlua w \<and> w_registry w' = w_registry w \<and>
     w_stack w' = w_stack w \<and> w_ext w' = w_ext w \<and> w_object w' = w_object w \<and> w_yield w' = w_yield w \<and>
     (\<forall>x. st_type (w_state w' x) = st_type (w_state w x) \<and> outer w' x = outer w x \<and>
          st_L (w_state w' x) = st_L (w_state w x) \<and> current w' x = current w x \<and>
          dead w' x = dead w x \<and> state_flag LUV_FSTART x w' = state_flag LUV_FSTART x w \<and>
          (ready w' x \<longleftrightarrow> x = s \<or> ready w x))"

lemma fiber_ready_rel:
  assumes rel: "sched_rel R w a" and f: "f < w_nstate w" "is_fiber w f"
    and ok: "ready w f \<or> \<not> a_waiting a f \<and> f \<notin> R"
  shows "\<exists>w'. luvL_fiber_ready f w = Done () w' \<and> sched_rel R w' (a_make_ready w f a) \<and> made_ready f w w'"
proof (cases "ready w f")
  case True
  then show ?thesis
    using rel by (auto simp: luvL_fiber_ready_def a_make_ready_def made_ready_def)
next
  case False
  then have nd: "\<not> dead w f" using sched_dead [OF rel f] by blast
  let ?w = "luvL_thread_enqueue (outer w f) f (raise_flag LUV_FREADY f w)"
  have "luvL_fiber_ready f w = Done () ?w"
    using fiber_ready_eq [OF sched_states [OF rel] f nd] False by simp
  moreover have "sched_rel R ?w (a_make_ready w f a)"
    using sched_enqueue [OF rel f False] ok False f by (simp add: a_make_ready_def)
  moreover have "made_ready f w ?w"
    by (simp add: made_ready_def luvL_thread_enqueue_def Let_def)
  ultimately show ?thesis by blast
qed

lemma thread_ready_rel:
  assumes rel: "sched_rel R w a" and t: "is_thread w t" and ok: "ready w t \<or> \<not> a_waiting a t"
  shows "\<exists>w'. luvL_thread_ready t w = Done () w' \<and> sched_rel R w' a \<and> made_ready t w w'"
proof (cases "ready w t")
  case True
  then show ?thesis
    using rel by (auto simp: luvL_thread_ready_def made_ready_def)
next
  case False
  let ?w = "raise_flag LUV_FREADY t w"
  have "links ?w a = links w a" "heads ?w a = heads w a" by (simp_all add: links_cong heads_def)
  moreover have "queued R ?w t' f' = queued R w t' f'" for t' f' using t by (auto simp: queued_def)
  moreover have "states_ok ?w" using sched_states [OF rel] by (simp add: states_ok_def)
  ultimately have "sched_rel R ?w a"
    using rel ok False by (auto simp: sched_rel_def)
  then have "sched_rel R (uv_async_send t ?w) a" by (simp add: sched_rel_core [OF core_frame(3)])
  with False show ?thesis
    by (simp add: luvL_thread_ready_def made_ready_def)
qed

text \<open>\<open>luvL_state_ready\<close> wakes a state that no longer waits and is not running.\<close>

lemma state_ready_rel:
  assumes rel: "sched_rel R w a" and s: "s < w_nstate w"
    and ok: "ready w s \<or> \<not> a_waiting a s \<and> s \<notin> R"
  shows "\<exists>w'. luvL_state_ready s w = Done () w' \<and> sched_rel R w' (a_make_ready w s a) \<and> made_ready s w w'"
proof (cases "st_type (w_state w s)")
  case LUV_TFIBER
  with fiber_ready_rel [OF rel s] ok show ?thesis by (simp add: luvL_state_ready_def)
next
  case LUV_TTHREAD
  with thread_ready_rel [OF rel] ok show ?thesis by (auto simp: luvL_state_ready_def a_make_ready_def)
qed

lemma run_ok_ready: "run_ok R w \<Longrightarrow> made_ready s w w' \<Longrightarrow> run_ok R w'"
  by (auto simp: run_ok_def made_ready_def)

lemma run_not_waiting: "sched_rel R w a \<Longrightarrow> run_ok R w \<Longrightarrow> a_waiting a s \<Longrightarrow> s \<notin> R"
  using sched_waiting [of R w a s] by (auto simp: run_ok_def)

section \<open>Condition queues\<close>

definition a_unwait :: "qnode \<Rightarrow> asched \<Rightarrow> asched" where
  "a_unwait c a = a\<lparr>a_wait := (a_wait a)(c := tl (a_wait a c))\<rparr>"

lemma a_unwait_sel [simp]:
  "a_ready (a_unwait c a) = a_ready a" "a_join (a_unwait c a) = a_join a" "a_conds (a_unwait c a) = a_conds a"
  "a_wait (a_unwait c a) = (a_wait a)(c := tl (a_wait a c))"
  by (simp_all add: a_unwait_def)

lemma cond_links: "sched_rel R w a \<Longrightarrow> c \<in> a_conds a \<Longrightarrow> links w a' c = map SCond (a_wait a' c)"
  using sched_conds cond_node_links by blast

lemma cond_head: "c \<in> a_conds a \<Longrightarrow> c \<in> heads w a"
  by (simp add: heads_def)

lemma links_unwait:
  assumes "sched_rel R w a" "c \<in> a_conds a"
  shows "links w (a_unwait c a) = (links w a)(c := map SCond (tl (a_wait a c)))"
  using sched_conds [OF assms(1)] assms(2) by (intro links_upd) auto

lemma sched_unwait:
  assumes rel: "sched_rel R w a" and c: "c \<in> a_conds a" "a_wait a c = s # ss"
  shows "ngx_queue_head c (w_queue w) = SCond s"
    and "sched_rel R (upd_queue (ngx_queue_remove (SCond s)) w) (a_unwait c a)"
    and "\<not> a_waiting (a_unwait c a) s"
proof -
  let ?w = "upd_queue (ngx_queue_remove (SCond s)) w"
  have lc: "links w a c = SCond s # map SCond ss" using cond_links [OF rel c(1)] c(2) by simp
  note pop = nq.pop [OF sched_family [OF rel] cond_head [OF c(1)] lc]
  show "ngx_queue_head c (w_queue w) = SCond s" by (rule pop(1))
  have ls: "links ?w (a_unwait c a) = (links w a)(c := map SCond ss)"
    using links_unwait [OF rel c(1)] links_cong [of ?w w] c(2) by simp
  have hd: "heads ?w (a_unwait c a) = heads w a" by (simp add: heads_def)
  have mem: "set (a_wait (a_unwait c a) c') \<subseteq> set (a_wait a c')" for c' using c(2) by auto
  then have sub: "a_waiting (a_unwait c a) x \<Longrightarrow> a_waiting a x" for x
    unfolding a_waiting_def a_unwait_sel(2) by blast
  have "qfamily (w_queue ?w) (heads ?w (a_unwait c a)) (links ?w (a_unwait c a))"
    unfolding hd ls using pop(2) by simp
  moreover have "states_ok ?w" using sched_states [OF rel] by (simp add: states_ok_def)
  moreover have "queued R ?w t f = queued R w t f" for t f by (simp add: queued_def)
  ultimately show r: "sched_rel R ?w (a_unwait c a)"
    using rel sub mem unfolding sched_rel_def
    by (simp del: a_unwait_sel(4)) blast
  have "\<not> linked (heads ?w (a_unwait c a)) (links ?w (a_unwait c a)) (SCond s)"
    unfolding hd ls by (rule pop(3))
  then have "s \<notin> set (a_wait (a_unwait c a) c')" for c'
    using linked_iff(3) [OF r] by blast
  moreover have "s \<in> set (a_wait a c)" using c(2) by simp
  then have "s \<notin> set (a_join a f)" for f
    using rel by (auto simp: sched_rel_def)
  ultimately show "\<not> a_waiting (a_unwait c a) s" by (auto simp: a_waiting_def)
qed

lemma cond_rouse_rel:
  assumes rel: "sched_rel R w a" and cur: "run_ok R w" and c: "c \<in> a_conds a" "a_wait a c = s # ss"
  shows "\<exists>w'. cond_rouse c w = Done () w' \<and> sched_rel R w' (a_make_ready w s (a_unwait c a)) \<and> made_ready s w w'"
proof -
  let ?w = "upd_queue (ngx_queue_remove (SCond s)) w"
  note un = sched_unwait [OF rel c]
  have wt: "a_waiting a s" using c(2) by (auto simp: a_waiting_def intro!: exI [of _ c])
  then have s: "s < w_nstate w" "\<not> ready w s" using sched_waiting [OF rel] by auto
  have "s \<notin> R" using run_not_waiting [OF rel cur wt] .
  then obtain w' where w': "luvL_state_ready s ?w = Done () w'" "sched_rel R w' (a_make_ready ?w s (a_unwait c a))"
    "made_ready s ?w w'"
    using state_ready_rel [OF un(2), of s] un(3) s by auto
  moreover have "a_make_ready ?w s = a_make_ready w s" by (simp add: a_make_ready_def fun_eq_iff)
  moreover have "made_ready s w w'" using w'(3) by (simp add: made_ready_def)
  ultimately show ?thesis
    using un(1) by (simp add: cond_rouse_def queue_data_def of_cond_def)
qed

definition a_signal :: "'x world \<Rightarrow> qnode \<Rightarrow> asched \<Rightarrow> asched" where
  "a_signal w c a = (case a_wait a c of [] \<Rightarrow> a | s # _ \<Rightarrow> a_make_ready w s (a_unwait c a))"

lemma cond_empty_iff:
  assumes "sched_rel R w a" "c \<in> a_conds a"
  shows "is_empty c w \<longleftrightarrow> a_wait a c = []"
  using queue_empty_iff [OF sched_queue [OF assms(1) cond_head [OF assms(2)]]] cond_links [OF assms] by simp

text \<open>\<open>luvL_cond_signal\<close> wakes the first waiting state, if there is one.\<close>

lemma cond_signal_rel:
  assumes rel: "sched_rel R w a" and cur: "run_ok R w" and c: "c \<in> a_conds a"
  shows "\<exists>w'. luvL_cond_signal c w = Done (if a_wait a c = [] then 0 else 1) w' \<and>
    sched_rel R w' (a_signal w c a) \<and> run_ok R w' \<and>
    (case a_wait a c of [] \<Rightarrow> w' = w | s # _ \<Rightarrow> made_ready s w w')"
proof (cases "a_wait a c")
  case Nil
  then show ?thesis
    using assms cond_empty_iff [OF rel c] by (simp add: luvL_cond_signal_def a_signal_def)
next
  case (Cons s ss)
  from cond_rouse_rel [OF rel cur c Cons] run_ok_ready [OF cur] show ?thesis
    using cond_empty_iff [OF rel c] Cons by (auto simp: luvL_cond_signal_def a_signal_def)
qed

text \<open>A broadcast wakes all waiting states, in the order in which they began to wait.\<close>

definition a_broadcast :: "'x world \<Rightarrow> qnode \<Rightarrow> asched \<Rightarrow> asched" where
  "a_broadcast w c a = fold (a_make_ready w) (a_wait a c) (a\<lparr>a_wait := (a_wait a)(c := [])\<rparr>)"

lemma a_make_ready_upd:
  "a_make_ready w s (a\<lparr>a_wait := x\<rparr>) = (a_make_ready w s a)\<lparr>a_wait := x\<rparr>"
  by (simp add: a_make_ready_def a_enqueue_def)

lemma a_make_ready_sel [simp]:
  "a_wait (a_make_ready w s a) = a_wait a" "a_conds (a_make_ready w s a) = a_conds a"
  "a_join (a_make_ready w s a) = a_join a" "a_waiting (a_make_ready w s a) = a_waiting a"
  by (simp_all add: a_make_ready_def)

lemma a_make_ready_other:
  "made_ready s w w' \<Longrightarrow> x \<noteq> s \<Longrightarrow> a_make_ready w' x = a_make_ready w x"
  by (auto simp: a_make_ready_def made_ready_def fun_eq_iff)

text \<open>The effect of a broadcast on the states: the flags of the woken ones.\<close>

definition made_all_ready :: "sid set \<Rightarrow> 'x world \<Rightarrow> 'x world \<Rightarrow> bool" where
  "made_all_ready S w w' \<longleftrightarrow>
     w_nstate w' = w_nstate w \<and> w_stack w' = w_stack w \<and> w_ext w' = w_ext w \<and>
     w_object w' = w_object w \<and> w_yield w' = w_yield w \<and>
     (\<forall>x. st_type (w_state w' x) = st_type (w_state w x) \<and> outer w' x = outer w x \<and>
          st_L (w_state w' x) = st_L (w_state w x) \<and> current w' x = current w x \<and>
          dead w' x = dead w x \<and> (ready w' x \<longleftrightarrow> x \<in> S \<or> ready w x))"

lemma made_all_ready_Cons:
  "made_ready s w w1 \<Longrightarrow> made_all_ready S w1 w' \<Longrightarrow> made_all_ready (insert s S) w w'"
  by (auto simp: made_ready_def made_all_ready_def)

lemma broadcast_loop:
  assumes "sched_rel R w a" "run_ok R w" "c \<in> a_conds a" "a_wait a c = ss"
  shows "\<exists>w'. whileR (\<lambda>(_, w). \<not> is_empty c w) (broadcast_round c) (n, w) = Done () (n + int (length ss), w') \<and>
    sched_rel R w' (fold (a_make_ready w) ss (a\<lparr>a_wait := (a_wait a)(c := [])\<rparr>)) \<and> run_ok R w' \<and>
    made_all_ready (set ss) w w'"
  using assms
proof (induction ss arbitrary: n w a)
  case Nil
  have "(a_wait a)(c := []) = a_wait a" using Nil.prems(4) by (rule fun_upd_idem)
  then have eq: "a\<lparr>a_wait := (a_wait a)(c := [])\<rparr> = a" by simp
  show ?case
    unfolding eq fold_simps using Nil.prems cond_empty_iff [OF Nil.prems(1,3)]
    by (simp add: whileR_simps made_all_ready_def)
next
  case (Cons s ss)
  obtain w1 where w1: "cond_rouse c w = Done () w1" "sched_rel R w1 (a_make_ready w s (a_unwait c a))" "made_ready s w w1"
    using cond_rouse_rel [OF Cons.prems] by blast
  let ?a = "a_make_ready w s (a_unwait c a)"
  have prems: "run_ok R w1" "c \<in> a_conds ?a" "a_wait ?a c = ss"
    using run_ok_ready [OF Cons.prems(2) w1(3)] Cons.prems(3,4) by simp_all
  from Cons.IH [OF w1(2) prems, of "n + 1"] obtain w' where
    w': "whileR (\<lambda>(_, w). \<not> is_empty c w) (broadcast_round c) (n + 1, w1) = Done () (n + 1 + int (length ss), w')"
      "sched_rel R w' (fold (a_make_ready w1) ss (?a\<lparr>a_wait := (a_wait ?a)(c := [])\<rparr>))" "run_ok R w'"
      "made_all_ready (set ss) w1 w'" by blast
  have "s \<notin> set ss" using sched_distinct(3) [OF Cons.prems(1), of c] Cons.prems(4) by simp
  then have "fold (a_make_ready w1) ss b = fold (a_make_ready w) ss b" for b
    using a_make_ready_other [OF w1(3)] by (metis fold_cong)
  moreover have "?a\<lparr>a_wait := (a_wait ?a)(c := [])\<rparr> = a_make_ready w s (a\<lparr>a_wait := (a_wait a)(c := [])\<rparr>)"
    by (simp add: a_make_ready_upd a_unwait_def)
  moreover have "whileR (\<lambda>(_, w). \<not> is_empty c w) (broadcast_round c) (n, w) =
      whileR (\<lambda>(_, w). \<not> is_empty c w) (broadcast_round c) (n + 1, w1)"
    using cond_empty_iff [OF Cons.prems(1,3)] Cons.prems(4) w1(1)
    by (subst whileR_unfold) (simp add: broadcast_round_def)
  ultimately have "sched_rel R w' (fold (a_make_ready w) (s # ss) (a\<lparr>a_wait := (a_wait a)(c := [])\<rparr>))"
    "whileR (\<lambda>(_, w). \<not> is_empty c w) (broadcast_round c) (n, w) = Done () (n + int (length (s # ss)), w')"
    using w'(1,2) by (simp_all only: fold_simps) simp_all
  with w'(3) made_all_ready_Cons [OF w1(3) w'(4)] show ?case by (metis list.simps(15))
qed

lemma cond_broadcast_rel:
  assumes "sched_rel R w a" "run_ok R w" "c \<in> a_conds a"
  shows "\<exists>w'. luvL_cond_broadcast c w = Done (int (length (a_wait a c))) w' \<and>
    sched_rel R w' (a_broadcast w c a) \<and> run_ok R w' \<and> made_all_ready (set (a_wait a c)) w w'"
  using broadcast_loop [OF assms refl, of 0] by (auto simp: luvL_cond_broadcast_def a_broadcast_def)

section \<open>Blocking\<close>

definition a_add_wait :: "qnode \<Rightarrow> sid \<Rightarrow> asched \<Rightarrow> asched" where
  "a_add_wait c s a = a\<lparr>a_wait := (a_wait a)(c := a_wait a c @ [s])\<rparr>"

definition a_add_join :: "sid \<Rightarrow> sid \<Rightarrow> asched \<Rightarrow> asched" where
  "a_add_join f s a = a\<lparr>a_join := (a_join a)(f := a_join a f @ [s])\<rparr>"

lemma a_add_sel [simp]:
  "a_ready (a_add_wait c s a) = a_ready a" "a_join (a_add_wait c s a) = a_join a"
  "a_wait (a_add_wait c s a) = (a_wait a)(c := a_wait a c @ [s])" "a_conds (a_add_wait c s a) = a_conds a"
  "a_ready (a_add_join f s a) = a_ready a" "a_join (a_add_join f s a) = (a_join a)(f := a_join a f @ [s])"
  "a_wait (a_add_join f s a) = a_wait a" "a_conds (a_add_join f s a) = a_conds a"
  "a_waiting (a_add_wait c s a) x \<longleftrightarrow> x = s \<or> a_waiting a x"
  "a_waiting (a_add_join f s a) x \<longleftrightarrow> x = s \<or> a_waiting a x"
  by (auto simp: a_add_wait_def a_add_join_def a_waiting_def split: if_splits)

text \<open>A running fiber that gives up its flag stays out of the ready list.\<close>

lemma sched_drop:
  assumes "sched_rel R w a" "f \<in> R \<or> is_thread w f" "\<not> (is_fiber w f \<and> dead w f)"
  shows "sched_rel R (drop_flag LUV_FREADY f w) a"
proof -
  let ?w = "drop_flag LUV_FREADY f w"
  have "links ?w a = links w a" "heads ?w a = heads w a" by (simp_all add: links_cong heads_def)
  moreover have "queued R ?w t' f' = queued R w t' f'" for t' f' using assms(2) by (auto simp: queued_def)
  moreover have "states_ok ?w" using sched_states [OF assms(1)] by (simp add: states_ok_def)
  ultimately show ?thesis using assms(1,3) by (auto simp: sched_rel_def)
qed

lemma sched_add_wait:
  assumes rel: "sched_rel R w a" and c: "c \<in> a_conds a" and s: "s < w_nstate w" "\<not> ready w s" "\<not> a_waiting a s"
  shows "sched_rel R (upd_queue (ngx_queue_insert_tail c (SCond s)) w) (a_add_wait c s a)"
proof -
  let ?w = "upd_queue (ngx_queue_insert_tail c (SCond s)) w" and ?a = "a_add_wait c s a"
  have cr: "c \<in> cond_nodes" using sched_conds [OF rel] c by blast
  have ls: "links ?w ?a = (links w a)(c := links w a c @ [SCond s])"
    using links_upd [OF cr, of ?a a "a_wait a c @ [s]" ?w w] by (simp add: cond_node_links [OF cr])
  have hd: "heads ?w ?a = heads w a" by (simp add: heads_def)
  have "\<not> linked (heads w a) (links w a) (SCond s)"
    using linked_iff(3) [OF rel] s(3) by (auto simp: a_waiting_def)
  then have "qfamily (w_queue ?w) (heads ?w ?a) (links ?w ?a)"
    unfolding hd ls
    using nq.insert_law [OF sched_family [OF rel] cond_head [OF c] link_not_head(3) [OF rel]]
    by (simp del: links.simps)
  moreover have "states_ok ?w" using sched_states [OF rel] by (simp add: states_ok_def)
  moreover have "queued R ?w t' f' = queued R w t' f'" for t' f' by (simp add: queued_def)
  moreover have "\<forall>f. s \<notin> set (a_join a f)" using s(3) by (auto simp: a_waiting_def)
  ultimately show ?thesis
    using rel c s by (auto simp: sched_rel_def split: if_splits)
qed

lemma sched_add_join:
  assumes rel: "sched_rel R w a" and f: "f < w_nstate w" "is_fiber w f"
    and s: "s < w_nstate w" "\<not> ready w s" "\<not> a_waiting a s"
  shows "sched_rel R (upd_queue (ngx_queue_insert_tail (SRouse f) (SJoin s)) w) (a_add_join f s a)"
proof -
  let ?w = "upd_queue (ngx_queue_insert_tail (SRouse f) (SJoin s)) w" and ?a = "a_add_join f s a"
  have ls: "links ?w ?a = (links w a)(SRouse f := links w a (SRouse f) @ [SJoin s])"
  proof
    fix h show "links ?w ?a h = ((links w a)(SRouse f := links w a (SRouse f) @ [SJoin s])) h"
      using f by (cases h) auto
  qed
  have hd: "heads ?w ?a = heads w a" by (simp add: heads_def)
  have "\<not> linked (heads w a) (links w a) (SJoin s)"
    using linked_iff(2) [OF rel] s(3) by (auto simp: a_waiting_def)
  then have "qfamily (w_queue ?w) (heads ?w ?a) (links ?w ?a)"
    unfolding hd ls
    using nq.insert_law [OF sched_family [OF rel] state_head [OF f(1)] link_not_head(2) [OF rel]]
    by (simp del: links.simps)
  moreover have "states_ok ?w" using sched_states [OF rel] by (simp add: states_ok_def)
  moreover have "queued R ?w t' f' = queued R w t' f'" for t' f' by (simp add: queued_def)
  moreover have "\<forall>c. s \<notin> set (a_wait a c)" using s(3) by (auto simp: a_waiting_def)
  ultimately show ?thesis
    using rel f s by (auto simp: sched_rel_def split: if_splits)
qed

end
