(* ===== verification/Sched_Ops.thy ===== *)
theory Sched_Ops
  imports Sched_Inv
begin

text \<open>
  The operations that block the running fiber, the creation and the end of a fiber, and one round
  of a thread's loop, each against the abstract scheduler.
\<close>

section \<open>Commuting updates\<close>

lemma core_cong:
  assumes "core w = core w'"
  shows "core (drop_flag F s w) = core (drop_flag F s w')" "core (raise_flag F s w) = core (raise_flag F s w')"
    "core (upd_queue g w) = core (upd_queue g w')"
  using assms by (simp_all add: core_def drop_flag_def raise_flag_def Let_def fun_eq_iff)

lemma drop_flag_queue: "drop_flag F s (upd_queue g w) = upd_queue g (drop_flag F s w)"
  by (simp add: drop_flag_def upd_state_def upd_queue_def)

lemma core_drop_enqueue:
  assumes "s \<noteq> f"
  shows "core (drop_flag F s (luvL_thread_enqueue t f (raise_flag G f w))) =
    core (luvL_thread_enqueue t f (raise_flag G f (drop_flag F s w)))"
proof -
  have "drop_flag F s (raise_flag G f w) = raise_flag G f (drop_flag F s w)"
    using assms by (simp add: drop_flag_def raise_flag_def upd_state_def fun_upd_twist)
  then show ?thesis
    using core_cong(1) [OF thread_enqueue_core [of t f "raise_flag G f w"], of F s]
    by (simp add: thread_enqueue_core drop_flag_queue)
qed

section \<open>Suspending the running fiber\<close>

definition suspended :: "sid \<Rightarrow> 'x world \<Rightarrow> 'x world" where
  "suspended f w =
     (let L = st_L (w_state w f)
      in (drop_flag LUV_FREADY f w)\<lparr>w_yield := (w_yield w)(L \<mapsto> int (length (w_stack w L)))\<rparr>)"

lemma core_suspended: "core (suspended f w) = core (drop_flag LUV_FREADY f w)"
  by (simp add: suspended_def Let_def)

lemma fiber_suspend_eq:
  assumes ok: "states_ok w" and f: "f \<in> running w" "ready w f" "\<not> dead w f"
  shows "luvL_fiber_suspend f w = Done (- 1) (suspended f w)"
proof -
  let ?w = "drop_flag LUV_FREADY f w"
  have "states_ok ?w" using ok by (simp add: states_ok_def)
  then have "luvL_thread_self (st_L (w_state w f)) ?w = Done (outer w f) ?w"
    using thread_self_fiber [of ?w f] f by (simp add: running_def)
  then have "luvL_state_is_active f ?w = Done True ?w"
    using f(1) by (simp add: luvL_state_is_active_def running_def)
  then show ?thesis
    using f(2) by (simp add: luvL_fiber_suspend_def lua_yield_def lua_gettop_def suspended_def Let_def)
qed

lemma run_not_dead:
  assumes "sched_rel R w a" "f \<in> R" "f \<in> running w"
  shows "\<not> dead w f"
  using assms sched_dead [OF assms(1), of f] by (auto simp: running_def)

lemma ready_not_waiting: "sched_rel R w a \<Longrightarrow> ready w s \<Longrightarrow> \<not> a_waiting a s"
  using sched_waiting [of R w a s] by blast

text \<open>\<open>luvL_fiber_suspend\<close> on the running fiber: it yields, without the flag and outside every queue.\<close>

lemma fiber_suspend_rel:
  assumes rel: "sched_rel R w a" and f: "f \<in> R" "f \<in> running w" "ready w f"
  shows "luvL_fiber_suspend f w = Done (- 1) (suspended f w)" "sched_rel R (suspended f w) a"
proof -
  have nd: "\<not> dead w f" using run_not_dead [OF rel f(1,2)] .
  show "luvL_fiber_suspend f w = Done (- 1) (suspended f w)"
    using fiber_suspend_eq [OF sched_states [OF rel] f(2,3) nd] .
  show "sched_rel R (suspended f w) a"
    using sched_drop [OF rel, of f] f(1) nd by (simp add: sched_rel_core [OF core_suspended])
qed

text \<open>\<open>luvL_cond_wait\<close> by the running fiber: it goes to the end of the condition's queue and yields.\<close>

lemma cond_wait_rel:
  assumes rel: "sched_rel R w a" and f: "f \<in> R" "f \<in> running w" "ready w f" and c: "c \<in> a_conds a"
  defines "w' \<equiv> suspended f (upd_queue (ngx_queue_insert_tail c (SCond f)) w)"
  shows "luvL_cond_wait vm c f w = Done (- 1) w'" "sched_rel R w' (a_add_wait c f a)"
proof -
  let ?g = "ngx_queue_insert_tail c (SCond f)"
  have nd: "\<not> dead w f" using run_not_dead [OF rel f(1,2)] .
  have "states_ok (upd_queue ?g w)" "f \<in> running (upd_queue ?g w)"
    using sched_states [OF rel] f(2) by (simp_all add: states_ok_def running_def)
  then show "luvL_cond_wait vm c f w = Done (- 1) w'"
    using fiber_suspend_eq [of "upd_queue ?g w" f] f nd
    by (simp add: luvL_cond_wait_def luvL_state_suspend_def w'_def running_def)
  have "sched_rel R (drop_flag LUV_FREADY f w) a" using sched_drop [OF rel] f(1) nd by simp
  moreover have "f < w_nstate w" using f(2) by (simp add: running_def)
  ultimately have "sched_rel R (upd_queue ?g (drop_flag LUV_FREADY f w)) (a_add_wait c f a)"
    using sched_add_wait [of R "drop_flag LUV_FREADY f w" a c f] c ready_not_waiting [OF rel f(3)] by simp
  then show "sched_rel R w' (a_add_wait c f a)"
    by (simp add: w'_def sched_rel_core [OF core_suspended] drop_flag_queue)
qed

section \<open>Joining a fiber\<close>

text \<open>A blocking call changes the flags of the caller and of the states it wakes.\<close>

definition put_to_sleep :: "sid \<Rightarrow> sid set \<Rightarrow> 'x world \<Rightarrow> 'x world \<Rightarrow> bool" where
  "put_to_sleep f S w w' \<longleftrightarrow> w_nstate w' = w_nstate w \<and> w_ext w' = w_ext w \<and> w_stack w' = w_stack w \<and>
     (\<forall>x. st_type (w_state w' x) = st_type (w_state w x) \<and> outer w' x = outer w x \<and>
          st_L (w_state w' x) = st_L (w_state w x) \<and> current w' x = current w x \<and> dead w' x = dead w x \<and>
          (ready w' x \<longleftrightarrow> x \<noteq> f \<and> (x \<in> S \<or> ready w x)))"

lemma suspended_sel [simp]:
  "w_state (suspended f w) = w_state (drop_flag LUV_FREADY f w)" "w_nstate (suspended f w) = w_nstate w"
  "w_ext (suspended f w) = w_ext w" "w_stack (suspended f w) = w_stack w"
  "w_nlua (suspended f w) = w_nlua w" "w_registry (suspended f w) = w_registry w" "w_queue (suspended f w) = w_queue w"
  "state_flag F x (suspended f w) = state_flag F x (drop_flag LUV_FREADY f w)"
  by (simp_all add: suspended_def Let_def state_flag_def)

lemma suspended_sleeps: "put_to_sleep f {} w (suspended f w)" "put_to_sleep f {} w (suspended f (upd_queue g w))"
  by (auto simp: put_to_sleep_def)

lemma join_rel:
  assumes rel: "sched_rel R w a" and f: "f \<in> R" "f \<in> running w" "ready w f"
    and g: "g < w_nstate w" "is_fiber w g" "\<not> dead w g" "g \<noteq> f"
    and wake: "ready w g \<or> \<not> a_waiting a g \<and> g \<notin> R"
  defines "w0 \<equiv> upd_queue (ngx_queue_insert_tail (SRouse g) (SJoin f)) w"
  shows "\<exists>w'. bindR (luvL_fiber_ready g w0) (\<lambda>_ w. luvL_state_suspend vm f w) = Done (- 1) w' \<and>
    sched_rel R w' (a_make_ready w g (a_add_join g f a)) \<and> put_to_sleep f {g} w w'"
proof -
  have nd: "\<not> dead w f" using run_not_dead [OF rel f(1,2)] .
  have fn: "f < w_nstate w" "is_fiber w f" using f(2) by (auto simp: running_def)
  have st0: "states_ok w0" using sched_states [OF rel] by (simp add: states_ok_def w0_def)
  define w1 where "w1 = (if ready w g then w0 else luvL_thread_enqueue (outer w g) g (raise_flag LUV_FREADY g w0))"
  have rd: "luvL_fiber_ready g w0 = Done () w1"
    using fiber_ready_eq [OF st0, of g] g by (simp add: w0_def w1_def)
  have st1: "states_ok w1" "f \<in> running w1" "ready w1 f" "\<not> dead w1 f" "is_fiber w1 f"
    using st0 f nd fn by (simp_all add: w1_def w0_def states_ok_def running_def luvL_thread_enqueue_def Let_def)
  have sus: "luvL_state_suspend vm f w1 = Done (- 1) (suspended f w1)"
    using fiber_suspend_eq [OF st1(1-4)] st1(5) by (simp add: luvL_state_suspend_def)
  let ?d = "drop_flag LUV_FREADY f w"
  let ?e = "upd_queue (ngx_queue_insert_tail (SRouse g) (SJoin f)) ?d"
  have "sched_rel R ?d a" using sched_drop [OF rel] f(1) nd by simp
  then have d0: "sched_rel R ?e (a_add_join g f a)"
    using sched_add_join [of R ?d a g f] g(1,2) fn ready_not_waiting [OF rel f(3)] by simp
  have "sched_rel R (suspended f w1) (a_make_ready w g (a_add_join g f a))"
  proof (cases "ready w g")
    case True
    then show ?thesis
      using d0 by (simp add: sched_rel_core [OF core_suspended] w1_def w0_def drop_flag_queue a_make_ready_def)
  next
    case False
    with wake g d0 have "sched_rel R (luvL_thread_enqueue (outer w g) g (raise_flag LUV_FREADY g ?e))
        (a_make_ready w g (a_add_join g f a))"
      using sched_enqueue [OF d0, of g] by (simp add: a_make_ready_def)
    moreover have c: "core (suspended f w1) = core (luvL_thread_enqueue (outer w g) g (raise_flag LUV_FREADY g ?e))"
      using False g(4) core_drop_enqueue [of f g LUV_FREADY "outer w g" LUV_FREADY w0]
      by (simp add: core_suspended w1_def w0_def drop_flag_queue)
    ultimately show ?thesis by (simp only: sched_rel_core [OF c])
  qed
  moreover have "put_to_sleep f {g} w (suspended f w1)"
    by (auto simp: put_to_sleep_def w1_def w0_def luvL_thread_enqueue_def Let_def)
  ultimately show ?thesis using rd sus by simp
qed

section \<open>New condition queues\<close>

definition a_add_cond :: "qnode list \<Rightarrow> asched \<Rightarrow> asched" where
  "a_add_cond cs a = a\<lparr>a_conds := set cs \<union> a_conds a\<rparr>"

text \<open>
  A world with more condition queues \<open>cs\<close>: a condition variable or the two queues of an object,
  which has just been allocated and initialised.
\<close>

definition cond_added :: "qnode list \<Rightarrow> 'x world \<Rightarrow> 'x world \<Rightarrow> bool" where
  "cond_added cs w w' \<longleftrightarrow>
     (cs = [CondVar (w_ncond w)] \<and> w_ncond w' = Suc (w_ncond w) \<and> w_nobject w' = w_nobject w \<or>
      cs = [ORouse (w_nobject w), OQueue (w_nobject w)] \<and> w_nobject w' = Suc (w_nobject w) \<and> w_ncond w' = w_ncond w) \<and>
     w_queue w' = fold ngx_queue_init cs (w_queue w) \<and> w_nstate w' = w_nstate w \<and> w_nlua w' = w_nlua w \<and>
     w_registry w' = w_registry w \<and> w_state w' = w_state w"

lemma qfamily_init_heads:
  assumes "qfamily q H Q" "set cs \<inter> H = {}" "distinct cs" "set cs \<subseteq> cond_nodes" "\<forall>h c. c \<in> cond_nodes \<longrightarrow> c \<notin> set (Q h)"
  shows "qfamily (fold ngx_queue_init cs q) (set cs \<union> H) (\<lambda>h. if h \<in> set cs then [] else Q h)"
  using assms
proof (induction cs arbitrary: q H Q)
  case (Cons c cs)
  have "\<not> linked H Q c" using Cons.prems by (auto simp: linked_def)
  with Cons.prems have "qfamily (ngx_queue_init c q) (insert c H) (Q(c := []))"
    by (intro nq.init_law) auto
  with Cons.prems have "qfamily (fold ngx_queue_init cs (ngx_queue_init c q)) (set cs \<union> insert c H)
      (\<lambda>h. if h \<in> set cs then [] else (Q(c := [])) h)"
    by (intro Cons.IH) (auto simp: fun_upd_def)
  moreover have "(\<lambda>h. if h \<in> set (c # cs) then [] else Q h) = (\<lambda>h. if h \<in> set cs then [] else (Q(c := [])) h)"
    by auto
  ultimately show ?case by simp
qed simp

lemma cond_added_rel:
  assumes rel: "sched_rel R w a" and ad: "cond_added cs w w'"
  shows "sched_rel R w' (a_add_cond cs a)"
proof -
  let ?a = "a_add_cond cs a"
  have ch: "cond_heads w' = set cs \<union> cond_heads w" and new: "set cs \<inter> cond_heads w = {}"
    and cs: "set cs \<subseteq> cond_nodes" "distinct cs"
    using ad by (auto simp: cond_added_def cond_heads_def cond_nodes_def lessThan_Suc)
  then have new': "set cs \<inter> a_conds a = {}" using rel by (simp add: sched_rel_def)
  have fl: "state_flag F s w' = state_flag F s w" for F s using ad by (simp add: state_flag_def cond_added_def)
  have empty: "a_wait a c = []" if "c \<in> set cs" for c
  proof (rule ccontr)
    assume "a_wait a c \<noteq> []"
    then have "hd (a_wait a c) \<in> set (a_wait a c)" by simp
    then show False using rel new' that unfolding sched_rel_def by blast
  qed
  have ls: "links w' ?a = (\<lambda>h. if h \<in> set cs then [] else links w a h)"
  proof
    fix h show "links w' ?a h = (if h \<in> set cs then [] else links w a h)"
      using ad cs empty by (cases h) (auto simp: a_add_cond_def cond_added_def)
  qed
  have hd: "heads w' ?a = set cs \<union> heads w a" using ad by (auto simp: heads_def a_add_cond_def cond_added_def)
  have "c \<notin> set (links w a h)" if "c \<in> cond_nodes" for c h using that by (cases h) auto
  moreover have "set cs \<inter> heads w a = {}" using cs new' by (auto simp: heads_def)
  ultimately have "qfamily (w_queue w') (heads w' ?a) (links w' ?a)"
    unfolding hd ls using qfamily_init_heads [OF sched_family [OF rel] _ cs(2,1)] ad by (simp add: cond_added_def)
  moreover have "states_ok w'" using sched_states [OF rel] ad by (simp add: states_ok_def fl cond_added_def)
  moreover have "queued R w' t' f' = queued R w t' f'" for t' f' using ad by (simp add: queued_def fl cond_added_def)
  moreover have "a_waiting ?a = a_waiting a" by (simp add: a_waiting_def a_add_cond_def fun_eq_iff)
  ultimately show ?thesis
    using rel ad unfolding sched_rel_def by (simp add: ch fl cond_added_def) (auto simp: a_add_cond_def)
qed

section \<open>New fibers\<close>

text \<open>A world with one more fiber \<open>g\<close>, as \<open>luvL_fiber_create\<close> leaves it.\<close>

definition fiber_added :: "sid \<Rightarrow> sid \<Rightarrow> 'x world \<Rightarrow> 'x world \<Rightarrow> bool" where
  "fiber_added g t w w' \<longleftrightarrow>
     g = w_nstate w \<and> w_nstate w' = Suc g \<and> w_nlua w' = Suc (w_nlua w) \<and>
     w_registry w' = (w_registry w)(w_nlua w \<mapsto> g) \<and> w_ncond w' = w_ncond w \<and> w_nobject w' = w_nobject w \<and>
     w_queue w' = ngx_queue_init (SQueue g) (ngx_queue_init (SRouse g) (w_queue w)) \<and>
     (\<forall>s. s \<noteq> g \<longrightarrow> w_state w' s = w_state w s) \<and>
     is_fiber w' g \<and> st_flags (w_state w' g) = 0 \<and> outer w' g = t \<and> st_L (w_state w' g) = w_nlua w"

lemma to_thread_eq:
  assumes "states_ok w" "s < w_nstate w" "w_state w' = w_state w"
  shows "to_thread s w' = Done (if is_thread w s then s else outer w s) w'"
  using assms
  by (cases "st_type (w_state w s)")
    (simp_all add: to_thread_def states_ok_def outer_thread.simps [of "w_state w" s]
      outer_thread.simps [of "w_state w" "outer w s"])

lemma fiber_create_eq:
  assumes ok: "states_ok w" and s: "s < w_nstate w"
    and L: "L = st_L (w_state w s)" and arg: "w_stack w L = st @ func # args" "is_fun func"
  shows "\<exists>w'. luvL_fiber_create s (Suc (length args)) w = Done (w_nstate w) w' \<and>
    fiber_added (w_nstate w) (if is_thread w s then s else outer w s) w w' \<and>
    w_stack w' L = st @ [LUser (w_nudata w)] \<and> w_stack w' (w_nlua w) = func # args \<and>
    w_udata w' (w_nudata w) = Some \<lparr>u_meta = LUV_FIBER_T, u_ptr = PState (w_nstate w)\<rparr>"
proof -
  have LL: "L \<noteq> w_nlua w" using ok s L by (auto simp: states_ok_def)
  have n: "s \<noteq> w_nstate w" "is_fiber w s \<longrightarrow> outer w s \<noteq> w_nstate w"
    using ok s by (auto simp: states_ok_def)
  show ?thesis
    using arg LL n L
    by (simp add: luvL_fiber_create_def new_udata_def lua_push_def lua_xmove_def fiber_added_def Let_def
        to_thread_eq [OF ok s])
qed

lemma links_added:
  assumes "fiber_added g t w w'" "\<forall>s. s \<notin> set (a_join a g)" "h \<in> insert (SRouse g) (heads w a)"
  shows "links w' a h = ((links w a)(SRouse g := [])) h"
  using assms by (cases h) (auto simp: fiber_added_def)

lemma fiber_added_old:
  assumes ad: "fiber_added g t w w'"
  shows "\<And>s. s < w_nstate w \<Longrightarrow> w_state w' s = w_state w s" "\<And>F. \<not> state_flag F g w'"
    "\<And>F s. s < w_nstate w \<Longrightarrow> state_flag F s w' = state_flag F s w"
  using ad by (auto simp: fiber_added_def state_flag_def)

lemma fiber_added_states:
  assumes ok: "states_ok w" and ad: "fiber_added g t w w'" and t: "t < w_nstate w" "is_thread w t"
  shows "states_ok w'"
proof -
  note ad' = ad [unfolded fiber_added_def] and old = fiber_added_old [OF ad]
  have lt: "s < Suc (w_nstate w) \<longleftrightarrow> s < w_nstate w \<or> s = w_nstate w" for s by auto
  have Lg: "st_L (w_state w s) \<noteq> w_nlua w" if "s < w_nstate w" for s
    using ok that by (auto simp: states_ok_def)
  have "inj_on (\<lambda>s. st_L (w_state w' s)) {..<w_nstate w'}"
    using ok old(1) Lg ad' by (auto simp: states_ok_def inj_on_def lt)
  moreover have "st_L (w_state w' s) < w_nlua w' \<and>
      (is_fiber w' s \<longrightarrow> outer w' s < w_nstate w' \<and> is_thread w' (outer w' s)) \<and>
      (is_thread w' s \<longrightarrow> current w' s < w_nstate w') \<and>
      (\<not> dead w' s \<longrightarrow> w_registry w' (st_L (w_state w' s)) = Some s)" if "s < w_nstate w'" for s
  proof (cases "s = g")
    case True
    then show ?thesis using ad' t old(1) [OF t(1)] by auto
  next
    case False
    with that ad' have s: "s < w_nstate w" by simp
    then show ?thesis
      using ok old(1) [OF s] old(3) [OF s] Lg [OF s] ad' old(1) [of "outer w s"] by (auto simp: states_ok_def)
  qed
  ultimately show ?thesis by (simp add: states_ok_def)
qed

lemma fiber_added_queued:
  assumes ad: "fiber_added g t w w'"
  shows "queued R w' t' f' \<longleftrightarrow> queued R w t' f'"
proof (cases "f' < w_nstate w \<and> t' < w_nstate w")
  case True
  then show ?thesis using fiber_added_old [OF ad] ad [unfolded fiber_added_def] by (simp add: queued_def)
next
  case False
  then have "\<not> queued R w t' f'" by (auto simp: queued_def)
  moreover have "\<not> queued R w' t' f'"
  proof
    assume q: "queued R w' t' f'"
    then have "f' \<noteq> g" "t' \<noteq> g" using fiber_added_old(2) [OF ad] ad [unfolded fiber_added_def] by (auto simp: queued_def)
    with q ad [unfolded fiber_added_def] False show False by (auto simp: queued_def)
  qed
  ultimately show ?thesis by blast
qed

lemma fiber_added_family:
  assumes rel: "sched_rel R w a" and ad: "fiber_added g t w w'"
  shows "qfamily (w_queue w') (heads w' a) (links w' a)"
proof -
  note ad' = ad [unfolded fiber_added_def]
  have none: "\<forall>s. s \<notin> set (a_join a g)" "\<forall>t. g \<notin> set (a_ready a t)"
    using rel ad' by (auto simp: sched_rel_def queued_def)
  have hd: "heads w' a = insert (SRouse g) (heads w a)" using ad' by (auto simp: heads_def lessThan_Suc)
  have sr: "SRouse g \<notin> heads w a" "\<not> linked (heads w a) (links w a) (SRouse g)"
  proof -
    show "SRouse g \<notin> heads w a" using ad' sched_conds [OF rel] cond_nodes_other(1) by (auto simp: heads_def)
    have "SRouse g \<notin> set (links w a h)" for h by (cases h) auto
    then show "\<not> linked (heads w a) (links w a) (SRouse g)" by (simp add: linked_def)
  qed
  let ?Q = "(links w a)(SRouse g := [])"
  have f1: "qfamily (ngx_queue_init (SRouse g) (w_queue w)) (insert (SRouse g) (heads w a)) ?Q"
    using nq.init_law [OF sched_family [OF rel] sr] .
  have "\<not> linked (heads w a) (links w a) (SQueue g)" using linked_iff(1) [OF rel] none(2) by blast
  then have "\<not> linked (insert (SRouse g) (heads w a)) ?Q (SQueue g)" by (auto simp: linked_def)
  with link_not_head(1) [OF rel] have "qfamily (w_queue w') (heads w' a) ?Q"
    using qfamily_init_link [OF f1] ad' by (simp add: hd)
  then show ?thesis
    using qfamily_cong [of "heads w' a" "links w' a" ?Q] links_added [OF ad none(1)] by (simp add: hd)
qed

lemma fiber_create_rel:
  assumes rel: "sched_rel R w a" and ad: "fiber_added g t w w'" and t: "t < w_nstate w" "is_thread w t"
  shows "sched_rel R w' a"
proof -
  note ad' = ad [unfolded fiber_added_def]
  have "cond_heads w' = cond_heads w" using ad' by (simp add: cond_heads_def)
  moreover have "s < w_nstate w' \<longleftrightarrow> s < w_nstate w \<or> s = g" for s using ad' by auto
  ultimately show ?thesis
    using rel fiber_added_family [OF rel ad] fiber_added_states [OF sched_states [OF rel] ad t]
      fiber_added_queued [OF ad] fiber_added_old [OF ad] ad' unfolding sched_rel_def by (auto simp: less_Suc_eq)
qed

end
