(* ===== verification/Sched_Loop.thy ===== *)
theory Sched_Loop
  imports Sched_Ops
begin

text \<open>
  The end of a fiber and one round of a thread's loop (\<open>luvL_thread_once\<close>) against the abstract
  scheduler, and the loop itself.
\<close>

section \<open>The states that join a finished fiber\<close>

definition a_unjoin :: "sid \<Rightarrow> asched \<Rightarrow> asched" where
  "a_unjoin f a = a\<lparr>a_join := (a_join a)(f := tl (a_join a f))\<rparr>"

lemma a_unjoin_sel [simp]:
  "a_ready (a_unjoin f a) = a_ready a" "a_wait (a_unjoin f a) = a_wait a" "a_conds (a_unjoin f a) = a_conds a"
  "a_join (a_unjoin f a) = (a_join a)(f := tl (a_join a f))"
  by (simp_all add: a_unjoin_def)

lemma join_empty_iff:
  assumes "sched_rel R w a" "f < w_nstate w" "is_fiber w f"
  shows "is_empty (SRouse f) w \<longleftrightarrow> a_join a f = []"
  using queue_empty_iff [OF sched_queue [OF assms(1) state_head [OF assms(2)]]] assms(3) by simp

lemma sched_unjoin:
  assumes rel: "sched_rel R w a" and f: "f < w_nstate w" "is_fiber w f" and j: "a_join a f = s # ss"
  shows "ngx_queue_head (SRouse f) (w_queue w) = SJoin s"
    and "sched_rel R (upd_queue (ngx_queue_remove (SJoin s)) w) (a_unjoin f a)"
    and "\<not> a_waiting (a_unjoin f a) s"
proof -
  let ?w = "upd_queue (ngx_queue_remove (SJoin s)) w"
  have lc: "links w a (SRouse f) = SJoin s # map SJoin ss" using f j by simp
  note pop = nq.pop [OF sched_family [OF rel] state_head [OF f(1)] lc]
  show "ngx_queue_head (SRouse f) (w_queue w) = SJoin s" by (rule pop(1))
  have ls: "links ?w (a_unjoin f a) = (links w a)(SRouse f := map SJoin ss)"
  proof
    fix h show "links ?w (a_unjoin f a) h = ((links w a)(SRouse f := map SJoin ss)) h"
      using f j by (cases h) auto
  qed
  have hd: "heads ?w (a_unjoin f a) = heads w a" by (simp add: heads_def)
  have mem: "set (a_join (a_unjoin f a) f') \<subseteq> set (a_join a f')" for f' using j by auto
  then have sub: "a_waiting (a_unjoin f a) x \<Longrightarrow> a_waiting a x" for x
    unfolding a_waiting_def a_unjoin_sel(2) by blast
  have "qfamily (w_queue ?w) (heads ?w (a_unjoin f a)) (links ?w (a_unjoin f a))"
    unfolding hd ls using pop(2) by simp
  moreover have "states_ok ?w" using sched_states [OF rel] by (simp add: states_ok_def)
  moreover have "queued R ?w t f = queued R w t f" for t f by (simp add: queued_def)
  ultimately show r: "sched_rel R ?w (a_unjoin f a)"
    using rel sub mem unfolding sched_rel_def
    by (simp del: a_unjoin_sel(4)) blast
  have "\<not> linked (heads ?w (a_unjoin f a)) (links ?w (a_unjoin f a)) (SJoin s)"
    unfolding hd ls by (rule pop(3))
  then have "s \<notin> set (a_join (a_unjoin f a) f')" for f'
    using linked_iff(2) [OF r] by blast
  moreover have "s \<in> set (a_join a f)" using j by simp
  then have "s \<notin> set (a_wait a c)" for c
    using rel unfolding sched_rel_def by blast
  ultimately show "\<not> a_waiting (a_unjoin f a) s" by (auto simp: a_waiting_def)
qed

text \<open>
  What a finished fiber leaves behind for the states \<open>S\<close> that joined it: they are ready, and those
  that are fibers have copies of its results on their stacks.
\<close>

definition delivered :: "sid \<Rightarrow> nat \<Rightarrow> sid set \<Rightarrow> 'x world \<Rightarrow> 'x world \<Rightarrow> bool" where
  "delivered f narg S w w' \<longleftrightarrow>
     w_nstate w' = w_nstate w \<and> w_ext w' = w_ext w \<and> w_registry w' = w_registry w \<and>
     (\<forall>x. st_type (w_state w' x) = st_type (w_state w x) \<and> outer w' x = outer w x \<and>
          st_L (w_state w' x) = st_L (w_state w x) \<and> current w' x = current w x \<and>
          dead w' x = dead w x \<and> (ready w' x \<longleftrightarrow> x \<in> S \<or> ready w x)) \<and>
     (\<forall>x<w_nstate w. w_stack w' (st_L (w_state w x)) =
        w_stack w (st_L (w_state w x)) @
          (if x \<in> S \<and> is_fiber w x then take narg (w_stack w (st_L (w_state w f))) else []))"

lemma rouse_joiner_rel:
  assumes rel: "sched_rel R w a" and run: "run_ok R w" and f: "f < w_nstate w" "is_fiber w f" "ready w f"
    and j: "a_join a f = s # ss"
  shows "\<exists>w'. rouse_joiner f narg w = Done () w' \<and> sched_rel R w' (a_make_ready w s (a_unjoin f a)) \<and>
    run_ok R w' \<and> delivered f narg {s} w w'"
proof -
  let ?w = "upd_queue (ngx_queue_remove (SJoin s)) w"
  note un = sched_unjoin [OF rel f(1,2) j]
  have wt: "a_waiting a s" using j by (auto simp: a_waiting_def intro!: exI [of _ f])
  then have s: "s < w_nstate w" "\<not> ready w s" using sched_waiting [OF rel] by auto
  have "s \<notin> R" using run_not_waiting [OF rel run wt] .
  then obtain w1 where w1: "luvL_state_ready s ?w = Done () w1" "sched_rel R w1 (a_make_ready ?w s (a_unjoin f a))"
    "made_ready s ?w w1"
    using state_ready_rel [OF un(2), of s] un(3) s by auto
  let ?w' = "copy_results f narg s w1"
  have m: "made_ready s w w1" using w1(3) by (simp add: made_ready_def)
  have c: "core ?w' = core w1" by (simp add: copy_results_def)
  have "a_make_ready ?w s = a_make_ready w s" by (simp add: a_make_ready_def fun_eq_iff)
  then have "sched_rel R ?w' (a_make_ready w s (a_unjoin f a))"
    using w1(2) by (simp add: sched_rel_core [OF c])
  moreover have "run_ok R ?w'"
    using run m by (simp add: run_ok_def core_eq [OF c] made_ready_def)
  moreover have "delivered f narg {s} w ?w'"
  proof -
    have inj: "st_L (w_state w x) = st_L (w_state w y) \<longleftrightarrow> x = y" if "x < w_nstate w" "y < w_nstate w" for x y
      using sched_states [OF rel] that by (auto simp: states_ok_def inj_on_def)
    have "s \<noteq> f" using s(2) f(3) by auto
    then show ?thesis
      using m inj s(1) f(1) core_eq [OF c]
      by (auto simp: delivered_def made_ready_def) (auto simp: copy_results_def)
  qed
  ultimately show ?thesis
    using un(1) w1(1) by (simp add: rouse_joiner_def queue_data_def of_join_def)
qed

definition a_finish :: "'x world \<Rightarrow> sid \<Rightarrow> asched \<Rightarrow> asched" where
  "a_finish w f a = fold (a_make_ready w) (a_join a f) (a\<lparr>a_join := (a_join a)(f := [])\<rparr>)"

lemma a_make_ready_upd_join:
  "a_make_ready w s (a\<lparr>a_join := x\<rparr>) = (a_make_ready w s a)\<lparr>a_join := x\<rparr>"
  by (simp add: a_make_ready_def a_enqueue_def)

lemma delivered_refl: "delivered f narg {} w w"
  by (simp add: delivered_def)

lemma delivered_trans:
  assumes d1: "delivered f narg {s} w w1" and d2: "delivered f narg S w1 w2"
    and s: "s \<notin> S" "s \<noteq> f" "f < w_nstate w"
  shows "delivered f narg (insert s S) w w2"
proof -
  have "w_stack w1 (st_L (w_state w f)) = w_stack w (st_L (w_state w f))"
    using d1 s(2,3) by (auto simp: delivered_def)
  then show ?thesis
    using d1 d2 s(1) by (auto simp: delivered_def)
qed

lemma rouse_joiners_loop:
  assumes "sched_rel R w a" "run_ok R w" "f < w_nstate w" "is_fiber w f" "ready w f" "a_join a f = ss"
  shows "\<exists>w'. rouse_joiners f narg w = Done () w' \<and>
    sched_rel R w' (fold (a_make_ready w) ss (a\<lparr>a_join := (a_join a)(f := [])\<rparr>)) \<and> run_ok R w' \<and>
    delivered f narg (set ss) w w'"
  using assms
proof (induction ss arbitrary: w a)
  case Nil
  have "(a_join a)(f := []) = a_join a" using Nil.prems(6) by (rule fun_upd_idem)
  then have eq: "a\<lparr>a_join := (a_join a)(f := [])\<rparr> = a" by simp
  show ?case
    unfolding eq fold_simps using Nil.prems join_empty_iff [OF Nil.prems(1,3,4)]
    by (simp add: rouse_joiners_def whileR_simps delivered_refl)
next
  case (Cons s ss)
  obtain w1 where w1: "rouse_joiner f narg w = Done () w1" "sched_rel R w1 (a_make_ready w s (a_unjoin f a))"
    "run_ok R w1" "delivered f narg {s} w w1"
    using rouse_joiner_rel [OF Cons.prems] by blast
  let ?a = "a_make_ready w s (a_unjoin f a)"
  have prems: "f < w_nstate w1" "is_fiber w1 f" "ready w1 f" "a_join ?a f = ss"
    using w1(4) Cons.prems by (auto simp: delivered_def)
  from Cons.IH [OF w1(2,3) prems] obtain w' where
    w': "rouse_joiners f narg w1 = Done () w'"
      "sched_rel R w' (fold (a_make_ready w1) ss (?a\<lparr>a_join := (a_join ?a)(f := [])\<rparr>))" "run_ok R w'"
      "delivered f narg (set ss) w1 w'" by blast
  have "a_waiting a s" using Cons.prems(6) by (auto simp: a_waiting_def intro!: exI [of _ f])
  then have "s \<noteq> f" using sched_waiting [OF Cons.prems(1), of s] Cons.prems(5) by auto
  moreover have dist: "s \<notin> set ss" using sched_distinct(2) [OF Cons.prems(1), of f] Cons.prems(6) by simp
  ultimately have del: "delivered f narg (insert s (set ss)) w w'"
    using delivered_trans [OF w1(4) w'(4)] Cons.prems(3) by blast
  have other: "a_make_ready w1 x = a_make_ready w x" if "x \<noteq> s" for x
    using w1(4) that by (auto simp: a_make_ready_def delivered_def fun_eq_iff)
  have "fold (a_make_ready w1) ss b = fold (a_make_ready w) ss b" for b
    using dist other by (metis fold_cong)
  moreover have "?a\<lparr>a_join := (a_join ?a)(f := [])\<rparr> = a_make_ready w s (a\<lparr>a_join := (a_join a)(f := [])\<rparr>)"
    by (simp add: a_make_ready_upd_join a_unjoin_def)
  moreover have "rouse_joiners f narg w = rouse_joiners f narg w1"
    using join_empty_iff [OF Cons.prems(1,3,4)] Cons.prems(6) w1(1) unfolding rouse_joiners_def
    by (subst whileR_unfold) simp
  ultimately have "sched_rel R w' (fold (a_make_ready w) (s # ss) (a\<lparr>a_join := (a_join a)(f := [])\<rparr>))"
    "rouse_joiners f narg w = Done () w'"
    using w'(1,2) by (simp_all only: fold_simps)
  with w'(3) del show ?case by (metis list.simps(15))
qed

text \<open>A fiber that has returned: its joining states are woken and it is closed.\<close>

lemma sched_close:
  assumes rel: "sched_rel (insert f R) w a" and f: "f < w_nstate w" "is_fiber w f" "ready w f" "f \<notin> R"
  shows "sched_rel R (luvL_fiber_close f w) a"
proof -
  have nd: "\<not> dead w f" using sched_dead [OF rel f(1,2)] by blast
  let ?w = "raise_flag LUV_FDEAD f (w\<lparr>w_registry := (w_registry w)(st_L (w_state w f) := None)\<rparr>)"
  have fl: "state_flag F x (w\<lparr>w_registry := r\<rparr>) = state_flag F x w" for F x r by (simp add: state_flag_def)
  have "cond_heads ?w = cond_heads w" by (simp add: cond_heads_def)
  moreover have "links ?w a = links w a" "heads ?w a = heads w a" by (simp_all add: links_cong heads_def)
  moreover have "queued R ?w t x \<longleftrightarrow> queued (insert f R) w t x" for t x
    using f(4) by (auto simp: queued_def fl)
  moreover have "states_ok ?w"
    using sched_states [OF rel] f(1) by (auto simp: states_ok_def fl inj_on_def)
  ultimately have "sched_rel R ?w a"
    using rel f by (auto simp: sched_rel_def fl)
  with nd show ?thesis by (simp add: luvL_fiber_close_def)
qed

section \<open>Taking the next fiber\<close>

definition a_pop :: "sid \<Rightarrow> asched \<Rightarrow> asched" where
  "a_pop t a = a\<lparr>a_ready := (a_ready a)(t := tl (a_ready a t))\<rparr>"

lemma a_pop_sel [simp]:
  "a_ready (a_pop t a) = (a_ready a)(t := tl (a_ready a t))" "a_join (a_pop t a) = a_join a"
  "a_wait (a_pop t a) = a_wait a" "a_conds (a_pop t a) = a_conds a" "a_waiting (a_pop t a) = a_waiting a"
  by (simp_all add: a_pop_def a_waiting_def fun_eq_iff)

lemma ready_empty_iff:
  assumes "sched_rel R w a" "t < w_nstate w" "is_thread w t"
  shows "is_empty (SRouse t) w \<longleftrightarrow> a_ready a t = []"
  using queue_empty_iff [OF sched_queue [OF assms(1) state_head [OF assms(2)]]] assms(3) by simp

lemma sched_pop:
  assumes rel: "sched_rel R w a" and t: "t < w_nstate w" "is_thread w t" and q: "a_ready a t = f # fs"
  shows "ngx_queue_head (SRouse t) (w_queue w) = SQueue f"
    and "sched_rel (insert f R) (upd_queue (ngx_queue_remove (SQueue f)) w) (a_pop t a)"
    and "queued R w t f"
proof -
  let ?w = "upd_queue (ngx_queue_remove (SQueue f)) w"
  have lc: "links w a (SRouse t) = SQueue f # map SQueue fs" using t q by simp
  note pop = nq.pop [OF sched_family [OF rel] state_head [OF t(1)] lc]
  show "ngx_queue_head (SRouse t) (w_queue w) = SQueue f" by (rule pop(1))
  show qd: "queued R w t f" using sched_ready [OF rel, of f t] q by simp
  have ls: "links ?w (a_pop t a) = (links w a)(SRouse t := map SQueue fs)"
  proof
    fix h show "links ?w (a_pop t a) h = ((links w a)(SRouse t := map SQueue fs)) h"
      using t q by (cases h) auto
  qed
  have hd: "heads ?w (a_pop t a) = heads w a" by (simp add: heads_def)
  have "qfamily (w_queue ?w) (heads ?w (a_pop t a)) (links ?w (a_pop t a))"
    unfolding hd ls using pop(2) by simp
  moreover have "states_ok ?w" using sched_states [OF rel] by (simp add: states_ok_def)
  moreover have "x \<in> set (a_ready (a_pop t a) t') \<longleftrightarrow> queued (insert f R) ?w t' x" for t' x
  proof -
    have "f \<notin> set fs" using sched_distinct(1) [OF rel, of t] q by simp
    moreover have "queued (insert f R) ?w t' x \<longleftrightarrow> queued R w t' x \<and> x \<noteq> f" by (auto simp: queued_def)
    moreover have "t' = t" if "queued R w t' f" using that qd by (simp add: queued_def)
    ultimately show ?thesis
      using sched_ready [OF rel, of x t'] q by auto
  qed
  moreover have "\<not> dead w f" using qd by (simp add: queued_def)
  ultimately show "sched_rel (insert f R) ?w (a_pop t a)"
    using rel by (auto simp: sched_rel_def)
qed

lemma set_curr_frame [simp]:
  "st_type (w_state (set_curr t x w) s) = st_type (w_state w s)"
  "st_flags (w_state (set_curr t x w) s) = st_flags (w_state w s)"
  "st_outer (w_state (set_curr t x w) s) = st_outer (w_state w s)"
  "st_L (w_state (set_curr t x w) s) = st_L (w_state w s)"
  "st_loop (w_state (set_curr t x w) s) = st_loop (w_state w s)"
  "st_curr (w_state (set_curr t x w) s) = (if s = t then x else st_curr (w_state w s))"
  "w_queue (set_curr t x w) = w_queue w" "w_nstate (set_curr t x w) = w_nstate w"
  "w_nlua (set_curr t x w) = w_nlua w" "w_registry (set_curr t x w) = w_registry w"
  "w_stack (set_curr t x w) = w_stack w" "state_flag F s (set_curr t x w) = state_flag F s w"
  "cond_heads (set_curr t x w) = cond_heads w" "w_ext (set_curr t x w) = w_ext w"
  by (simp_all add: set_curr_def state_flag_def)

lemma sched_set_curr:
  assumes "sched_rel R w a" "x < w_nstate w"
  shows "sched_rel R (set_curr t x w) a"
proof -
  let ?w = "set_curr t x w"
  have "links ?w a = links w a" "heads ?w a = heads w a" by (simp_all add: links_cong heads_def)
  moreover have "queued R ?w t' f' = queued R w t' f'" for t' f' by (simp add: queued_def)
  moreover have "states_ok ?w" using sched_states [OF assms(1)] assms(2) by (auto simp: states_ok_def)
  ultimately show ?thesis using assms(1) by (auto simp: sched_rel_def)
qed

lemma sched_start:
  assumes "sched_rel R w a"
  shows "sched_rel R (raise_flag LUV_FSTART f w) a"
proof -
  let ?w = "raise_flag LUV_FSTART f w"
  have "links ?w a = links w a" "heads ?w a = heads w a" by (simp_all add: links_cong heads_def)
  moreover have "queued R ?w t' f' = queued R w t' f'" for t' f' by (simp add: queued_def)
  moreover have "states_ok ?w" using sched_states [OF assms] by (simp add: states_ok_def)
  ultimately show ?thesis using assms by (auto simp: sched_rel_def)
qed

text \<open>The world in which \<open>luvL_thread_once\<close> resumes the fiber \<open>f\<close>, and the number of arguments.\<close>

definition resume_world :: "sid \<Rightarrow> sid \<Rightarrow> 'x world \<Rightarrow> 'x world" where
  "resume_world t f w =
     (let w = upd_queue (ngx_queue_remove (SQueue f)) w
      in set_curr t f (if state_flag LUV_FSTART f w then w else raise_flag LUV_FSTART f w))"

definition resume_narg :: "sid \<Rightarrow> 'x world \<Rightarrow> int" where
  "resume_narg f w =
     (let n = int (lua_gettop (st_L (w_state w f)) w) in if state_flag LUV_FSTART f w then n else n - 1)"

lemma thread_once_resume:
  assumes rel: "sched_rel R w a" and t: "t < w_nstate w" "is_thread w t" and q: "a_ready a t = f # fs"
  shows "luvL_thread_once vm t w =
    bindR (bindR (vm_resume vm (st_L (w_state w f)) (resume_narg f w) (resume_world t f w))
             (\<lambda>stat w. after_resume t f stat (set_curr t t w)))
      (\<lambda>_ w. Done (\<not> is_empty (SRouse t) w) w)"
proof -
  note pop = sched_pop [OF rel t q]
  have "\<not> dead w f" using pop(3) by (simp add: queued_def)
  then show ?thesis
    using pop(1) ready_empty_iff [OF rel t] q
    by (simp add: luvL_thread_once_def queue_data_def of_queue_def resume_world_def resume_narg_def lua_gettop_def Let_def
        split: prod.splits)
qed

lemma resume_world_rel:
  assumes rel: "sched_rel R w a" and t: "t < w_nstate w" "is_thread w t" and q: "a_ready a t = f # fs"
    and R: "R = running w" "run_ok R w" "current w t = t"
  defines "w1 \<equiv> resume_world t f w"
  shows "sched_rel (running w1) w1 (a_pop t a)" "running w1 = insert f (running w)" "run_ok (running w1) w1"
    "w_nstate w1 = w_nstate w" "is_thread w1 t" "is_fiber w1 f" "outer w1 f = t" "f \<notin> running w"
proof -
  note pop = sched_pop [OF rel t q]
  have f: "f < w_nstate w" "is_fiber w f" "outer w f = t" "ready w f" "f \<notin> R" "t \<noteq> f"
    using pop(3) t by (auto simp: queued_def)
  let ?w = "upd_queue (ngx_queue_remove (SQueue f)) w"
  have "sched_rel (insert f R) w1 (a_pop t a)"
    using sched_set_curr [OF pop(2), of f t] sched_set_curr [OF sched_start [OF pop(2)], of f f t] f(1)
    by (simp add: w1_def resume_world_def Let_def)
  moreover have run: "running w1 = insert f (running w)"
  proof -
    have "outer w x = t \<longrightarrow> current w t \<noteq> x" if "is_fiber w x" for x using R(3) t(2) that by auto
    then show ?thesis
      using f by (auto simp: running_def w1_def resume_world_def Let_def)
  qed
  ultimately show "sched_rel (running w1) w1 (a_pop t a)" using R(1) by simp
  show "running w1 = insert f (running w)" by (rule run)
  show "run_ok (running w1) w1"
    using R f unfolding run run_ok_def by (auto simp: w1_def resume_world_def Let_def)
  show "w_nstate w1 = w_nstate w" "is_thread w1 t" "is_fiber w1 f" "outer w1 f = t" "f \<notin> running w"
    using f t R(1) by (simp_all add: w1_def resume_world_def Let_def)
qed

section \<open>After the fiber ran\<close>

lemma sched_requeue:
  assumes rel: "sched_rel (insert f R) w a" and t: "t < w_nstate w" "is_thread w t"
    and f: "f < w_nstate w" "is_fiber w f" "outer w f = t" "ready w f" "f \<notin> R"
  shows "sched_rel R (upd_queue (ngx_queue_insert_tail (SRouse t) (SQueue f)) w) (a_enqueue t f a)"
proof -
  let ?w = "upd_queue (ngx_queue_insert_tail (SRouse t) (SQueue f)) w" and ?a = "a_enqueue t f a"
  have nd: "\<not> dead w f" using sched_dead [OF rel f(1,2)] by blast
  have hd: "heads ?w ?a = heads w a" by (simp add: heads_def)
  have ls: "links ?w ?a = (links w a)(SRouse t := links w a (SRouse t) @ [SQueue f])"
    using links_cong [of ?w w] links_enqueue [of w t f a] t by simp
  have nl: "\<not> linked (heads w a) (links w a) (SQueue f)"
    using linked_iff(1) [OF rel] sched_ready [OF rel] by (auto simp: queued_def)
  have "qfamily (w_queue ?w) (heads ?w ?a) (links ?w ?a)"
    unfolding hd ls
    using nq.insert_law [OF sched_family [OF rel] state_head [OF t(1)] link_not_head(1) [OF rel] nl]
    by (simp del: links.simps)
  moreover have "x \<in> set (a_ready ?a t') \<longleftrightarrow> queued R ?w t' x" for t' x
    using sched_ready [OF rel, of x t'] f t nd by (auto simp: queued_def)
  moreover have "states_ok ?w" using sched_states [OF rel] by (simp add: states_ok_def)
  ultimately show ?thesis
    using rel by (auto simp: sched_rel_def)
qed

lemma sched_unrun:
  assumes "sched_rel (insert f R) w a" "\<not> ready w f"
  shows "sched_rel R w a"
proof -
  have "queued R w t x \<longleftrightarrow> queued (insert f R) w t x" for t x
    using assms(2) by (auto simp: queued_def)
  with assms(1) show ?thesis by (auto simp: sched_rel_def)
qed

text \<open>The abstract scheduler after a fiber came back from \<open>lua_resume\<close>.\<close>

definition a_after :: "'x world \<Rightarrow> sid \<Rightarrow> sid \<Rightarrow> resume_status \<Rightarrow> asched \<Rightarrow> asched" where
  "a_after w t f stat a = (case stat of
       LUA_YIELD \<Rightarrow> if ready w f then a_enqueue t f a else a
     | LUA_OK \<Rightarrow> a_finish w f a
     | LUA_ERR \<Rightarrow> a)"

definition same_shape :: "'x world \<Rightarrow> 'x world \<Rightarrow> bool" where
  "same_shape w w' \<longleftrightarrow> w_nstate w' = w_nstate w \<and> w_ext w' = w_ext w \<and> (\<forall>x. dead w x \<longrightarrow> dead w' x) \<and>
     (\<forall>x. st_type (w_state w' x) = st_type (w_state w x) \<and> outer w' x = outer w x \<and>
          st_L (w_state w' x) = st_L (w_state w x) \<and> current w' x = current w x)"

lemma same_shape_running: "same_shape w w' \<Longrightarrow> running w' = running w"
  by (simp add: same_shape_def running_def)

lemma fiber_close_frame:
  "same_shape w (luvL_fiber_close f w)" "w_stack (luvL_fiber_close f w) = w_stack w"
  "ready (luvL_fiber_close f w) x = ready w x" "dead (luvL_fiber_close f w) f"
  by (simp_all add: luvL_fiber_close_def same_shape_def state_flag_def raise_flag_def luv_flag_defs flag_simps)

text \<open>The results of a finished fiber reach every state that waited for it.\<close>

definition joined_states_served :: "sid \<Rightarrow> sid list \<Rightarrow> 'x world \<Rightarrow> 'x world \<Rightarrow> bool" where
  "joined_states_served f ss w w' \<longleftrightarrow>
     (\<forall>s\<in>set ss. ready w' s \<and>
        (is_fiber w s \<longrightarrow> w_stack w' (st_L (w_state w s)) =
           w_stack w (st_L (w_state w s)) @ w_stack w (st_L (w_state w f))))"

lemma after_exit:
  assumes rel: "sched_rel (insert f R) w a" and f: "f < w_nstate w" "is_fiber w f" "f \<notin> R" "ready w f"
    and run: "run_ok R w"
  shows "\<exists>w'. after_resume t f LUA_OK w = Done () w' \<and> sched_rel R w' (a_finish w f a) \<and> run_ok R w' \<and>
    same_shape w w' \<and> dead w' f \<and> joined_states_served f (a_join a f) w w'"
proof -
  let ?n = "lua_gettop (st_L (w_state w f)) w"
  have "run_ok (insert f R) w" using run f(4) by (simp add: run_ok_def)
  from rouse_joiners_loop [OF rel this f(1,2,4) refl, of ?n] obtain w1 where
    w1: "rouse_joiners f ?n w = Done () w1" "sched_rel (insert f R) w1 (a_finish w f a)"
      "run_ok (insert f R) w1" "delivered f ?n (set (a_join a f)) w w1"
    unfolding a_finish_def by blast
  have f1: "f < w_nstate w1" "is_fiber w1 f" "ready w1 f"
    using w1(4) f by (auto simp: delivered_def)
  let ?w' = "luvL_fiber_close f w1"
  have "sched_rel R ?w' (a_finish w f a)" using sched_close [OF w1(2) f1 f(3)] .
  moreover have "run_ok R ?w'" using w1(3) by (simp add: run_ok_def fiber_close_frame)
  moreover have "same_shape w ?w'"
    using w1(4) fiber_close_frame(1) [of w1 f] by (auto simp: same_shape_def delivered_def)
  moreover have "joined_states_served f (a_join a f) w ?w'"
    unfolding joined_states_served_def
  proof
    fix s assume s: "s \<in> set (a_join a f)"
    then have "a_waiting a s" by (auto simp: a_waiting_def)
    then have "s < w_nstate w" using sched_waiting [OF rel] by blast
    then show "ready ?w' s \<and> (is_fiber w s \<longrightarrow> w_stack ?w' (st_L (w_state w s)) =
        w_stack w (st_L (w_state w s)) @ w_stack w (st_L (w_state w f)))"
      using w1(4) s by (simp add: delivered_def fiber_close_frame lua_gettop_def)
  qed
  ultimately show ?thesis
    using w1(1) fiber_close_frame(4) [of f w1] by (simp add: after_resume_def Let_def)
qed

lemma after_yield:
  assumes rel: "sched_rel (insert f R) w a" and t: "t < w_nstate w" "is_thread w t"
    and f: "f < w_nstate w" "is_fiber w f" "outer w f = t" "f \<notin> R" and run: "run_ok R w"
  shows "\<exists>w'. after_resume t f LUA_YIELD w = Done () w' \<and>
    sched_rel R w' (if ready w f then a_enqueue t f a else a) \<and> run_ok R w' \<and> same_shape w w'"
proof (cases "ready w f")
  case True
  with sched_requeue [OF rel t f(1-3) True f(4)] run show ?thesis
    by (simp add: after_resume_def Let_def run_ok_def same_shape_def)
next
  case False
  with sched_unrun [OF rel False] run show ?thesis
    by (simp add: after_resume_def Let_def same_shape_def)
qed

lemma after_error:
  assumes rel: "sched_rel (insert f R) w a" and f: "f < w_nstate w" "is_fiber w f" "f \<notin> R" "ready w f"
    and run: "run_ok R w"
  shows "\<exists>w' msg. after_resume t f LUA_ERR w = Raise msg w' \<and> sched_rel R w' a \<and> run_ok R w' \<and>
    same_shape w w' \<and> dead w' f"
proof -
  obtain msg where r: "after_resume t f LUA_ERR w =
      Raise msg (luvL_fiber_close f (lua_push (st_L (w_state w t)) msg w))"
    by (simp add: after_resume_def Let_def)
  let ?w = "lua_push (st_L (w_state w t)) msg w"
  have c: "core ?w = core w" by (simp add: lua_push_def)
  have "sched_rel (insert f R) ?w a" using rel by (simp add: sched_rel_core [OF c])
  then have "sched_rel R (luvL_fiber_close f ?w) a"
    using f by (intro sched_close) (simp_all add: core_eq [OF c])
  moreover have "run_ok R (luvL_fiber_close f ?w)"
    using run by (simp add: run_ok_def fiber_close_frame core_eq [OF c])
  moreover have "same_shape w (luvL_fiber_close f ?w)"
    using fiber_close_frame(1) [of ?w f] by (simp add: same_shape_def core_eq [OF c]) (simp add: lua_push_def)
  ultimately show ?thesis using r fiber_close_frame(4) [of f ?w] by blast
qed

end
