(* ===== verification/Sched_Run.thy ===== *)
theory Sched_Run
  imports Sched_Loop
begin

text \<open>
  What Lua code and the event loop may do to the scheduler, as a step relation: they call the
  functions of the library.  A fiber that runs makes such calls and then returns, fails, or
  yields through one of the blocking calls.  The locale \<open>luv_vm\<close> states this of \<open>lua_resume\<close> and
  \<open>uv_run_once\<close>, which are not part of the repository; everything about \<open>luvL_thread_once\<close>,
  \<open>luvL_thread_loop\<close> and \<open>luvL_thread_suspend\<close> is proved from it.
\<close>

section \<open>Calls that do not block\<close>

text \<open>
  A pair of the world and the abstract scheduler it represents moves by one call.  A fiber is only
  woken when it does not wait in a queue: \<open>luv_fiber_join\<close> and \<open>fiber:ready()\<close> call
  \<open>luvL_fiber_ready\<close> without looking, which is a duty of the caller here.
\<close>

inductive api_step :: "'x world \<times> asched \<Rightarrow> 'x world \<times> asched \<Rightarrow> bool" where
  step_lua: "core w' = core w \<Longrightarrow> api_step (w, a) (w', a)"
| step_ready: "luvL_state_ready s w = Done () w' \<Longrightarrow> s < w_nstate w \<Longrightarrow> ready w s \<or> \<not> a_waiting a s \<Longrightarrow>
    api_step (w, a) (w', a_make_ready w s a)"
| step_signal: "luvL_cond_signal c w = Done n w' \<Longrightarrow> c \<in> a_conds a \<Longrightarrow> api_step (w, a) (w', a_signal w c a)"
| step_broadcast: "luvL_cond_broadcast c w = Done n w' \<Longrightarrow> c \<in> a_conds a \<Longrightarrow>
    api_step (w, a) (w', a_broadcast w c a)"
| step_create: "luvL_fiber_create s narg w = Done g w' \<Longrightarrow> s < w_nstate w \<Longrightarrow>
    narg \<le> length (w_stack w (st_L (w_state w s))) \<Longrightarrow> api_step (w, a) (w', a)"
| step_cond: "cond_added cs w w' \<Longrightarrow> api_step (w, a) (w', a_add_cond cs a)"

abbreviation api_steps :: "'x world \<times> asched \<Rightarrow> 'x world \<times> asched \<Rightarrow> bool" where
  "api_steps \<equiv> api_step\<^sup>*\<^sup>*"

inductive_cases api_stepE: "api_step (w, a) p"

text \<open>The invariant while something runs: the relation, and the running fibers are not suspended.\<close>

definition sched_inv :: "'x world \<Rightarrow> asched \<Rightarrow> bool" where
  "sched_inv w a \<longleftrightarrow> sched_rel (running w) w a \<and> run_ok (running w) w"

text \<open>Steps only add live fibers, and keep what the other states are.\<close>

definition grown :: "'x world \<Rightarrow> 'x world \<Rightarrow> bool" where
  "grown w w' \<longleftrightarrow> w_nstate w \<le> w_nstate w' \<and>
     (\<forall>x<w_nstate w. st_type (w_state w' x) = st_type (w_state w x) \<and> outer w' x = outer w x \<and>
        st_L (w_state w' x) = st_L (w_state w x) \<and> current w' x = current w x \<and> dead w' x = dead w x) \<and>
     (\<forall>x<w_nstate w'. w_nstate w \<le> x \<longrightarrow> is_fiber w' x \<and> \<not> dead w' x)"

lemma grown_refl [simp]: "grown w w"
  by (simp add: grown_def)

lemma grown_trans:
  assumes "grown w w1" "grown w1 w2"
  shows "grown w w2"
proof -
  have "is_fiber w2 x \<and> \<not> dead w2 x" if "x < w_nstate w2" "w_nstate w \<le> x" for x
    using assms that by (cases "x < w_nstate w1") (auto simp: grown_def)
  with assms show ?thesis by (auto simp: grown_def)
qed

lemma made_ready_grown: "made_ready s w w' \<Longrightarrow> grown w w'"
  and made_all_ready_grown: "made_all_ready S w w' \<Longrightarrow> grown w w'"
  by (simp_all add: made_ready_def made_all_ready_def grown_def)

lemma core_grown: assumes "core w' = core w" shows "grown w w'"
  by (simp add: grown_def core_eq [OF assms])

lemma made_ready_shape: "made_ready s w w' \<Longrightarrow> same_shape w w'"
  and made_all_ready_shape: "made_all_ready S w w' \<Longrightarrow> same_shape w w'"
  by (simp_all add: made_ready_def made_all_ready_def same_shape_def)

lemma running_added:
  assumes ok: "states_ok w" and ad: "fiber_added g t w w'" and t: "t < w_nstate w" "is_thread w t"
  shows "running w' = running w" "grown w w'"
proof -
  note ad' = ad [unfolded fiber_added_def]
  have old: "w_state w' s = w_state w s" if "s < w_nstate w" for s using ad' that by auto
  have "current w t \<noteq> g" using ok t ad' by (auto simp: states_ok_def)
  then have "g \<notin> running w'" using old [OF t(1)] ad' by (auto simp: running_def)
  moreover have "x \<in> running w' \<longleftrightarrow> x \<in> running w" if "x \<noteq> g" for x
    using that ad' old ok by (auto simp: running_def states_ok_def less_Suc_eq)
  moreover have "g \<notin> running w" using ad' by (simp add: running_def)
  ultimately show "running w' = running w" by (metis set_eqI)
  show "grown w w'" using old ad' by (auto simp: grown_def state_flag_def less_Suc_eq)
qed

lemma fiber_create_Done:
  assumes ok: "states_ok w" and s: "s < w_nstate w" and run: "luvL_fiber_create s narg w = Done g w'"
    and n: "narg \<le> length (w_stack w (st_L (w_state w s)))"
  shows "fiber_added g (if is_thread w s then s else outer w s) w w'"
proof -
  let ?st = "w_stack w (st_L (w_state w s))"
  let ?k = "length ?st - narg"
  have arg: "narg \<noteq> 0" "?k < length ?st" "is_fun (?st ! ?k)"
    using run by (auto simp: luvL_fiber_create_def Let_def split: if_splits)
  then have "?st = take ?k ?st @ ?st ! ?k # drop (Suc ?k) ?st" by (simp add: id_take_nth_drop)
  moreover have "narg = Suc (length (drop (Suc ?k) ?st))" using arg n by simp
  ultimately show ?thesis
    using fiber_create_eq [OF ok s refl _ arg(3), of "take ?k ?st" "drop (Suc ?k) ?st"] run by auto
qed

lemma fiber_home:
  assumes "states_ok w" "s < w_nstate w"
  shows "(if is_thread w s then s else outer w s) < w_nstate w" "is_thread w (if is_thread w s then s else outer w s)"
  using assms by (cases "st_type (w_state w s)"; auto simp: states_ok_def)+

text \<open>Every call keeps the invariant.\<close>

lemma api_step_inv:
  assumes "api_step (w, a) (w', a')" "sched_inv w a"
  shows "sched_inv w' a' \<and> running w' = running w \<and> grown w w'"
  using assms(1)
proof cases
  case step_lua
  then have "running w' = running w" by (simp add: running_def core_eq [OF step_lua(2)])
  with assms(2) step_lua show ?thesis
    by (simp add: sched_inv_def sched_rel_core [OF step_lua(2)] run_ok_def grown_def core_eq [OF step_lua(2)])
next
  case (step_ready s)
  have inv: "sched_rel (running w) w a" "run_ok (running w) w" using assms(2) by (simp_all add: sched_inv_def)
  have "ready w s \<or> \<not> a_waiting a s \<and> s \<notin> running w" using step_ready(4) inv(2) by (auto simp: run_ok_def)
  with state_ready_rel [OF inv(1) step_ready(3)] step_ready
  have r: "sched_rel (running w) w' a'" "made_ready s w w'" by auto
  note sh = made_ready_shape [OF r(2)]
  show ?thesis
    using r run_ok_ready [OF inv(2) r(2)] same_shape_running [OF sh] made_ready_grown [OF r(2)]
    by (simp add: sched_inv_def)
next
  case (step_signal c n)
  have inv: "sched_rel (running w) w a" "run_ok (running w) w" using assms(2) by (simp_all add: sched_inv_def)
  obtain w1 where r: "luvL_cond_signal c w = Done (if a_wait a c = [] then 0 else 1) w1" "sched_rel (running w) w1 (a_signal w c a)" "run_ok (running w) w1"
    "case a_wait a c of [] \<Rightarrow> w1 = w | s # _ \<Rightarrow> made_ready s w w1"
    using cond_signal_rel [OF inv step_signal(3)] by blast
  have "w1 = w'" using r(1) step_signal(2) by simp
  moreover have "same_shape w w1" "grown w w1"
    using r(4) made_ready_shape made_ready_grown by (fastforce simp: same_shape_def split: list.splits)+
  ultimately show ?thesis
    using r(2,3) step_signal(1) same_shape_running by (force simp: sched_inv_def)
next
  case (step_broadcast c n)
  have inv: "sched_rel (running w) w a" "run_ok (running w) w" using assms(2) by (simp_all add: sched_inv_def)
  obtain w1 where r: "luvL_cond_broadcast c w = Done (int (length (a_wait a c))) w1"
    "sched_rel (running w) w1 (a_broadcast w c a)" "run_ok (running w) w1" "made_all_ready (set (a_wait a c)) w w1"
    using cond_broadcast_rel [OF inv step_broadcast(3)] by blast
  have "w1 = w'" using r(1) step_broadcast(2) by simp
  with r(2-) made_all_ready_shape [OF r(4)] show ?thesis
    using step_broadcast(1) same_shape_running made_all_ready_grown [OF r(4)] by (force simp: sched_inv_def)
next
  case (step_create s narg g)
  have inv: "sched_rel (running w) w a" "run_ok (running w) w" using assms(2) by (simp_all add: sched_inv_def)
  note ok = sched_states [OF inv(1)]
  note ad = fiber_create_Done [OF ok step_create(3,2,4)]
  note home = fiber_home [OF ok step_create(3)]
  note run = running_added [OF ok ad home]
  have "ready w' f = ready w f" if "f \<in> running w" for f
    using that ad by (auto simp: running_def fiber_added_def state_flag_def)
  then show ?thesis
    using fiber_create_rel [OF inv(1) ad home] inv(2) run step_create(1)
    by (simp add: sched_inv_def run_ok_def)
next
  case (step_cond c)
  then have w': "w_state w' = w_state w" "w_nstate w' = w_nstate w" by (simp_all add: cond_added_def)
  then have "running w' = running w" "grown w w'" by (simp_all add: running_def grown_def state_flag_def)
  with assms(2) cond_added_rel [OF _ step_cond(2)] w' step_cond(1) show ?thesis
    by (auto simp: sched_inv_def run_ok_def state_flag_def)
qed

lemma api_steps_inv:
  assumes "api_steps (w, a) (w', a')" "sched_inv w a"
  shows "sched_inv w' a' \<and> running w' = running w \<and> grown w w'"
  using assms(1)
proof (induction "(w', a')" arbitrary: w' a' rule: rtranclp_induct)
  case base
  then show ?case using assms(2) by simp
next
  case (step p)
  obtain w1 a1 where p: "p = (w1, a1)" by fastforce
  from step(3) [OF p] api_step_inv [OF step(2) [unfolded p]] show ?case
    using grown_trans by fastforce
qed

section \<open>How a run of a fiber ends\<close>

text \<open>
  \<open>lua_resume\<close> comes back when the function of the fiber returns, fails, or yields: by
  \<open>coroutine.yield\<close>, or through one of the calls of the library that block.  After the call
  the virtual machine only moves values on stacks.
\<close>

inductive fiber_stop :: "'x vm \<Rightarrow> sid \<Rightarrow> 'x world \<times> asched \<Rightarrow> resume_status \<Rightarrow> 'x world \<times> asched \<Rightarrow> bool"
  for vm f where
  stop_return: "core w' = core w \<Longrightarrow> fiber_stop vm f (w, a) LUA_OK (w', a)"
| stop_error: "core w' = core w \<Longrightarrow> fiber_stop vm f (w, a) LUA_ERR (w', a)"
| stop_coroutine_yield: "core w' = core w \<Longrightarrow> fiber_stop vm f (w, a) LUA_YIELD (w', a)"
| stop_yield: "luvL_state_yield vm f narg w = Done n w1 \<Longrightarrow> core w' = core w1 \<Longrightarrow>
    fiber_stop vm f (w, a) LUA_YIELD (w', a)"
| stop_suspend: "luvL_state_suspend vm f w = Done n w1 \<Longrightarrow> core w' = core w1 \<Longrightarrow>
    fiber_stop vm f (w, a) LUA_YIELD (w', a)"
| stop_wait: "luvL_cond_wait vm c f w = Done n w1 \<Longrightarrow> c \<in> a_conds a \<Longrightarrow> core w' = core w1 \<Longrightarrow>
    fiber_stop vm f (w, a) LUA_YIELD (w', a_add_wait c f a)"
| stop_join: "luv_fiber_join vm (st_L (w_state w f)) w = Done n w1 \<Longrightarrow>
    lua_touserdata (st_L (w_state w f)) 1 w = Some (PState g) \<Longrightarrow> g < w_nstate w \<Longrightarrow> is_fiber w g \<Longrightarrow>
    \<not> dead w g \<Longrightarrow> ready w g \<or> \<not> a_waiting a g \<Longrightarrow> core w' = core w1 \<Longrightarrow>
    fiber_stop vm f (w, a) LUA_YIELD (w', a_make_ready w g (a_add_join g f a))"

inductive_cases fiber_stopE: "fiber_stop vm f (w, a) stat p"

text \<open>After the run the fiber may be asleep; everything else is as the invariant says.\<close>

definition stopped :: "sid \<Rightarrow> 'x world \<Rightarrow> resume_status \<Rightarrow> 'x world \<Rightarrow> asched \<Rightarrow> bool" where
  "stopped f w stat w' a' \<longleftrightarrow> sched_rel (running w) w' a' \<and> running w' = running w \<and> grown w w' \<and>
     run_ok (running w - {f}) w' \<and> (stat \<noteq> LUA_YIELD \<longrightarrow> ready w' f)"

lemma stopped_core:
  assumes "core w' = core w1" "stopped f w stat w1 a'"
  shows "stopped f w stat w' a'"
  using assms(2) grown_trans [OF _ core_grown [OF assms(1)]]
  by (auto simp: stopped_def sched_rel_core [OF assms(1)] running_def core_eq [OF assms(1)] run_ok_def)

lemma stopped_here:
  assumes "sched_inv w a" "f \<in> running w"
  shows "stopped f w stat w a"
  using assms by (auto simp: stopped_def sched_inv_def run_ok_def)

lemma stopped_asleep:
  assumes "sched_inv w a" "sched_rel (running w) w' a'" "put_to_sleep f S w w'"
  shows "stopped f w LUA_YIELD w' a'"
  using assms by (auto simp: stopped_def sched_inv_def put_to_sleep_def running_def grown_def run_ok_def)

lemma fiber_yield_eq:
  assumes inv: "sched_inv w a" and f: "f \<in> running w" and run: "luvL_state_yield vm f narg w = Done n w1"
  shows "core w1 = core w"
proof -
  have "ready w f" "is_fiber w f" using inv f by (auto simp: sched_inv_def run_ok_def running_def)
  moreover have act: "w2 = w" if "luvL_state_is_active f w = Done b w2" for b w2
    using that by (auto simp: luvL_state_is_active_def luvL_thread_self_def to_thread_def deref_def res_simps
        split: option.splits)
  moreover obtain b where "luvL_state_is_active f w = Done b w"
    using run act by (cases "luvL_state_is_active f w") (auto simp: luvL_state_yield_def)
  ultimately show ?thesis
    using run by (cases b) (auto simp: luvL_state_yield_def luvL_fiber_yield_def luvL_fiber_ready_def lua_yield_def core_def Let_def)
qed

lemma fiber_join_eq:
  assumes inv: "sched_inv w a" and f: "f \<in> running w"
    and run: "luv_fiber_join vm (st_L (w_state w f)) w = Done n w1"
    and g: "lua_touserdata (st_L (w_state w f)) 1 w = Some (PState g)" "\<not> dead w g"
  shows "bindR (luvL_fiber_ready g (upd_queue (ngx_queue_insert_tail (SRouse g) (SJoin f)) w))
      (\<lambda>_ w. luvL_state_suspend vm f w) = Done n w1 \<and> g \<noteq> f"
proof -
  let ?L = "st_L (w_state w f)"
  have rel: "sched_rel (running w) w a" using inv by (simp add: sched_inv_def)
  have nd: "\<not> dead w f" using run_not_dead [OF rel f f] .
  have fi: "f < w_nstate w" "is_fiber w f" using f by (auto simp: running_def)
  then have self: "luvL_state_self ?L w = Some f"
    using sched_states [OF rel] nd by (simp add: luvL_state_self_def states_ok_def)
  have "luaL_checkudata ?L 1 LUV_FIBER_T w = Done (PState g) w"
    using g(1) run by (auto simp: luv_fiber_join_def luaL_checkudata_def lua_touserdata_def split: option.splits lua_value.splits if_splits)
  with run self g(2) have j: "g \<noteq> f" "bindR (luvL_fiber_ready g (upd_queue (ngx_queue_insert_tail (SRouse g) (SJoin f)) w))
      (\<lambda>_ w. if is_fiber w f then luvL_state_suspend vm f w
             else bindR (luvL_state_suspend vm f w) (\<lambda>_ w. let (n, w) = luvL_state_xcopy g f w in Done n w)) = Done n w1"
    by (auto simp: luv_fiber_join_def as_state_def Let_def c_assert_def split: if_splits)
  have "is_fiber w' f" if "luvL_fiber_ready g (upd_queue q w) = Done u w'" for u w' q
    using that fi(2) by (auto simp: luvL_fiber_ready_def luvL_thread_self_def to_thread_def res_simps
        luvL_thread_enqueue_def Let_def deref_def split: if_splits option.splits)
  with j show ?thesis by (auto simp: res_simps)
qed

lemma fiber_stop_inv:
  assumes stop: "fiber_stop vm f (w, a) stat (w', a')" and inv: "sched_inv w a" and f: "f \<in> running w"
  shows "stopped f w stat w' a'"
proof -
  have rel: "sched_rel (running w) w a" and rdy: "ready w f" using inv f by (auto simp: sched_inv_def run_ok_def)
  have fi: "is_fiber w f" using f by (simp add: running_def)
  note here = stopped_here [OF inv f]
  show ?thesis using stop
  proof (cases rule: fiber_stop.cases)
    case (stop_yield narg n w1)
    then show ?thesis using here stopped_core fiber_yield_eq [OF inv f] by metis
  next
    case (stop_suspend n w1)
    note sus = fiber_suspend_rel [OF rel f f rdy]
    have "w1 = suspended f w" using stop_suspend(3) sus(1) fi by (simp add: luvL_state_suspend_def)
    then show ?thesis
      using stopped_core [OF stop_suspend(4)] stopped_asleep [OF inv sus(2) suspended_sleeps(1)] stop_suspend by blast
  next
    case (stop_wait c n w1)
    note wt = cond_wait_rel [OF rel f f rdy stop_wait(4)]
    have "w1 = suspended f (upd_queue (ngx_queue_insert_tail c (SCond f)) w)" using stop_wait(3) wt(1) [of vm] by simp
    then show ?thesis
      using stopped_core [OF stop_wait(5)] stopped_asleep [OF inv wt(2) suspended_sleeps(2)] stop_wait by blast
  next
    case (stop_join n w1 g)
    note j = fiber_join_eq [OF inv f stop_join(3,4,7)]
    have wake: "ready w g \<or> \<not> a_waiting a g \<and> g \<notin> running w"
      using stop_join(8) inv by (auto simp: sched_inv_def run_ok_def)
    from join_rel [OF rel f f rdy stop_join(5-7) _ wake, of vm] j
    have r: "sched_rel (running w) w1 a'" "put_to_sleep f {g} w w1" using stop_join(2) by auto
    show ?thesis using stopped_core [OF stop_join(9) stopped_asleep [OF inv r]] stop_join(1) by simp
  qed (use here stopped_core in blast)+
qed

end
