(* ===== verification/Sched_Vm.thy ===== *)
theory Sched_Vm
  imports Sched_Run
begin

text \<open>
  The scheduler of a thread for any virtual machine.  The locale \<open>luv_vm\<close> states what the scheduler
  relies on of \<open>lua_resume\<close> and \<open>uv_run_once\<close>: whatever they do to the states and queues, they do by
  calls of the library.  Inside it are the invariant of \<open>luvL_thread_once\<close>, \<open>luvL_thread_loop\<close> and
  \<open>luvL_thread_suspend\<close>, and the order in which fibers run.  The locale \<open>luv_finite_vm\<close> adds a
  bound on the yields and new fibers of the program; there \<open>luvL_thread_loop\<close> returns.
\<close>

section \<open>Ready lists grow at the back\<close>

definition behind :: "asched \<Rightarrow> asched \<Rightarrow> bool" where
  "behind a a' \<longleftrightarrow> (\<forall>t. \<exists>new. a_ready a' t = a_ready a t @ new)"

lemma behind_refl [simp]: "behind a a"
  by (simp add: behind_def)

lemma behind_trans: "behind a a1 \<Longrightarrow> behind a1 a2 \<Longrightarrow> behind a a2"
  unfolding behind_def by (metis append.assoc)

lemma behind_same: "a_ready a' = a_ready a \<Longrightarrow> behind a a'"
  by (simp add: behind_def)

lemma behind_enqueue: "behind a (a_enqueue t f a)"
  by (auto simp: behind_def a_enqueue_def)

lemma behind_make_ready: "a_ready b = a_ready a \<Longrightarrow> behind a (a_make_ready w s b)"
  by (auto simp: behind_def a_make_ready_def a_enqueue_def)

lemma behind_fold: "a_ready b = a_ready a \<Longrightarrow> behind a (fold (a_make_ready w) ss b)"
proof (induction ss arbitrary: a b)
  case (Cons s ss)
  then show ?case using behind_trans [OF behind_make_ready [OF Cons.prems]] by fastforce
qed (simp add: behind_same)

lemma api_step_behind:
  assumes "api_step (w, a) (w', a')"
  shows "behind a a'"
  using assms
proof cases
  case (step_signal c n)
  then show ?thesis by (auto simp: a_signal_def intro: behind_make_ready split: list.splits)
next
  case (step_broadcast c n)
  then show ?thesis by (auto simp: a_broadcast_def intro: behind_fold)
qed (auto simp: behind_make_ready a_add_cond_def intro: behind_same)

lemma api_steps_behind:
  assumes "api_steps (w, a) (w', a')"
  shows "behind a a'"
  using assms
proof (induction "(w', a')" arbitrary: w' a' rule: rtranclp_induct)
  case (step p)
  obtain w1 a1 where p: "p = (w1, a1)" by fastforce
  from step(3) [OF p] api_step_behind [OF step(2) [unfolded p]] show ?case by (rule behind_trans)
qed simp

lemma fiber_stop_behind:
  assumes "fiber_stop vm f (w, a) stat (w', a')"
  shows "behind a a'"
  using assms
proof cases
qed (auto intro: behind_same behind_make_ready)

lemma a_finish_behind: "behind a (a_finish w f a)"
  unfolding a_finish_def by (rule behind_fold) simp

section \<open>Back in the loop of the thread\<close>

text \<open>A thread whose current state is itself: it runs its loop or its own code.\<close>

definition at_home :: "sid \<Rightarrow> 'x world \<Rightarrow> bool" where
  "at_home t w \<longleftrightarrow> t < w_nstate w \<and> is_thread w t \<and> current w t = t"

lemma at_home_grown: "at_home t w \<Longrightarrow> grown w w' \<Longrightarrow> at_home t w'"
  by (auto simp: at_home_def grown_def)

lemma at_home_shape: "at_home t w \<Longrightarrow> same_shape w w' \<Longrightarrow> at_home t w'"
  by (auto simp: at_home_def same_shape_def)

lemma running_back:
  assumes "f \<in> running w" "outer w f = t" "is_thread w t"
  shows "running (set_curr t t w) = running w - {f}"
  using assms by (auto simp: running_def)

text \<open>
  The fiber \<open>f\<close> ran on \<open>t\<close> and came back with a status; \<open>w1\<close> is the world it started in.  What
  \<open>luvL_thread_once\<close> does with the status restores the invariant.
\<close>

lemma after_resume_inv:
  assumes st: "stopped f w1 stat w2 a2" and run1: "running w1 = insert f R" "f \<notin> R"
    and t: "t < w_nstate w1" "is_thread w1 t" and f: "outer w1 f = t"
  defines "w3 \<equiv> set_curr t t w2"
  shows "\<exists>w4. (if stat = LUA_ERR then \<exists>msg. after_resume t f stat w3 = Raise msg w4
               else after_resume t f stat w3 = Done () w4) \<and>
    sched_inv w4 (a_after w3 t f stat a2) \<and> same_shape w3 w4 \<and> at_home t w4 \<and>
    (stat \<noteq> LUA_YIELD \<longrightarrow> dead w4 f) \<and>
    (stat = LUA_OK \<longrightarrow> joined_states_served f (a_join a2 f) w3 w4)"
proof -
  note st' = st [unfolded stopped_def]
  have f1: "f \<in> running w1" using run1 by simp
  then have fi: "f < w_nstate w1" "is_fiber w1 f" by (simp_all add: running_def)
  have home: "at_home t w3" using st' t by (auto simp: at_home_def w3_def grown_def)
  have w2: "outer w2 f = t" "is_thread w2 t" "f < w_nstate w2" "is_fiber w2 f"
    using st' fi f t by (auto simp: grown_def)
  have R: "running w3 = R" unfolding w3_def using running_back [of f w2 t] w2 st' f1 run1 by auto
  have tn: "t < w_nstate w2" using home by (simp add: at_home_def w3_def)
  have rel: "sched_rel (insert f R) w3 a2"
    using sched_set_curr [of "insert f R" w2 a2 t t] st' run1(1) tn by (simp add: w3_def)
  have run: "run_ok R w3" using st' run1 by (auto simp: run_ok_def w3_def)
  have rdy: "stat \<noteq> LUA_YIELD \<Longrightarrow> ready w3 f" using st' by (simp add: w3_def)
  have f3: "f < w_nstate w3" "is_fiber w3 f" "outer w3 f = t" using w2 by (simp_all add: w3_def)
  have inv: "sched_inv w4 a4 \<and> at_home t w4"
    if "sched_rel R w4 a4" "run_ok R w4" "same_shape w3 w4" for w4 a4
    using that same_shape_running [OF that(3)] at_home_shape [OF home that(3)] R by (simp add: sched_inv_def)
  show ?thesis
  proof (cases stat)
    case LUA_YIELD
    from after_yield [OF rel _ _ f3 run1(2) run] home obtain w4 where
      "after_resume t f LUA_YIELD w3 = Done () w4" "sched_rel R w4 (if ready w3 f then a_enqueue t f a2 else a2)"
      "run_ok R w4" "same_shape w3 w4" unfolding at_home_def by blast
    with inv LUA_YIELD show ?thesis by (auto simp: a_after_def)
  next
    case LUA_OK
    from after_exit [OF rel f3(1,2) run1(2) rdy run] LUA_OK inv show ?thesis
      by (fastforce simp: a_after_def)
  next
    case LUA_ERR
    from after_error [OF rel f3(1,2) run1(2) rdy run] LUA_ERR inv show ?thesis
      by (fastforce simp: a_after_def)
  qed
qed

text \<open>
  One turn of the loop with a fiber \<open>f\<close> at the head of the ready list.  It ends with the invariant,
  and the other ready fibers have moved up by one.
\<close>

definition once_end :: "sid \<Rightarrow> sid \<Rightarrow> sid list \<Rightarrow> 'x world \<Rightarrow> asched \<Rightarrow> bool" where
  "once_end t f fs w' a' \<longleftrightarrow> sched_inv w' a' \<and> at_home t w' \<and> (\<exists>new. a_ready a' t = fs @ new)"

text \<open>A number of turns in a row.\<close>

fun run_turns :: "'x vm \<Rightarrow> sid \<Rightarrow> nat \<Rightarrow> ('x, unit) luv" where
  "run_turns vm t 0 w = Done () w"
| "run_turns vm t (Suc k) w = bindR (luvL_thread_once vm t w) (\<lambda>_ w. run_turns vm t k w)"

section \<open>Any virtual machine\<close>

locale luv_vm =
  fixes vm :: "'x vm"
  assumes resume_runs: "sched_inv w a \<Longrightarrow> f \<in> running w \<Longrightarrow>
      vm_resume vm (st_L (w_state w f)) narg w = Fail No_Return \<or>
      (\<exists>stat w1 a1 w' a'. vm_resume vm (st_L (w_state w f)) narg w = Done stat w' \<and>
         api_steps (w, a) (w1, a1) \<and> fiber_stop vm f (w1, a1) stat (w', a'))"
    and loop_runs: "sched_inv w a \<Longrightarrow>
      vm_run_once vm l w = Fail No_Return \<or>
      (\<exists>active w' a'. vm_run_once vm l w = Done active w' \<and> api_steps (w, a) (w', a'))"
begin

lemma resume_stopped:
  assumes inv: "sched_inv w a" and f: "f \<in> running w"
    and run: "vm_resume vm (st_L (w_state w f)) narg w = Done stat w'"
  shows "\<exists>a'. stopped f w stat w' a' \<and> behind a a'"
proof -
  obtain w1 a1 a' where steps: "api_steps (w, a) (w1, a1)" "fiber_stop vm f (w1, a1) stat (w', a')"
    using resume_runs [OF inv f, of narg] run by auto
  have i: "sched_inv w1 a1" "running w1 = running w" "grown w w1"
    using api_steps_inv [OF steps(1) inv] by auto
  have "stopped f w1 stat w' a'" using fiber_stop_inv [OF steps(2) i(1)] f i(2) by simp
  then have "stopped f w stat w' a'" using i(2,3) grown_trans by (auto simp: stopped_def)
  then show ?thesis
    using behind_trans [OF api_steps_behind [OF steps(1)] fiber_stop_behind [OF steps(2)]] by blast
qed

lemma once_run:
  assumes inv: "sched_inv w a" and home: "at_home t w" and q: "a_ready a t = f # fs"
  shows "f \<in> running (resume_world t f w) \<and> sched_inv (resume_world t f w) (a_pop t a) \<and>
    (vm_resume vm (st_L (w_state w f)) (resume_narg f w) (resume_world t f w) = Fail No_Return \<and>
       luvL_thread_once vm t w = Fail No_Return \<or>
     (\<exists>stat w2 w4 a4 msg. vm_resume vm (st_L (w_state w f)) (resume_narg f w) (resume_world t f w) = Done stat w2 \<and>
        grown (resume_world t f w) w2 \<and> same_shape (set_curr t t w2) w4 \<and> once_end t f fs w4 a4 \<and>
        (stat \<noteq> LUA_YIELD \<longrightarrow> dead w4 f) \<and>
        luvL_thread_once vm t w = (if stat = LUA_ERR then Raise msg w4 else Done (a_ready a4 t \<noteq> []) w4)))"
proof -
  have rel: "sched_rel (running w) w a" and ok: "run_ok (running w) w"
    using inv by (simp_all add: sched_inv_def)
  have t: "t < w_nstate w" "is_thread w t" "current w t = t" using home by (simp_all add: at_home_def)
  let ?w1 = "resume_world t f w"
  note r = resume_world_rel [OF rel t(1,2) q refl ok t(3)]
  have inv1: "sched_inv ?w1 (a_pop t a)" using r(1,3) by (simp add: sched_inv_def)
  have L: "st_L (w_state ?w1 f) = st_L (w_state w f)" by (simp add: resume_world_def Let_def)
  note once = thread_once_resume [OF rel t(1,2) q, of vm]
  have f1: "f \<in> running ?w1" using r(2) by simp
  from resume_runs [OF inv1 f1, of "resume_narg f w"]
  consider "vm_resume vm (st_L (w_state w f)) (resume_narg f w) ?w1 = Fail No_Return"
    | stat w2 where "vm_resume vm (st_L (w_state w f)) (resume_narg f w) ?w1 = Done stat w2"
    unfolding L by blast
  then show ?thesis
  proof cases
    case 1
    then show ?thesis using once f1 inv1 by simp
  next
    case 2
    obtain a2 where a2: "stopped f ?w1 stat w2 a2" "behind (a_pop t a) a2"
      using resume_stopped [OF inv1 f1, of "resume_narg f w"] 2 unfolding L by blast
    let ?w3 = "set_curr t t w2" and ?a4 = "a_after (set_curr t t w2) t f stat a2"
    obtain w4 where w4: "if stat = LUA_ERR then \<exists>msg. after_resume t f stat ?w3 = Raise msg w4
        else after_resume t f stat ?w3 = Done () w4" "sched_inv w4 ?a4" "same_shape ?w3 w4" "at_home t w4"
        "stat \<noteq> LUA_YIELD \<longrightarrow> dead w4 f"
      using after_resume_inv [OF a2(1) r(2,8) _ r(5,7)] t(1) r(4) by auto
    have "behind a2 ?a4"
      by (cases stat) (auto simp: a_after_def a_finish_behind behind_enqueue)
    then have "behind (a_pop t a) ?a4" using a2(2) behind_trans by blast
    then have e: "once_end t f fs w4 ?a4"
      using w4(2,4) q by (auto simp: once_end_def behind_def dest: spec [of _ t])
    have "is_empty (SRouse t) w4 \<longleftrightarrow> a_ready ?a4 t = []"
      using ready_empty_iff w4(2,4) unfolding sched_inv_def at_home_def by blast
    with once 2 w4(1) have "\<exists>msg. luvL_thread_once vm t w =
        (if stat = LUA_ERR then Raise msg w4 else Done (a_ready ?a4 t \<noteq> []) w4)" by (cases stat) auto
    with f1 inv1 2 e w4(3,5) a2(1) show ?thesis unfolding stopped_def by blast
  qed
qed

lemma once_inv:
  assumes "sched_inv w a" "at_home t w" "a_ready a t = f # fs"
  shows "luvL_thread_once vm t w = Fail No_Return \<or>
    (\<exists>w' a'. luvL_thread_once vm t w = Done (a_ready a' t \<noteq> []) w' \<and> once_end t f fs w' a') \<or>
    (\<exists>e w' a'. luvL_thread_once vm t w = Raise e w' \<and> once_end t f fs w' a' \<and> dead w' f)"
  using once_run [OF assms] by (elim conjE disjE exE) (auto split: if_splits)

lemma once_idle:
  assumes inv: "sched_inv w a" and home: "at_home t w" and q: "a_ready a t = []"
  shows "luvL_thread_once vm t w = Done False w"
proof -
  have "is_empty (SRouse t) w" using ready_empty_iff inv home q unfolding sched_inv_def at_home_def by blast
  then show ?thesis by (simp add: luvL_thread_once_def)
qed

text \<open>The loop keeps the invariant however it ends, and returns only when nothing is ready.\<close>

lemma once_Done:
  assumes "sched_inv w a" "at_home t w" "luvL_thread_once vm t w = Done again w'"
  shows "\<exists>a'. sched_inv w' a' \<and> at_home t w' \<and> (again \<longleftrightarrow> a_ready a' t \<noteq> [])"
proof (cases "a_ready a t")
  case Nil
  with assms once_idle [OF assms(1,2)] show ?thesis by auto
next
  case (Cons f fs)
  from once_inv [OF assms(1,2) Cons] assms(3) show ?thesis by (auto simp: once_end_def)
qed

lemma loop_inv:
  assumes inv: "sched_inv w a" and home: "at_home t w"
  shows "luvL_thread_loop vm t w = Fail No_Return \<or>
    (\<exists>w' a'. (luvL_thread_loop vm t w = Done () w' \<and> a_ready a' t = [] \<or>
              (\<exists>e. luvL_thread_loop vm t w = Raise e w')) \<and> sched_inv w' a' \<and> at_home t w')"
proof (cases "luvL_thread_loop vm t w = Fail No_Return")
  case False
  let ?c = "luvL_thread_once vm t" and ?I = "\<lambda>w. (\<exists>a. sched_inv w a) \<and> at_home t w"
  have step: "?I w'" if "?I w" "?c w = Done True w'" for w w'
    using that once_Done by blast
  from loopR_outcome [of ?c w "luvL_thread_loop vm t w" ?I, OF _ False] step inv home
  obtain s where s: "?I s" and r: "\<exists>w'. luvL_thread_loop vm t w = Done () w' \<and> ?c s = Done False w' \<or>
      (\<exists>e. luvL_thread_loop vm t w = Raise e w' \<and> ?c s = Raise e w') \<or>
      (\<exists>x. luvL_thread_loop vm t w = Fail x \<and> ?c s = Fail x)"
    unfolding luvL_thread_loop_def by blast
  then obtain b where b: "sched_inv s b" "at_home t s" by blast
  have "?c s \<noteq> Fail x" if "?c s = Fail x \<Longrightarrow> x \<noteq> No_Return" for x
    using that once_idle [OF b] once_inv [OF b] by (cases "a_ready b t") auto
  moreover have "luvL_thread_loop vm t w = Fail x \<Longrightarrow> x \<noteq> No_Return" for x using False by blast
  moreover have "\<exists>a'. sched_inv w' a' \<and> at_home t w'" if "?c s = Raise e w'" for e w'
    using that once_idle [OF b] once_inv [OF b] by (cases "a_ready b t") (auto simp: once_end_def)
  ultimately show ?thesis
    using r once_Done [OF b] by blast
qed simp

text \<open>Fibers run in the order in which they became ready: after \<open>k\<close> turns the first \<open>k\<close> are gone.\<close>

lemma turns_fifo:
  assumes "sched_inv w a" "at_home t w" "k \<le> length (a_ready a t)" "run_turns vm t k w = Done () w'"
  shows "\<exists>a' new. sched_inv w' a' \<and> at_home t w' \<and> a_ready a' t = drop k (a_ready a t) @ new"
  using assms
proof (induction k arbitrary: w a)
  case (Suc k)
  then obtain f fs where q: "a_ready a t = f # fs" by (cases "a_ready a t") auto
  from once_inv [OF Suc.prems(1,2) q] Suc.prems(4) obtain w1 a1 where
    w1: "once_end t f fs w1 a1" "run_turns vm t k w1 = Done () w'" by auto
  then obtain new where n: "sched_inv w1 a1" "at_home t w1" "a_ready a1 t = fs @ new"
    by (auto simp: once_end_def)
  moreover have "k \<le> length (a_ready a1 t)" using n(3) Suc.prems(3) q by simp
  ultimately show ?case
    using Suc.IH [OF n(1,2) _ w1(2)] q Suc.prems(3) by auto
qed auto

text \<open>
  A suspended thread runs its fibers and the event loop until something made it ready or nothing
  is left to wait for.
\<close>

lemma suspend_round_inv:
  assumes inv: "sched_inv w a" and home: "at_home t w"
  shows "suspend_round vm t w = Fail No_Return \<or>
    (\<exists>w' a'. (\<exists>active. suspend_round vm t w = Done (\<not> ready w' t \<and> active) w') \<and> sched_inv w' a' \<and> at_home t w') \<or>
    (\<exists>e w' a'. suspend_round vm t w = Raise e w' \<and> sched_inv w' a' \<and> at_home t w')"
proof -
  from loop_inv [OF inv home] consider "luvL_thread_loop vm t w = Fail No_Return"
    | e w1 a1 where "luvL_thread_loop vm t w = Raise e w1" "sched_inv w1 a1" "at_home t w1"
    | w1 a1 where "luvL_thread_loop vm t w = Done () w1" "sched_inv w1 a1" "at_home t w1" by blast
  then show ?thesis
  proof cases
    case 3
    let ?l = "st_loop (w_state w1 t)"
    from loop_runs [OF 3(2), of ?l] consider "vm_run_once vm ?l w1 = Fail No_Return"
      | active w2 a2 where "vm_run_once vm ?l w1 = Done active w2" "api_steps (w1, a1) (w2, a2)" by blast
    then show ?thesis
    proof cases
      case 2
      with api_steps_inv [OF 2(2) 3(2)] at_home_grown [OF 3(3)] 3(1) show ?thesis
        by (auto simp: suspend_round_def)
    qed (use 3(1) in \<open>simp add: suspend_round_def\<close>)
  qed (auto simp: suspend_round_def)
qed

lemma suspend_inv:
  assumes rel: "sched_inv (drop_flag LUV_FREADY t w) a" and home: "at_home t w" and rdy: "ready w t"
  shows "luvL_thread_suspend vm t w = Fail No_Return \<or>
    (\<exists>e w' a'. luvL_thread_suspend vm t w = Raise e w' \<and> sched_inv w' a' \<and> at_home t w') \<or>
    (\<exists>w1 a1. luvL_thread_suspend vm t w =
         Done (int (lua_gettop (st_L (w_state w1 t)) w1)) (raise_flag LUV_FREADY t w1) \<and>
       sched_inv w1 a1 \<and> at_home t w1)"
proof -
  let ?w = "drop_flag LUV_FREADY t w" and ?c = "suspend_round vm t"
  let ?I = "\<lambda>w. (\<exists>a. sched_inv w a) \<and> at_home t w"
  have I0: "?I ?w" using rel home by (auto simp: at_home_def)
  show ?thesis
  proof (cases "loopR ?c ?w = Fail No_Return")
    case False
    have step: "?I w'" if "?I w" "?c w = Done True w'" for w w'
      using that suspend_round_inv by fastforce
    from loopR_outcome [of ?c ?w "loopR ?c ?w" ?I, OF refl False I0] step
    obtain s where s: "?I s" and r: "\<exists>w'. loopR ?c ?w = Done () w' \<and> ?c s = Done False w' \<or>
        (\<exists>e. loopR ?c ?w = Raise e w' \<and> ?c s = Raise e w') \<or> (\<exists>x. loopR ?c ?w = Fail x \<and> ?c s = Fail x)"
      by blast
    then obtain b where b: "sched_inv s b" "at_home t s" by blast
    have "\<exists>w1. ?I w1 \<and> (loopR ?c ?w = Done () w1 \<or> (\<exists>e. loopR ?c ?w = Raise e w1))"
      using r suspend_round_inv [OF b] False by (auto 6 0) blast+
    then show ?thesis using rdy by (auto simp: luvL_thread_suspend_def lua_gettop_def)
  qed (use rdy in \<open>simp add: luvL_thread_suspend_def\<close>)
qed

end

section \<open>Programs that end\<close>

text \<open>The fibers that have not finished.\<close>

definition alive :: "'x world \<Rightarrow> sid set" where
  "alive w = {x. x < w_nstate w \<and> is_fiber w x \<and> \<not> dead w x}"

lemma finite_alive [simp]: "finite (alive w)"
  by (simp add: alive_def)

definition effort :: "('x \<Rightarrow> nat) \<Rightarrow> 'x world \<Rightarrow> nat" where
  "effort work w = 2 * work (w_ext w) + card (alive w)"

locale luv_finite_vm = luv_vm +
  fixes work :: "'x \<Rightarrow> nat"
  assumes resume_returns: "sched_inv w a \<Longrightarrow> f \<in> running w \<Longrightarrow>
      vm_resume vm (st_L (w_state w f)) narg w \<noteq> Fail No_Return"
    and work_bound: "sched_inv w a \<Longrightarrow> f \<in> running w \<Longrightarrow>
      vm_resume vm (st_L (w_state w f)) narg w = Done stat w' \<Longrightarrow>
      work (w_ext w') + (w_nstate w' - w_nstate w) + (if stat = LUA_YIELD then 1 else 0) \<le> work (w_ext w)"
begin

lemma once_effort:
  assumes inv: "sched_inv w a" and home: "at_home t w" and q: "a_ready a t = f # fs"
  shows "luvL_thread_once vm t w \<noteq> Fail No_Return"
    and "luvL_thread_once vm t w = Done again w' \<Longrightarrow> effort work w' < effort work w"
proof -
  let ?w1 = "resume_world t f w"
  have L: "st_L (w_state ?w1 f) = st_L (w_state w f)" by (simp add: resume_world_def Let_def)
  note run = once_run [OF inv home q]
  then have f1: "f \<in> running ?w1" "sched_inv ?w1 (a_pop t a)" by blast+
  show "luvL_thread_once vm t w \<noteq> Fail No_Return"
    using run resume_returns [OF f1(2,1), of "resume_narg f w"] unfolding L by (auto split: if_splits)
  assume d: "luvL_thread_once vm t w = Done again w'"
  obtain stat w2 where w2: "vm_resume vm (st_L (w_state w f)) (resume_narg f w) ?w1 = Done stat w2"
      "grown ?w1 w2" "same_shape (set_curr t t w2) w'" "stat \<noteq> LUA_YIELD \<longrightarrow> dead w' f"
    using run d by (auto split: if_splits)
  have w: "w_nstate ?w1 = w_nstate w" "w_ext ?w1 = w_ext w" "dead ?w1 x = dead w x"
    "st_type (w_state ?w1 x) = st_type (w_state w x)" for x
    by (simp_all add: resume_world_def Let_def)
  have wb: "work (w_ext w2) + (w_nstate w2 - w_nstate w) + (if stat = LUA_YIELD then 1 else 0) \<le> work (w_ext w)"
    using work_bound [OF f1(2,1), of "resume_narg f w" stat w2] w2(1) unfolding L w by simp
  have ext: "w_ext w' = w_ext w2" "w_nstate w' = w_nstate w2"
    using w2(3) by (simp_all add: same_shape_def)
  have fa: "f \<in> alive w"
    using inv home q sched_pop(3) [of "running w" w a t f fs] by (auto simp: sched_inv_def at_home_def alive_def queued_def)
  have sub: "alive w' \<subseteq> (alive w - (if stat = LUA_YIELD then {} else {f})) \<union> {w_nstate w..<w_nstate w2}"
    using w2(2-4) w unfolding alive_def grown_def same_shape_def by (auto simp: linorder_not_le)
  have "card (alive w') \<le> card (alive w - (if stat = LUA_YIELD then {} else {f})) + (w_nstate w2 - w_nstate w)"
    using card_mono [OF _ sub] card_Un_le [of "alive w - (if stat = LUA_YIELD then {} else {f})" "{w_nstate w..<w_nstate w2}"]
    by simp
  moreover have "0 < card (alive w)" using fa by (auto simp: card_gt_0_iff)
  ultimately show "effort work w' < effort work w"
    using wb fa ext by (cases "stat = LUA_YIELD") (auto simp: effort_def)
qed

lemma loop_returns:
  assumes inv: "sched_inv w a" and home: "at_home t w"
  shows "luvL_thread_loop vm t w \<noteq> Fail No_Return"
proof -
  let ?I = "\<lambda>w. (\<exists>a. sched_inv w a) \<and> at_home t w"
  have "luvL_thread_once vm t w \<noteq> Fail No_Return" if "?I w" for w
    using that once_effort(1) once_idle by (metis neq_Nil_conv res.distinct(3))
  moreover have "?I w' \<and> effort work w' < effort work w" if I: "?I w" and d: "luvL_thread_once vm t w = Done True w'" for w w'
  proof -
    obtain a where a: "sched_inv w a" "at_home t w" using I by blast
    with d once_idle have "a_ready a t \<noteq> []" by auto
    then obtain f fs where "a_ready a t = f # fs" by (cases "a_ready a t") auto
    with once_effort(2) [OF a] once_Done [OF a d] d show ?thesis by blast
  qed
  ultimately show ?thesis
    unfolding luvL_thread_loop_def using inv home by (intro loopR_returns [where I = ?I and m = "effort work"]) blast+
qed

end

end
