(* ===== verification/Sched_Script.thy ===== *)
theory Sched_Script
  imports Sched_Vm
begin

text \<open>
  A virtual machine that satisfies the contract \<open>luv_finite_vm\<close>: each coroutine runs a script of
  calls of the library.  It shows that the contract can be met, and runs the scheduler on
  concrete programs.
\<close>

section \<open>Scripts\<close>

datatype action =
    Yield
  | Suspend
  | Throw
  | New_Cond
  | Wait nat
  | Signal nat
  | Broadcast nat
  | Spawn "action list"

type_synonym scripts = "action list list" \<comment> \<open>indexed by the \<open>lua_State\<close>\<close>

definition script_of :: "lid \<Rightarrow> scripts \<Rightarrow> action list" where
  "script_of L x = (if L < length x then x ! L else [])"

definition put_script :: "lid \<Rightarrow> action list \<Rightarrow> scripts \<Rightarrow> scripts" where
  "put_script L s x = (if L < length x then x[L := s] else x @ replicate (L - length x) [] @ [s])"

definition save_script :: "sid \<Rightarrow> action list \<Rightarrow> scripts world \<Rightarrow> scripts world" where
  "save_script f s w = w\<lparr>w_ext := put_script (st_L (w_state w f)) s (w_ext w)\<rparr>"

text \<open>A machine without code, for the argument of blocking calls that fibers make.\<close>

definition no_vm :: "'x vm" where
  "no_vm = \<lparr>vm_resume = \<lambda>_ _ _. Fail No_Return, vm_run_once = \<lambda>_ _. Fail No_Return\<rparr>"

fun script_run :: "sid \<Rightarrow> action list \<Rightarrow> (scripts, resume_status) luv" where
  "script_run f [] w = Done LUA_OK w"
| "script_run f (Yield # s) w = Done LUA_YIELD (save_script f s w)"
| "script_run f (Suspend # s) w = bindR (luvL_state_suspend no_vm f w) (\<lambda>_ w. Done LUA_YIELD (save_script f s w))"
| "script_run f (Throw # s) w = Done LUA_ERR w"
| "script_run f (New_Cond # s) w = bindR (luv_new_cond (st_L (w_state w f)) w) (\<lambda>_ w. script_run f s w)"
| "script_run f (Wait c # s) w =
     (if c < w_ncond w
      then bindR (luvL_cond_wait no_vm (CondVar c) f w) (\<lambda>_ w. Done LUA_YIELD (save_script f s w))
      else Done LUA_ERR w)"
| "script_run f (Signal c # s) w =
     (if c < w_ncond w then bindR (luvL_cond_signal (CondVar c) w) (\<lambda>_ w. script_run f s w) else Done LUA_ERR w)"
| "script_run f (Broadcast c # s) w =
     (if c < w_ncond w then bindR (luvL_cond_broadcast (CondVar c) w) (\<lambda>_ w. script_run f s w) else Done LUA_ERR w)"
| "script_run f (Spawn b # s) w =
     bindR (luvL_fiber_create f 1 (lua_push (st_L (w_state w f)) (LFun 0) w)) (\<lambda>g w.
     bindR (luvL_state_ready g (save_script g b w)) (\<lambda>_ w. script_run f s w))"

definition script_vm :: "scripts vm" where
  "script_vm = \<lparr>
     vm_resume = (\<lambda>L narg w. bindR (deref (w_registry w L) w) (\<lambda>f w.
       script_run f (script_of L (w_ext w)) (w\<lparr>w_ext := put_script L [] (w_ext w)\<rparr>))),
     vm_run_once = (\<lambda>l w. Done False w)\<rparr>"

section \<open>The contract holds\<close>

definition script_work :: "scripts \<Rightarrow> nat" where
  "script_work x = sum_list (map (size_list size) x)"

lemma script_work_put: "script_work (put_script L s x) + size_list size (script_of L x) = script_work x + size_list size s"
proof (cases "L < length x")
  case True
  then have "x = take L x @ x ! L # drop (Suc L) x" by (simp add: id_take_nth_drop)
  then have "sum_list (map (size_list size) x) = sum_list (map (size_list size) (take L x @ x ! L # drop (Suc L) x))"
    by (rule arg_cong)
  with True show ?thesis by (simp add: script_work_def script_of_def put_script_def upd_conv_take_nth_drop)
next
  case False
  then show ?thesis by (simp add: script_work_def script_of_def put_script_def sum_list_replicate)
qed

lemma script_work_save: "script_work (w_ext (save_script f s w)) \<le> script_work (w_ext w) + size_list size s"
  using script_work_put [of "st_L (w_state w f)" s "w_ext w"] by (simp add: save_script_def)

lemma save_script_core [simp]: "core (save_script f s w) = core w"
  by (simp add: save_script_def core_def)

lemma blocking_any_vm:
  assumes "is_fiber w f"
  shows "luvL_state_suspend vm f w = luvL_state_suspend vm' f w" "luvL_cond_wait vm c f w = luvL_cond_wait vm' c f w"
  using assms by (simp_all add: luvL_state_suspend_def luvL_cond_wait_def)

lemma fiber_create_ext: "luvL_fiber_create s narg w = Done g w' \<Longrightarrow> w_ext w' = w_ext w"
  by (auto simp: luvL_fiber_create_def Let_def to_thread_def new_udata_def lua_push_def lua_xmove_def
      split: if_splits option.splits)

lemma new_cond_added:
  "\<exists>w'. luv_new_cond L w = Done 1 w' \<and> cond_added [CondVar (w_ncond w)] w w' \<and> w_ext w' = w_ext w"
  by (auto simp: luv_new_cond_def luvL_cond_init_def new_udata_def lua_push_def Let_def cond_added_def
      split: lua_value.splits)

text \<open>A run of a script is a sequence of calls and an end, and uses up its actions.\<close>

definition script_ok :: "sid \<Rightarrow> action list \<Rightarrow> scripts world \<Rightarrow> asched \<Rightarrow> bool" where
  "script_ok f s w a \<longleftrightarrow> (\<exists>stat w1 a1 w' a'. script_run f s w = Done stat w' \<and>
     api_steps (w, a) (w1, a1) \<and> fiber_stop script_vm f (w1, a1) stat (w', a') \<and>
     script_work (w_ext w') + (w_nstate w' - w_nstate w) + (if stat = LUA_YIELD then 1 else 0)
       \<le> script_work (w_ext w) + size_list size s)"

lemma script_ok_here:
  assumes "script_run f s w = Done stat w'" "fiber_stop script_vm f (w, a) stat (w', a')" "w_nstate w' = w_nstate w"
    "script_work (w_ext w') + (if stat = LUA_YIELD then 1 else 0) \<le> script_work (w_ext w) + size_list size s"
  shows "script_ok f s w a"
  using assms unfolding script_ok_def by fastforce

lemma script_ok_step:
  assumes steps: "api_steps (w, a) (w1, a1)" and ok: "script_ok f s w1 a1" and run: "script_run f (act # s) w = script_run f s w1"
    and work: "script_work (w_ext w1) + (w_nstate w1 - w_nstate w) \<le> script_work (w_ext w) + Suc (size act)"
    and n: "w_nstate w \<le> w_nstate w1"
  shows "script_ok f (act # s) w a"
proof -
  obtain stat w2 a2 w' a' where r: "script_run f s w1 = Done stat w'" "api_steps (w1, a1) (w2, a2)"
    "fiber_stop script_vm f (w2, a2) stat (w', a')"
    "script_work (w_ext w') + (w_nstate w' - w_nstate w1) + (if stat = LUA_YIELD then 1 else 0)
       \<le> script_work (w_ext w1) + size_list size s"
    using ok unfolding script_ok_def by blast
  have "api_steps (w, a) (w2, a2)" using steps r(2) by (rule rtranclp_trans)
  moreover have "script_work (w_ext w') + (w_nstate w' - w_nstate w) + (if stat = LUA_YIELD then 1 else 0)
       \<le> script_work (w_ext w) + size_list size (act # s)"
    using r(4) work n by simp
  ultimately show ?thesis using r(1,3) run unfolding script_ok_def by auto
qed

lemma api_step_steps: "api_step p q \<Longrightarrow> api_steps p q"
  by (rule r_into_rtranclp)

lemma spawn_steps:
  assumes inv: "sched_inv w a" and f: "f < w_nstate w"
  shows "\<exists>w1 w2. luvL_fiber_create f 1 (lua_push (st_L (w_state w f)) (LFun 0) w) = Done (w_nstate w) w1 \<and>
    luvL_state_ready (w_nstate w) (save_script (w_nstate w) b w1) = Done () w2 \<and>
    api_steps (w, a) (w2, a_enqueue (if is_thread w f then f else outer w f) (w_nstate w) a) \<and>
    w_nstate w2 = Suc (w_nstate w) \<and> script_work (w_ext w2) \<le> script_work (w_ext w) + size_list size b"
proof -
  let ?L = "st_L (w_state w f)"
  let ?w0 = "lua_push ?L (LFun 0) w"
  have c0: "core ?w0 = core w" by (simp add: lua_push_def)
  then have s0: "api_step (w, a) (?w0, a)" by (rule step_lua)
  have i0: "sched_inv ?w0 a" using api_step_inv [OF s0 inv] by blast
  have n0: "w_nstate ?w0 = w_nstate w" "w_ext ?w0 = w_ext w" by (simp_all add: lua_push_def)
  have ok: "states_ok ?w0" using i0 sched_states by (auto simp: sched_inv_def)
  have "w_stack ?w0 (st_L (w_state ?w0 f)) = w_stack w ?L @ [LFun 0]" by (simp add: lua_push_def)
  with fiber_create_eq [OF ok, of f "st_L (w_state ?w0 f)" "w_stack w ?L" "LFun 0" "[]"] f n0 obtain w1 where
    w1: "luvL_fiber_create f 1 ?w0 = Done (w_nstate w) w1" "fiber_added (w_nstate w) (if is_thread ?w0 f then f else outer ?w0 f) ?w0 w1"
    by auto
  let ?g = "w_nstate w" and ?w1 = "save_script (w_nstate w) b w1"
  have n1: "w_nstate ?w1 = Suc (w_nstate w)" using w1(2) by (simp add: fiber_added_def save_script_def)
  have e1: "script_work (w_ext ?w1) \<le> script_work (w_ext w) + size_list size b"
    using script_work_save [of ?g b w1] fiber_create_ext [OF w1(1)] n0 by simp
  have "api_step (?w0, a) (w1, a)" using w1(1) f n0 by (intro step_create) (simp_all, simp add: lua_push_def)
  moreover have "api_step (w1, a) (?w1, a)" by (rule step_lua) simp
  ultimately have s1: "api_steps (w, a) (?w1, a)" using s0 by (meson converse_rtranclp_into_rtranclp rtranclp.rtrancl_refl)
  have i1: "sched_inv ?w1 a" using api_steps_inv [OF s1 inv] by blast
  have nw: "\<not> a_waiting a ?g" using inv sched_waiting by (force simp: sched_inv_def)
  have "?g \<notin> running w" by (simp add: running_def)
  then have "?g \<notin> running ?w1" using api_steps_inv [OF s1 inv] by blast
  with state_ready_rel [of "running ?w1" ?w1 a ?g] i1 nw n1 obtain w2 where
    w2: "luvL_state_ready ?g ?w1 = Done () w2" "made_ready ?g ?w1 w2"
    by (auto simp: sched_inv_def)
  have "api_step (?w1, a) (w2, a_make_ready ?w1 ?g a)"
    using w2(1) n1 nw by (intro step_ready) simp_all
  with s1 have "api_steps (w, a) (w2, a_make_ready ?w1 ?g a)" by (rule rtranclp.rtrancl_into_rtrancl)
  moreover have "a_make_ready ?w1 ?g a = a_enqueue (if is_thread w f then f else outer w f) ?g a"
    using w1(2) by (simp add: a_make_ready_def fiber_added_def save_script_def state_flag_def core_eq [OF c0])
  ultimately show ?thesis using w1(1) w2 n1 e1 by (auto simp: made_ready_def)
qed

text \<open>The actions that give up control.\<close>

lemma script_blocks_ok:
  assumes inv: "sched_inv w a" and f: "f \<in> running w" and act: "act \<in> {Yield, Throw, Suspend} \<or> (\<exists>c. act = Wait c)"
  shows "script_ok f (act # s) w a"
proof -
  have rel: "sched_rel (running w) w a" and rdy: "ready w f" and fi: "is_fiber w f"
    using inv f by (auto simp: sched_inv_def run_ok_def running_def)
  note save = script_work_save [of f s]
  consider "act = Yield" | "act = Throw" | "act = Suspend" | c where "act = Wait c" using act by blast
  then show ?thesis
  proof cases
    case 1
    then show ?thesis using save [of w]
      by (intro script_ok_here [where w' = "save_script f s w", OF _ stop_coroutine_yield]) (simp_all, simp_all add: save_script_def)
  next
    case 2
    then show ?thesis by (intro script_ok_here) (auto intro: stop_error)
  next
    case 3
    have r: "luvL_state_suspend vm f w = Done (- 1) (suspended f w)" for vm
      using fiber_suspend_rel(1) [OF rel f f rdy] fi by (simp add: luvL_state_suspend_def)
    show ?thesis
      using save [of "suspended f w"] 3
      by (intro script_ok_here [where w' = "save_script f s (suspended f w)", OF _ stop_suspend [OF r]])
        (simp_all add: r, simp_all add: save_script_def)
  next
    case 4
    show ?thesis
    proof (cases "c < w_ncond w")
      case True
      then have c: "CondVar c \<in> a_conds a" using rel by (simp add: sched_rel_def cond_heads_def)
      let ?w = "suspended f (upd_queue (ngx_queue_insert_tail (CondVar c) (SCond f)) w)"
      have r: "luvL_cond_wait vm (CondVar c) f w = Done (- 1) ?w" for vm
        using cond_wait_rel(1) [OF rel f f rdy c] .
      show ?thesis
        using save [of ?w] 4 True
        by (intro script_ok_here [where w' = "save_script f s ?w", OF _ stop_wait [OF r c]])
          (simp_all add: r, simp_all add: save_script_def)
    qed (use 4 in \<open>auto intro: script_ok_here stop_error\<close>)
  qed
qed

lemma script_run_ok:
  assumes "sched_inv w a" "f \<in> running w"
  shows "script_ok f s w a"
  using assms
proof (induction s arbitrary: w a)
  case Nil
  then show ?case by (intro script_ok_here) (auto intro: stop_return)
next
  case (Cons act s)
  note inv = Cons.prems(1) and f = Cons.prems(2)
  have rel: "sched_rel (running w) w a" and ok: "run_ok (running w) w" and rdy: "ready w f"
    using inv f by (auto simp: sched_inv_def run_ok_def)
  have fi: "f < w_nstate w" "is_fiber w f" using f by (auto simp: running_def)
  have conds: "CondVar c \<in> a_conds a" if "c < w_ncond w" for c
    using that rel by (simp add: sched_rel_def cond_heads_def)
  have go_on: "script_ok f (act # s) w a"
    if "api_steps (w, a) (w1, a1)" "script_run f (act # s) w = script_run f s w1"
      "script_work (w_ext w1) + (w_nstate w1 - w_nstate w) \<le> script_work (w_ext w) + Suc (size act)" for w1 a1
  proof -
    have "sched_inv w1 a1" "running w1 = running w" "w_nstate w \<le> w_nstate w1"
      using api_steps_inv [OF that(1) inv] by (auto simp: grown_def)
    then show ?thesis using script_ok_step that Cons.IH f by metis
  qed
  show ?case
  proof (cases act)
    case (Signal c)
    show ?thesis
    proof (cases "c < w_ncond w")
      case True
      obtain n w1 where w1: "luvL_cond_signal (CondVar c) w = Done n w1"
          "case a_wait a (CondVar c) of [] \<Rightarrow> w1 = w | s # _ \<Rightarrow> made_ready s w w1"
        using cond_signal_rel [OF rel ok conds [OF True]] by blast
      have "w_ext w1 = w_ext w" "w_nstate w1 = w_nstate w" using w1(2) by (auto simp: made_ready_def split: list.splits)
      then show ?thesis
        using w1(1) Signal True conds by (intro go_on [OF api_step_steps [OF step_signal]]) auto
    qed (use Signal in \<open>auto intro: script_ok_here stop_error\<close>)
  next
    case (Broadcast c)
    show ?thesis
    proof (cases "c < w_ncond w")
      case True
      obtain n w1 where w1: "luvL_cond_broadcast (CondVar c) w = Done n w1"
          "made_all_ready (set (a_wait a (CondVar c))) w w1"
        using cond_broadcast_rel [OF rel ok conds [OF True]] by blast
      have "w_ext w1 = w_ext w" "w_nstate w1 = w_nstate w" using w1(2) by (auto simp: made_all_ready_def)
      then show ?thesis
        using w1(1) Broadcast True conds by (intro go_on [OF api_step_steps [OF step_broadcast]]) auto
    qed (use Broadcast in \<open>auto intro: script_ok_here stop_error\<close>)
  next
    case New_Cond
    obtain w1 where "luv_new_cond (st_L (w_state w f)) w = Done 1 w1" "cond_added [CondVar (w_ncond w)] w w1" "w_ext w1 = w_ext w"
      using new_cond_added by blast
    then show ?thesis
      using New_Cond by (intro go_on [OF api_step_steps [OF step_cond]]) (auto simp: cond_added_def)
  next
    case (Spawn b)
    from spawn_steps [OF inv fi(1), of b] obtain w1 w2 a2 where
      "luvL_fiber_create f 1 (lua_push (st_L (w_state w f)) (LFun 0) w) = Done (w_nstate w) w1"
      "luvL_state_ready (w_nstate w) (save_script (w_nstate w) b w1) = Done () w2" "api_steps (w, a) (w2, a2)"
      "w_nstate w2 = Suc (w_nstate w)" "script_work (w_ext w2) \<le> script_work (w_ext w) + size_list size b" by blast
    then show ?thesis using Spawn by (intro go_on [of w2 a2]) auto
  qed (use script_blocks_ok [OF inv f] in auto)
qed

lemma script_resume:
  assumes inv: "sched_inv w a" and f: "f \<in> running w"
  shows "\<exists>stat w1 a1 w' a'. vm_resume script_vm (st_L (w_state w f)) narg w = Done stat w' \<and>
    api_steps (w, a) (w1, a1) \<and> fiber_stop script_vm f (w1, a1) stat (w', a') \<and>
    script_work (w_ext w') + (w_nstate w' - w_nstate w) + (if stat = LUA_YIELD then 1 else 0) \<le> script_work (w_ext w)"
proof -
  let ?L = "st_L (w_state w f)"
  let ?w0 = "w\<lparr>w_ext := put_script ?L [] (w_ext w)\<rparr>" and ?s = "script_of ?L (w_ext w)"
  have rel: "sched_rel (running w) w a" using inv by (simp add: sched_inv_def)
  have "w_registry w ?L = Some f"
    using f run_not_dead [OF rel f f] sched_states [OF rel] by (auto simp: states_ok_def running_def)
  then have r: "vm_resume script_vm ?L narg w = script_run f ?s ?w0" by (simp add: script_vm_def)
  have s0: "api_step (w, a) (?w0, a)" by (rule step_lua) (simp add: core_def)
  have wk: "script_work (w_ext ?w0) + size_list size ?s = script_work (w_ext w)" "w_nstate ?w0 = w_nstate w"
    using script_work_put [of ?L "[]" "w_ext w"] by simp_all
  have "script_ok f ?s ?w0 a" using script_run_ok api_step_inv [OF s0 inv] f by simp
  then obtain stat w1 a1 w' a' where "script_run f ?s ?w0 = Done stat w'" "api_steps (?w0, a) (w1, a1)"
    "fiber_stop script_vm f (w1, a1) stat (w', a')"
    "script_work (w_ext w') + (w_nstate w' - w_nstate ?w0) + (if stat = LUA_YIELD then 1 else 0)
       \<le> script_work (w_ext ?w0) + size_list size ?s" unfolding script_ok_def by blast
  moreover from this(2) have "api_steps (w, a) (w1, a1)" using s0 by (rule converse_rtranclp_into_rtranclp [rotated])
  ultimately show ?thesis using r wk by auto
qed

interpretation script: luv_finite_vm script_vm script_work
proof
  fix w :: "scripts world" and a l assume "sched_inv w a"
  show "vm_run_once script_vm l w = Fail No_Return \<or>
      (\<exists>active w' a'. vm_run_once script_vm l w = Done active w' \<and> api_steps (w, a) (w', a'))"
    by (auto simp: script_vm_def)
next
  fix w :: "scripts world" and a f narg assume "sched_inv w a" "f \<in> running w"
  then show "vm_resume script_vm (st_L (w_state w f)) narg w \<noteq> Fail No_Return"
    using script_resume [of w a f narg] by auto
next
  fix w w' :: "scripts world" and a f narg stat assume "sched_inv w a" "f \<in> running w" "vm_resume script_vm (st_L (w_state w f)) narg w = Done stat w'"
  then show "script_work (w_ext w') + (w_nstate w' - w_nstate w) + (if stat = LUA_YIELD then 1 else 0) \<le> script_work (w_ext w)"
    using script_resume [of w a f narg] by auto
qed (use script_resume in fastforce)

section \<open>Starting up\<close>

definition no_sched :: asched where
  "no_sched = \<lparr>a_ready = (\<lambda>_. []), a_join = (\<lambda>_. []), a_wait = (\<lambda>_. []), a_conds = {}\<rparr>"

text \<open>The process before \<open>luaopen_luv\<close>: one \<open>lua_State\<close> and no states.\<close>

definition blank :: "'x world \<Rightarrow> bool" where
  "blank w \<longleftrightarrow> w_nstate w = 0 \<and> w_nobject w = 0 \<and> w_ncond w = 0 \<and> w_nlua w = 1"

lemma init_main_inv:
  assumes "blank w"
  shows "sched_inv (luvL_thread_init_main 0 w) no_sched" "at_home 0 (luvL_thread_init_main 0 w)"
    "ready (luvL_thread_init_main 0 w) 0"
proof -
  let ?w = "luvL_thread_init_main 0 w"
  have w: "w_nstate ?w = 1" "w_nlua ?w = 1" "w_ncond ?w = 0" "w_nobject ?w = 0" "is_thread ?w 0" "current ?w 0 = 0"
    "st_flags (w_state ?w 0) = LUV_FREADY" "st_L (w_state ?w 0) = 0" "w_registry ?w 0 = Some 0"
    "w_queue ?w = ngx_queue_init (SRouse 0) (w_queue w)"
    using assms by (simp_all add: blank_def luvL_thread_init_main_def new_udata_def Let_def lua_push_def)
  have n: "x < w_nstate ?w \<longleftrightarrow> x = 0" for x using w(1) by auto
  have fl: "ready ?w 0" "\<not> dead ?w 0"
    using w(7) by (simp_all add: state_flag_def has_flag_bit luv_flag_defs bit_flag_bit)
  have "qfamily (w_queue ?w) {SRouse 0} (links ?w no_sched)"
    using w(5,10) by (simp add: qfamily_def no_sched_def ngx_queue_init_def)
  moreover have "heads ?w no_sched = {SRouse 0}" using w(1) by (auto simp: heads_def no_sched_def)
  moreover have "states_ok ?w" using w fl(2) n by (auto simp: states_ok_def inj_on_def)
  moreover have "\<not> queued R ?w t f" for R t f using w(5) n [of f] by (auto simp: queued_def)
  moreover have "cond_heads ?w = {}" using w(3,4) by (simp add: cond_heads_def)
  moreover have nf: "\<not> is_fiber ?w f" if "f < w_nstate ?w" for f using that n w(5) by simp
  moreover have "running ?w = {}" using nf unfolding running_def by blast
  ultimately show "sched_inv ?w no_sched"
    by (simp add: sched_inv_def sched_rel_def run_ok_def a_waiting_def) (simp add: no_sched_def)
  show "at_home 0 ?w" using w by (simp add: at_home_def)
  show "ready ?w 0" by (rule fl)
qed

end
