(* ===== verification/Sched_Demo.thy ===== *)
theory Sched_Demo
  imports Sched_Script
begin

text \<open>
  A small program run step by step through the functions of the library, for use as an example:
  the main thread, a fiber that is created and made ready, runs, waits on a condition variable, or
  joins a second fiber.
\<close>

definition empty_world :: "'x \<Rightarrow> 'x world" where
  "empty_world x = \<lparr>w_queue = \<lparr>prev = id, next = id\<rparr>,
     w_state = (\<lambda>_. \<lparr>st_type = LUV_TTHREAD, st_flags = 0, st_outer = 0, st_L = 0, st_loop = 0, st_data = False,
       st_curr = 0, st_async_sent = False, st_async_ref = False\<rparr>), w_nstate = 0,
     w_object = (\<lambda>_. \<lparr>o_state = None, o_flags = 0, o_count = 0, o_data = None, o_base = None, o_len = 0, o_file = 0\<rparr>),
     w_nobject = 0, w_ncond = 0, w_stack = (\<lambda>_. []), w_yield = (\<lambda>_. None), w_nlua = 1,
     w_registry = (\<lambda>_. None), w_udata = (\<lambda>_. None), w_nudata = 0,
     w_heap = \<lparr>h_table = (\<lambda>_. \<lparr>t_entries = [], t_codec = LNil\<rparr>), h_fun = (\<lambda>_. \<lparr>f_lua = True, f_c = [], f_proto = 0, f_upvals = []\<rparr>),
       h_user = (\<lambda>_. LNil), h_tnext = 0, h_fnext = 0\<rparr>, w_names = (\<lambda>_ _. LNil), w_main = False, w_ext = x\<rparr>"

lemma blank_empty: "blank (empty_world x)"
  by (simp add: blank_def empty_world_def)

text \<open>The world a call leaves behind.\<close>

definition after_call :: "(lua_value, 'a, 'x world) res \<Rightarrow> 'x world" where
  "after_call r = (case r of Done _ w \<Rightarrow> w | Raise _ w \<Rightarrow> w | Fail _ \<Rightarrow> undefined)"

lemma after_call_Done [simp]: "after_call (Done x w) = w"
  by (simp add: after_call_def)

definition main_world :: "scripts world" where
  "main_world = luvL_thread_init_main 0 (empty_world [])"

definition cond_world :: "scripts world" where
  "cond_world = after_call (luv_new_cond 0 main_world)"

definition fiber_world :: "scripts world" where
  "fiber_world = after_call (luvL_fiber_create 0 1 (lua_push 0 (LFun 0) cond_world))"

definition ready_world :: "scripts world" where
  "ready_world = after_call (luvL_fiber_ready 1 fiber_world)"

definition run_world :: "scripts world" where
  "run_world = resume_world 0 1 ready_world"

definition wait_world :: "scripts world" where
  "wait_world = set_curr 0 0 (after_call (luvL_cond_wait no_vm (CondVar 0) 1 run_world))"

definition two_world :: "scripts world" where
  "two_world =
     (let L = st_L (w_state run_world 1)
      in upd_stack L (\<lambda>_. [LUser (w_nudata run_world)])
           (after_call (luvL_fiber_create 1 1 (lua_push L (LFun 0) run_world))))"

definition join_world :: "scripts world" where
  "join_world = set_curr 0 0 (after_call (luv_fiber_join no_vm (st_L (w_state two_world 1)) two_world))"

definition exit_world :: "scripts world" where
  "exit_world = (let w = resume_world 0 2 join_world in upd_stack (st_L (w_state w 2)) (\<lambda>_. [LBool True]) w)"

text \<open>The abstract schedulers of these worlds.\<close>

definition cond_sched :: asched where
  "cond_sched = a_add_cond [CondVar 0] no_sched"

lemma main_world_inv: "sched_inv main_world no_sched" "at_home 0 main_world" "ready main_world 0"
  using init_main_inv [OF blank_empty] by (simp_all add: main_world_def)

lemma cond_world_inv: "sched_inv cond_world cond_sched" "at_home 0 cond_world" "w_ncond cond_world = 1" "w_nstate cond_world = 1"
proof -
  obtain w' where w': "luv_new_cond 0 main_world = Done 1 w'" "cond_added [CondVar (w_ncond main_world)] main_world w'"
    using new_cond_added by blast
  have n: "w_ncond main_world = 0" "w_nstate main_world = 1"
    by (simp_all add: main_world_def luvL_thread_init_main_def new_udata_def Let_def lua_push_def empty_world_def)
  have c: "cond_world = w'" using w'(1) by (simp add: cond_world_def)
  have "api_step (main_world, no_sched) (cond_world, cond_sched)"
    using w'(2) n(1) step_cond [of "[CondVar 0]" main_world w' no_sched] by (simp add: c cond_sched_def)
  from api_step_inv [OF this main_world_inv(1)] at_home_grown [OF main_world_inv(2)]
  show "sched_inv cond_world cond_sched" "at_home 0 cond_world" by blast+
  show "w_ncond cond_world = 1" "w_nstate cond_world = 1" using w'(2) n by (auto simp: c cond_added_def)
qed

text \<open>Creating a fiber without starting it.\<close>

lemma create_step:
  assumes inv: "sched_inv w a" and f: "f < w_nstate w"
  defines "w0 \<equiv> lua_push (st_L (w_state w f)) (LFun 0) w"
  shows "\<exists>w1. luvL_fiber_create f 1 w0 = Done (w_nstate w) w1 \<and> sched_inv w1 a \<and> grown w w1 \<and> running w1 = running w \<and>
    fiber_added (w_nstate w) (if is_thread w f then f else outer w f) w0 w1 \<and>
    w_udata w1 (w_nudata w) = Some \<lparr>u_meta = LUV_FIBER_T, u_ptr = PState (w_nstate w)\<rparr>"
proof -
  let ?L = "st_L (w_state w f)"
  have c0: "core w0 = core w" by (simp add: w0_def lua_push_def)
  then have s0: "api_step (w, a) (w0, a)" by (rule step_lua)
  note i0 = api_step_inv [OF s0 inv]
  have ok: "states_ok w0" using i0 sched_states by (auto simp: sched_inv_def)
  have n0: "w_nstate w0 = w_nstate w" "w_nudata w0 = w_nudata w" "st_L (w_state w0 f) = ?L"
    by (simp_all add: w0_def lua_push_def)
  have st: "w_stack w0 (st_L (w_state w0 f)) = w_stack w ?L @ [LFun 0]" by (simp add: w0_def lua_push_def)
  from fiber_create_eq [OF ok _ refl st] f n0 obtain w1 where
    w1: "luvL_fiber_create f 1 w0 = Done (w_nstate w) w1"
      "fiber_added (w_nstate w) (if is_thread w f then f else outer w f) w0 w1"
      "w_udata w1 (w_nudata w) = Some \<lparr>u_meta = LUV_FIBER_T, u_ptr = PState (w_nstate w)\<rparr>"
    unfolding core_eq(5,7) [OF c0] by auto
  have "api_step (w0, a) (w1, a)" using w1(1) f n0(1) by (intro step_create) (simp_all, simp add: st)
  from api_step_inv [OF this] i0 grown_trans w1 show ?thesis by blast
qed

lemma fiber_added_new:
  "fiber_added g t w w' \<Longrightarrow> w_nstate w' = Suc g \<and> is_fiber w' g \<and> outer w' g = t \<and> st_L (w_state w' g) = w_nlua w \<and>
    \<not> ready w' g \<and> \<not> dead w' g \<and> \<not> state_flag LUV_FSTART g w'"
  by (auto simp: fiber_added_def state_flag_def)

lemma fiber_world_inv:
  "sched_inv fiber_world cond_sched" "at_home 0 fiber_world" "w_nstate fiber_world = 2" "is_fiber fiber_world 1"
  "outer fiber_world 1 = 0" "\<not> ready fiber_world 1" "\<not> dead fiber_world 1" "running fiber_world = {}"
proof -
  note c = cond_world_inv
  have L: "st_L (w_state cond_world 0) = 0" "is_thread cond_world 0"
    using c(2) by (simp_all add: at_home_def cond_world_def luv_new_cond_def luvL_cond_init_def new_udata_def
        Let_def main_world_def luvL_thread_init_main_def lua_push_def empty_world_def)
  obtain w1 where w1: "luvL_fiber_create 0 1 (lua_push 0 (LFun 0) cond_world) = Done 1 w1"
      "sched_inv w1 cond_sched" "grown cond_world w1" "running w1 = running cond_world"
      "fiber_added 1 0 (lua_push 0 (LFun 0) cond_world) w1"
    using create_step [OF c(1), of 0] c(4) L by auto
  have f: "fiber_world = w1" using w1(1) by (simp add: fiber_world_def)
  show "sched_inv fiber_world cond_sched" "at_home 0 fiber_world"
    using w1(2,3) at_home_grown [OF c(2)] f by simp_all
  show "w_nstate fiber_world = 2" "is_fiber fiber_world 1" "outer fiber_world 1 = 0"
    "\<not> ready fiber_world 1" "\<not> dead fiber_world 1"
    using fiber_added_new [OF w1(5)] f by (simp_all add: numeral_2_eq_2)
  show "running fiber_world = {}"
  proof -
    have "\<not> is_fiber cond_world x" if "x < w_nstate cond_world" for x using that L(2) c(4) by simp
    then have "running cond_world = {}" unfolding running_def by blast
    then show ?thesis using w1(4) f by simp
  qed
qed

lemma ready_world_inv:
  "sched_inv ready_world (a_enqueue 0 1 cond_sched)" "at_home 0 ready_world" "w_nstate ready_world = 2"
  "is_fiber ready_world 1" "outer ready_world 1 = 0" "running ready_world = {}"
proof -
  note f = fiber_world_inv
  have nw: "\<not> a_waiting cond_sched 1" by (simp add: cond_sched_def a_add_cond_def no_sched_def a_waiting_def)
  obtain w' where w': "luvL_state_ready 1 fiber_world = Done () w'" "made_ready 1 fiber_world w'"
    using state_ready_rel [of "running fiber_world" fiber_world cond_sched 1] f nw by (auto simp: sched_inv_def)
  have r: "ready_world = w'" using w'(1) f(4) by (simp add: ready_world_def luvL_state_ready_def)
  have "api_step (fiber_world, cond_sched) (w', a_make_ready fiber_world 1 cond_sched)"
    using w'(1) f(3) nw by (intro step_ready) simp_all
  from api_step_inv [OF this f(1)] made_ready_shape [OF w'(2)] at_home_shape [OF f(2)]
  show "sched_inv ready_world (a_enqueue 0 1 cond_sched)" "at_home 0 ready_world" "running ready_world = {}"
    using f r by (simp_all add: a_make_ready_def)
  show "w_nstate ready_world = 2" "is_fiber ready_world 1" "outer ready_world 1 = 0"
    using w'(2) f r by (simp_all add: made_ready_def)
qed

lemma run_world_inv:
  "sched_inv run_world cond_sched" "running run_world = {1}" "w_nstate run_world = 2" "is_thread run_world 0"
  "is_fiber run_world 1" "outer run_world 1 = 0" "at_home 0 ready_world"
proof -
  note r = ready_world_inv
  have p: "a_pop 0 (a_enqueue 0 1 cond_sched) = cond_sched" "a_ready (a_enqueue 0 1 cond_sched) 0 = [1]"
    by (simp_all add: a_pop_def a_enqueue_def cond_sched_def a_add_cond_def no_sched_def fun_upd_idem)
  have i: "sched_rel (running ready_world) ready_world (a_enqueue 0 1 cond_sched)" "run_ok (running ready_world) ready_world"
    using r(1) by (simp_all add: sched_inv_def)
  have t: "0 < w_nstate ready_world" "is_thread ready_world 0" "current ready_world 0 = 0"
    using r(2) by (simp_all add: at_home_def)
  note w = resume_world_rel [OF i(1) t(1,2) p(2) refl i(2) t(3)]
  show "sched_inv run_world cond_sched" "running run_world = {1}" "w_nstate run_world = 2" "is_thread run_world 0"
    "is_fiber run_world 1" "outer run_world 1 = 0"
    using w r(3,6) p(1) by (simp_all add: sched_inv_def run_world_def)
  show "at_home 0 ready_world" by (rule r)
qed

text \<open>A fiber that runs on a thread and blocks: back in the loop of the thread.\<close>

lemma block_step:
  assumes inv: "sched_inv w a" and f: "f \<in> running w" and stop: "fiber_stop vm f (w, a) LUA_YIELD (w', a')"
    and asleep: "\<not> ready w' f"
  shows "sched_inv (set_curr (outer w f) (outer w f) w') a'" "at_home (outer w f) (set_curr (outer w f) (outer w f) w')"
    "running (set_curr (outer w f) (outer w f) w') = running w - {f}"
proof -
  let ?t = "outer w f"
  have st: "stopped f w LUA_YIELD w' a'" using fiber_stop_inv [OF stop inv f] .
  have fi: "f < w_nstate w" "is_fiber w f" using f by (simp_all add: running_def)
  have "states_ok w" using inv sched_states by (auto simp: sched_inv_def)
  then have t: "?t < w_nstate w" "is_thread w ?t" using fi by (auto simp: states_ok_def)
  have "running w = insert f (running w - {f})" using f by blast
  from after_resume_inv [OF st this _ t refl] obtain w4 where
    "after_resume ?t f LUA_YIELD (set_curr ?t ?t w') = Done () w4"
    "sched_inv w4 (a_after (set_curr ?t ?t w') ?t f LUA_YIELD a')" "at_home ?t w4" by auto
  moreover from this(1) have "w4 = set_curr ?t ?t w'" using asleep by (simp add: after_resume_def Let_def)
  ultimately show "sched_inv (set_curr ?t ?t w') a'" "at_home ?t (set_curr ?t ?t w')"
    using asleep by (simp_all add: a_after_def)
  have "f \<in> running w'" "outer w' f = ?t" "is_thread w' ?t"
    using st f fi t by (auto simp: stopped_def grown_def)
  from running_back [OF this] show "running (set_curr ?t ?t w') = running w - {f}"
    using st by (simp add: stopped_def)
qed

lemma wait_world_inv:
  "sched_inv wait_world (a_add_wait (CondVar 0) 1 cond_sched)" "at_home 0 wait_world"
  "outer wait_world 1 = 0" "is_fiber wait_world 1"
proof -
  note r = run_world_inv
  have rel: "sched_rel (running run_world) run_world cond_sched" and rdy: "ready run_world 1"
    using r(1,2) by (simp_all add: sched_inv_def run_ok_def)
  have c: "CondVar 0 \<in> a_conds cond_sched" by (simp add: cond_sched_def a_add_cond_def)
  let ?w = "suspended 1 (upd_queue (ngx_queue_insert_tail (CondVar 0) (SCond 1)) run_world)"
  have w: "luvL_cond_wait no_vm (CondVar 0) 1 run_world = Done (- 1) ?w"
    using cond_wait_rel(1) [OF rel _ _ rdy c] r(2) by simp
  have f: "1 \<in> running run_world" using r(2) by simp
  have "\<not> ready ?w 1" by simp
  note b = block_step [OF r(1) f stop_wait [OF w c refl] this]
  show "sched_inv wait_world (a_add_wait (CondVar 0) 1 cond_sched)" "at_home 0 wait_world"
    using b(1,2) r(6) w by (simp_all add: wait_world_def)
  show "outer wait_world 1 = 0" "is_fiber wait_world 1" using r(5,6) w by (simp_all add: wait_world_def)
qed

lemma two_world_inv:
  "sched_inv two_world cond_sched" "running two_world = {1}" "w_nstate two_world = 3" "is_fiber two_world 2" "outer two_world 2 = 0"
  "\<not> ready two_world 2" "\<not> dead two_world 2" "outer two_world 1 = 0"
  "lua_touserdata (st_L (w_state two_world 1)) 1 two_world = Some (PState 2)"
  "luaL_checkudata (st_L (w_state two_world 1)) 1 LUV_FIBER_T two_world = Done (PState 2) two_world"
proof -
  note r = run_world_inv
  let ?L = "st_L (w_state run_world 1)"
  obtain w1 where w1: "luvL_fiber_create 1 1 (lua_push ?L (LFun 0) run_world) = Done 2 w1"
      "sched_inv w1 cond_sched" "grown run_world w1" "running w1 = {1}" "fiber_added 2 0 (lua_push ?L (LFun 0) run_world) w1"
      "w_udata w1 (w_nudata run_world) = Some \<lparr>u_meta = LUV_FIBER_T, u_ptr = PState 2\<rparr>"
    using create_step [OF r(1), of 1] r by auto
  have t: "two_world = upd_stack ?L (\<lambda>_. [LUser (w_nudata run_world)]) w1"
    using w1(1) by (simp add: two_world_def Let_def)
  have c: "core two_world = core w1" by (simp add: t)
  have "api_step (w1, cond_sched) (two_world, cond_sched)" by (rule step_lua [OF c])
  from api_step_inv [OF this w1(2)] w1(4) show "sched_inv two_world cond_sched" "running two_world = {1}" by simp_all
  show "w_nstate two_world = 3" "is_fiber two_world 2" "outer two_world 2 = 0" "\<not> ready two_world 2" "\<not> dead two_world 2"
    using fiber_added_new [OF w1(5)] by (simp_all add: t)
  have L: "st_L (w_state two_world 1) = ?L" "outer two_world 1 = 0"
    using w1(3) r(3,6) by (simp_all add: t grown_def)
  then show "outer two_world 1 = 0" by simp
  show "lua_touserdata (st_L (w_state two_world 1)) 1 two_world = Some (PState 2)"
    "luaL_checkudata (st_L (w_state two_world 1)) 1 LUV_FIBER_T two_world = Done (PState 2) two_world"
    unfolding L(1) using w1(6) by (simp_all add: t lua_touserdata_def luaL_checkudata_def lua_arg_def lua_gettop_def)
qed

text \<open>Joining a fiber from another fiber, as the code calls it.\<close>

lemma join_call:
  assumes inv: "sched_inv w a" and f: "f \<in> running w"
    and g: "luaL_checkudata (st_L (w_state w f)) 1 LUV_FIBER_T w = Done (PState g) w" "g < w_nstate w" "is_fiber w g"
      "\<not> dead w g" "g \<noteq> f" "ready w g \<or> \<not> a_waiting a g"
  shows "\<exists>w'. luv_fiber_join vm (st_L (w_state w f)) w = Done (- 1) w' \<and>
    fiber_stop vm f (w, a) LUA_YIELD (w', a_make_ready w g (a_add_join g f a)) \<and> put_to_sleep f {g} w w'"
proof -
  let ?L = "st_L (w_state w f)" and ?w0 = "upd_queue (ngx_queue_insert_tail (SRouse g) (SJoin f)) w"
  have rel: "sched_rel (running w) w a" and rdy: "ready w f" using inv f by (auto simp: sched_inv_def run_ok_def)
  have fi: "f < w_nstate w" "is_fiber w f" using f by (auto simp: running_def)
  have self: "luvL_state_self ?L w = Some f"
    using sched_states [OF rel] run_not_dead [OF rel f f] fi by (simp add: luvL_state_self_def states_ok_def)
  have wake: "ready w g \<or> \<not> a_waiting a g \<and> g \<notin> running w" using g(6) inv by (auto simp: sched_inv_def run_ok_def)
  obtain w' where w': "bindR (luvL_fiber_ready g ?w0) (\<lambda>_ w. luvL_state_suspend vm f w) = Done (- 1) w'" "put_to_sleep f {g} w w'"
    using join_rel [OF rel f f rdy g(2-5) wake] by blast
  have "is_fiber w1 f" if "luvL_fiber_ready g ?w0 = Done u w1" for u w1
    using that fi(2) by (auto simp: luvL_fiber_ready_def luvL_thread_self_def to_thread_def res_simps
        luvL_thread_enqueue_def Let_def deref_def split: if_splits option.splits)
  with w'(1) have "bindR (luvL_fiber_ready g ?w0) (\<lambda>_ w. if is_fiber w f then luvL_state_suspend vm f w
      else bindR (luvL_state_suspend vm f w) (\<lambda>_ w. let (n, w) = luvL_state_xcopy g f w in Done n w)) = Done (- 1) w'"
    by (cases "luvL_fiber_ready g ?w0") auto
  then have j: "luv_fiber_join vm ?L w = Done (- 1) w'"
    using g(1,4,5) self by (simp add: luv_fiber_join_def as_state_def)
  have "lua_touserdata ?L 1 w = Some (PState g)"
    using g(1) by (auto simp: luaL_checkudata_def lua_touserdata_def split: option.splits lua_value.splits if_splits)
  from stop_join [OF j this g(2-4,6) refl] j w'(2) show ?thesis by blast
qed

lemma join_world_inv:
  "sched_inv join_world (a_enqueue 0 2 (a_add_join 2 1 cond_sched))" "at_home 0 join_world" "running join_world = {}"
  "is_fiber join_world 1" "w_nstate join_world = 3"
proof -
  note t = two_world_inv
  have f: "1 \<in> running two_world" using t(2) by simp
  have nw: "\<not> a_waiting cond_sched 2" by (simp add: cond_sched_def a_add_cond_def no_sched_def a_waiting_def)
  obtain w' where w': "luv_fiber_join no_vm (st_L (w_state two_world 1)) two_world = Done (- 1) w'"
    "fiber_stop no_vm 1 (two_world, cond_sched) LUA_YIELD (w', a_make_ready two_world 2 (a_add_join 2 1 cond_sched))"
    "put_to_sleep 1 {2} two_world w'"
    using join_call [OF t(1) f t(10) _ t(4,7), of no_vm] t(3) nw by auto
  have "\<not> ready w' 1" using w'(3) by (simp add: put_to_sleep_def)
  note b = block_step [OF t(1) f w'(2) this, unfolded t(8)]
  have a: "a_make_ready two_world 2 (a_add_join 2 1 cond_sched) = a_enqueue 0 2 (a_add_join 2 1 cond_sched)"
    using t(4-6) by (simp add: a_make_ready_def)
  show "sched_inv join_world (a_enqueue 0 2 (a_add_join 2 1 cond_sched))" "at_home 0 join_world" "running join_world = {}"
    using b t(2) w'(1) a by (simp_all add: join_world_def)
  show "is_fiber join_world 1" "w_nstate join_world = 3"
    using w'(1,3) t(3) f by (auto simp: join_world_def put_to_sleep_def running_def)
qed

lemma exit_world_inv:
  "sched_inv exit_world (a_add_join 2 1 cond_sched)" "running exit_world = {2}" "outer exit_world 2 = 0"
  "is_fiber exit_world 1" "w_stack exit_world (st_L (w_state exit_world 2)) = [LBool True]"
proof -
  note j = join_world_inv
  let ?a = "a_enqueue 0 2 (a_add_join 2 1 cond_sched)" and ?w = "resume_world 0 2 join_world"
  have p: "a_pop 0 ?a = a_add_join 2 1 cond_sched" "a_ready ?a 0 = [2]"
    by (simp_all add: a_pop_def a_enqueue_def a_add_join_def cond_sched_def a_add_cond_def no_sched_def fun_upd_idem)
  have i: "sched_rel (running join_world) join_world ?a" "run_ok (running join_world) join_world"
    using j(1) by (simp_all add: sched_inv_def)
  have t: "0 < w_nstate join_world" "is_thread join_world 0" "current join_world 0 = 0"
    using j(2) by (simp_all add: at_home_def)
  note w = resume_world_rel [OF i(1) t(1,2) p(2) refl i(2) t(3)]
  have e: "exit_world = upd_stack (st_L (w_state ?w 2)) (\<lambda>_. [LBool True]) ?w" by (simp add: exit_world_def Let_def)
  have c: "core exit_world = core ?w" by (simp add: e)
  have "running exit_world = running ?w" by (simp add: e running_def)
  then show "running exit_world = {2}" "outer exit_world 2 = 0" using w(2,7) j(3) by (simp_all add: e)
  then show "sched_inv exit_world (a_add_join 2 1 cond_sched)"
    using w(1,2,3) p(1) j(3) by (simp add: sched_inv_def sched_rel_core [OF c] run_ok_def core_eq [OF c])
  show "is_fiber exit_world 1" using j(4) by (simp add: e resume_world_def Let_def)
  show "w_stack exit_world (st_L (w_state exit_world 2)) = [LBool True]" by (simp add: e)
qed

end
