(* ===== verification/Sched_Props.thy ===== *)
theory Sched_Props
  imports Sched_Demo
begin

text \<open>
  What the scheduler of \<open>luv_state.c\<close>, \<open>luv_fiber.c\<close>, \<open>luv_cond.c\<close> and \<open>luv_thread.c\<close> promises.  Each
  property speaks about the functions of the code; \<open>sched_inv w a\<close> says that the world \<open>w\<close> is a
  consistent scheduler that represents the lists \<open>a\<close>.
\<close>

section \<open>The invariant\<close>

text \<open>C16: \<open>luvL_thread_init_main\<close> establishes the invariant of the scheduler: a world with one thread,
  ready and its own current state, and empty queues.\<close>

theorem sched_init:
  assumes "blank w"
  shows "sched_inv (luvL_thread_init_main 0 w) no_sched \<and> at_home 0 (luvL_thread_init_main 0 w) \<and>
    ready (luvL_thread_init_main 0 w) 0"
  using init_main_inv [OF assms] by blast

theorem sched_init_witness:
  "sched_inv main_world no_sched \<and> ready main_world 0"
  using sched_init [OF blank_empty, of "[] :: scripts"] by (simp add: main_world_def)



section \<open>Waking\<close>

text \<open>C12: \<open>luvL_fiber_ready\<close> on a fiber that is neither ready nor waiting returns, puts it at the end of
  the ready list of its thread, once, and marks it ready; a second call changes nothing.\<close>

theorem fiber_ready_enqueues:
  assumes "sched_inv w a" "f < w_nstate w" "is_fiber w f" "\<not> ready w f" "\<not> a_waiting a f"
  shows "\<exists>w'. luvL_fiber_ready f w = Done () w' \<and> sched_inv w' (a_enqueue (outer w f) f a) \<and>
    made_ready f w w' \<and> luvL_fiber_ready f w' = Done () w'"
proof -
  have rel: "sched_rel (running w) w a" and run: "run_ok (running w) w" using assms(1) by (simp_all add: sched_inv_def)
  have "f \<notin> running w" using run assms(4) by (auto simp: run_ok_def)
  then obtain w' where w': "luvL_fiber_ready f w = Done () w'" "sched_rel (running w) w' (a_make_ready w f a)" "made_ready f w w'"
    using fiber_ready_rel [OF rel assms(2,3)] assms(5) by blast
  have "sched_inv w' (a_enqueue (outer w f) f a)"
    using w'(2) run_ok_ready [OF run w'(3)] same_shape_running [OF made_ready_shape [OF w'(3)]] assms(3,4)
    by (simp add: sched_inv_def a_make_ready_def)
  moreover have "ready w' f" using w'(3) by (simp add: made_ready_def)
  ultimately show ?thesis using w' by (auto simp: luvL_fiber_ready_def)
qed

theorem fiber_ready_enqueues_witness:
  "\<exists>w'. luvL_fiber_ready 1 fiber_world = Done () w' \<and> sched_inv w' (a_enqueue 0 1 cond_sched)"
  using fiber_ready_enqueues [OF fiber_world_inv(1) _ fiber_world_inv(4,6)] fiber_world_inv(3,5)
  by (auto simp: cond_sched_def a_add_cond_def no_sched_def a_waiting_def)

text \<open>C9: \<open>luvL_cond_signal\<close> wakes exactly the state that has waited longest and returns 1, or returns 0
  and changes nothing when no state waits.\<close>

theorem cond_signal_wakes_first:
  assumes "sched_inv w a" "c \<in> a_conds a"
  shows "\<exists>w'. luvL_cond_signal c w = Done (if a_wait a c = [] then 0 else 1) w' \<and> sched_inv w' (a_signal w c a) \<and>
    (case a_wait a c of [] \<Rightarrow> w' = w | s # ss \<Rightarrow> made_ready s w w' \<and> a_wait (a_signal w c a) c = ss)"
proof -
  have rel: "sched_rel (running w) w a" and run: "run_ok (running w) w" using assms(1) by (simp_all add: sched_inv_def)
  obtain w' where w': "luvL_cond_signal c w = Done (if a_wait a c = [] then 0 else 1) w'"
    "sched_rel (running w) w' (a_signal w c a)" "run_ok (running w) w'"
    "case a_wait a c of [] \<Rightarrow> w' = w | s # _ \<Rightarrow> made_ready s w w'"
    using cond_signal_rel [OF rel run assms(2)] by blast
  have "running w' = running w"
    using w'(4) same_shape_running made_ready_shape by (fastforce split: list.splits)
  then show ?thesis using w' by (auto simp: sched_inv_def a_signal_def split: list.splits)
qed

theorem cond_signal_wakes_first_witness:
  "\<exists>w'. luvL_cond_signal (CondVar 0) wait_world = Done 1 w' \<and> made_ready 1 wait_world w'"
  using cond_signal_wakes_first [OF wait_world_inv(1), of "CondVar 0"]
  by (auto simp: cond_sched_def a_add_cond_def no_sched_def)

text \<open>C8: \<open>luvL_cond_broadcast\<close> ends, returns the number of states that waited, and makes all of them
  ready in the order in which they came; nobody waits afterwards.\<close>

theorem cond_broadcast_wakes_all:
  assumes "sched_inv w a" "c \<in> a_conds a"
  shows "\<exists>w'. luvL_cond_broadcast c w = Done (int (length (a_wait a c))) w' \<and>
    sched_inv w' (fold (a_make_ready w) (a_wait a c) (a\<lparr>a_wait := (a_wait a)(c := [])\<rparr>)) \<and>
    made_all_ready (set (a_wait a c)) w w'"
proof -
  have rel: "sched_rel (running w) w a" and run: "run_ok (running w) w" using assms(1) by (simp_all add: sched_inv_def)
  obtain w' where w': "luvL_cond_broadcast c w = Done (int (length (a_wait a c))) w'"
    "sched_rel (running w) w' (a_broadcast w c a)" "run_ok (running w) w'" "made_all_ready (set (a_wait a c)) w w'"
    using cond_broadcast_rel [OF rel run assms(2)] by blast
  with same_shape_running [OF made_all_ready_shape [OF w'(4)]] show ?thesis
    by (auto simp: sched_inv_def a_broadcast_def)
qed

theorem cond_broadcast_wakes_all_witness:
  "\<exists>w'. luvL_cond_broadcast (CondVar 0) wait_world = Done 1 w' \<and> made_all_ready {1} wait_world w'"
  using cond_broadcast_wakes_all [OF wait_world_inv(1), of "CondVar 0"]
  by (auto simp: cond_sched_def a_add_cond_def no_sched_def)

section \<open>Blocking\<close>

text \<open>C11: \<open>luvL_cond_wait\<close> by a running fiber yields, with the fiber at the end of the queue of the condition
  and not ready; all queues stay consistent, and when control is back in the thread the
  invariant holds.\<close>

theorem cond_wait_blocks:
  assumes "sched_inv w a" "f \<in> running w" "c \<in> a_conds a"
  shows "\<exists>w'. luvL_cond_wait vm c f w = Done (- 1) w' \<and> put_to_sleep f {} w w' \<and>
    sched_inv (set_curr (outer w f) (outer w f) w') (a_add_wait c f a)"
proof -
  have rel: "sched_rel (running w) w a" and rdy: "ready w f" using assms by (auto simp: sched_inv_def run_ok_def)
  let ?w = "suspended f (upd_queue (ngx_queue_insert_tail c (SCond f)) w)"
  have c: "luvL_cond_wait vm c f w = Done (- 1) ?w" for vm :: "'a vm"
    using cond_wait_rel(1) [OF rel assms(2,2) rdy assms(3)] .
  have "\<not> ready ?w f" by simp
  from block_step(1) [OF assms(1,2) stop_wait [OF c assms(3) refl] this] c suspended_sleeps(2) show ?thesis by blast
qed

theorem cond_wait_blocks_witness:
  "\<exists>w'. luvL_cond_wait no_vm (CondVar 0) 1 run_world = Done (- 1) w' \<and> put_to_sleep 1 {} run_world w'"
  using cond_wait_blocks [OF run_world_inv(1), of 1 "CondVar 0" no_vm] run_world_inv(2)
  by (auto simp: cond_sched_def a_add_cond_def)

text \<open>C10: \<open>fiber:join()\<close> by a running fiber on another live fiber that does not wait: the caller blocks at the
  end of the list of states that join, the other fiber is made ready, and the invariant holds
  when control is back in the thread.\<close>

theorem fiber_join_blocks:
  assumes "sched_inv w a" "f \<in> running w" "luaL_checkudata (st_L (w_state w f)) 1 LUV_FIBER_T w = Done (PState g) w"
    "g < w_nstate w" "is_fiber w g" "\<not> dead w g" "g \<noteq> f" "ready w g \<or> \<not> a_waiting a g"
  shows "\<exists>w'. luv_fiber_join vm (st_L (w_state w f)) w = Done (- 1) w' \<and> put_to_sleep f {g} w w' \<and>
    sched_inv (set_curr (outer w f) (outer w f) w') (a_make_ready w g (a_add_join g f a))"
proof -
  obtain w' where w': "luv_fiber_join vm (st_L (w_state w f)) w = Done (- 1) w'"
    "fiber_stop vm f (w, a) LUA_YIELD (w', a_make_ready w g (a_add_join g f a))" "put_to_sleep f {g} w w'"
    using join_call [OF assms] by blast
  have "\<not> ready w' f" using w'(3) by (simp add: put_to_sleep_def)
  from block_step(1) [OF assms(1,2) w'(2) this] w' show ?thesis by blast
qed

theorem fiber_join_blocks_witness:
  "\<exists>w'. luv_fiber_join no_vm (st_L (w_state two_world 1)) two_world = Done (- 1) w' \<and> put_to_sleep 1 {2} two_world w'"
  using fiber_join_blocks [OF two_world_inv(1) _ two_world_inv(10) _ two_world_inv(4,7), of no_vm] two_world_inv(2,3)
  by (auto simp: cond_sched_def a_add_cond_def no_sched_def a_waiting_def)

text \<open>C13: \<open>luvL_fiber_create\<close> with a function and arguments on top of the stack returns a new fiber of the
  thread of the caller, with the function and arguments moved to its own stack and its userdata
  in their place; it is not started, and nothing else changes for the scheduler.\<close>

theorem fiber_create_fresh:
  assumes "sched_inv w a" "s < w_nstate w" "w_stack w (st_L (w_state w s)) = st @ func # args" "is_fun func"
  shows "\<exists>w'. luvL_fiber_create s (Suc (length args)) w = Done (w_nstate w) w' \<and> sched_inv w' a \<and> grown w w' \<and>
    w_nstate w' = Suc (w_nstate w) \<and> is_fiber w' (w_nstate w) \<and>
    outer w' (w_nstate w) = (if is_thread w s then s else outer w s) \<and> st_flags (w_state w' (w_nstate w)) = 0 \<and>
    w_stack w' (st_L (w_state w s)) = st @ [LUser (w_nudata w)] \<and>
    w_udata w' (w_nudata w) = Some \<lparr>u_meta = LUV_FIBER_T, u_ptr = PState (w_nstate w)\<rparr> \<and>
    w_stack w' (st_L (w_state w' (w_nstate w))) = func # args"
proof -
  have ok: "states_ok w" using assms(1) sched_states by (auto simp: sched_inv_def)
  obtain w' where w': "luvL_fiber_create s (Suc (length args)) w = Done (w_nstate w) w'"
    "fiber_added (w_nstate w) (if is_thread w s then s else outer w s) w w'"
    "w_stack w' (st_L (w_state w s)) = st @ [LUser (w_nudata w)]" "w_stack w' (w_nlua w) = func # args"
    "w_udata w' (w_nudata w) = Some \<lparr>u_meta = LUV_FIBER_T, u_ptr = PState (w_nstate w)\<rparr>"
    using fiber_create_eq [OF ok assms(2) refl assms(3,4)] by blast
  have "api_step (w, a) (w', a)" using w'(1) assms(2) by (intro step_create) (simp_all, simp add: assms(3))
  from api_step_inv [OF this assms(1)] w' show ?thesis by (auto simp: fiber_added_def)
qed

theorem fiber_create_fresh_witness:
  "\<exists>w'. luvL_fiber_create 0 1 (upd_stack (st_L (w_state main_world 0)) (\<lambda>_. [LFun 0]) main_world) = Done 1 w' \<and> sched_inv w' no_sched"
proof -
  let ?w = "upd_stack (st_L (w_state main_world 0)) (\<lambda>_. [LFun 0]) main_world"
  have "api_step (main_world, no_sched) (?w, no_sched)" by (rule step_lua) simp
  then have i: "sched_inv ?w no_sched" using api_step_inv main_world_inv(1) by blast
  have n: "w_nstate ?w = 1"
    by (simp add: main_world_def luvL_thread_init_main_def new_udata_def Let_def lua_push_def empty_world_def)
  show ?thesis using fiber_create_fresh [OF i, of 0 "[]" "LFun 0" "[]"] n by auto
qed

section \<open>The end of a fiber\<close>

text \<open>C7: When the function of a running fiber returns, \<open>luvL_thread_once\<close> makes every state that joined
  it ready and appends the results to the stack of every joining fiber; the loop over them ends,
  nobody joins the fiber any more, it is dead, and the invariant holds.\<close>

theorem fiber_exit_delivers:
  assumes "sched_inv w a" "f \<in> running w"
  shows "\<exists>w'. after_resume (outer w f) f LUA_OK (set_curr (outer w f) (outer w f) w) = Done () w' \<and>
    sched_inv w' (a_finish w f a) \<and> a_join (a_finish w f a) f = [] \<and> dead w' f \<and>
    (\<forall>s\<in>set (a_join a f). ready w' s \<and> (is_fiber w s \<longrightarrow>
       w_stack w' (st_L (w_state w s)) = w_stack w (st_L (w_state w s)) @ w_stack w (st_L (w_state w f))))"
proof -
  let ?t = "outer w f" and ?w = "set_curr (outer w f) (outer w f) w"
  have fi: "f < w_nstate w" "is_fiber w f" using assms(2) by (simp_all add: running_def)
  have "states_ok w" using assms(1) sched_states by (auto simp: sched_inv_def)
  then have t: "?t < w_nstate w" "is_thread w ?t" using fi by (auto simp: states_ok_def)
  have "running w = insert f (running w - {f})" using assms(2) by blast
  from after_resume_inv [OF stopped_here [OF assms] this _ t refl, of LUA_OK] obtain w' where
    w': "after_resume ?t f LUA_OK ?w = Done () w'" "sched_inv w' (a_finish ?w f a)" "dead w' f"
      "joined_states_served f (a_join a f) ?w w'" by (auto simp: a_after_def)
  have m: "a_make_ready ?w = a_make_ready w" by (simp add: a_make_ready_def fun_eq_iff)
  then have fin: "a_finish ?w f a = a_finish w f a" by (simp add: a_finish_def)
  have "a_join (fold (a_make_ready w) ss b) = a_join b" for ss b by (induction ss arbitrary: b) (simp_all add: a_make_ready_def)
  then have "a_join (a_finish w f a) f = []" by (simp add: a_finish_def)
  with w' fin show ?thesis by (auto simp: joined_states_served_def)
qed

theorem fiber_exit_delivers_witness:
  "\<exists>w'. after_resume 0 2 LUA_OK (set_curr 0 0 exit_world) = Done () w' \<and> dead w' 2 \<and> ready w' 1 \<and>
    w_stack w' (st_L (w_state exit_world 1)) = w_stack exit_world (st_L (w_state exit_world 1)) @ [LBool True]"
  using fiber_exit_delivers [OF exit_world_inv(1), of 2] exit_world_inv(2-5) by auto

text \<open>C23: When a running fiber fails, \<open>luvL_thread_once\<close> raises its error message in the thread and the
  fiber is dead, but the states that joined it stay in its list: none of them is made ready, and
  no later end of the fiber can do it.\<close>

theorem fiber_error_strands_joiners:
  assumes "sched_inv w a" "f \<in> running w"
  shows "\<exists>msg w'. after_resume (outer w f) f LUA_ERR (set_curr (outer w f) (outer w f) w) = Raise msg w' \<and>
    sched_inv w' a \<and> dead w' f \<and> (\<forall>s\<in>set (a_join a f). \<not> ready w' s)"
proof -
  let ?t = "outer w f" and ?w = "set_curr (outer w f) (outer w f) w"
  have fi: "f < w_nstate w" "is_fiber w f" using assms(2) by (simp_all add: running_def)
  have "states_ok w" using assms(1) sched_states by (auto simp: sched_inv_def)
  then have t: "?t < w_nstate w" "is_thread w ?t" using fi by (auto simp: states_ok_def)
  have "running w = insert f (running w - {f})" using assms(2) by blast
  from after_resume_inv [OF stopped_here [OF assms] this _ t refl, of LUA_ERR] obtain msg w' where
    w': "after_resume ?t f LUA_ERR ?w = Raise msg w'" "sched_inv w' a" "dead w' f" by (auto simp: a_after_def)
  have "\<not> ready w' s" if "s \<in> set (a_join a f)" for s
    using that w'(2) sched_waiting [of "running w'" w' a s] by (auto simp: sched_inv_def a_waiting_def)
  with w' show ?thesis by blast
qed

theorem fiber_error_strands_joiners_witness:
  "\<exists>msg w'. after_resume 0 2 LUA_ERR (set_curr 0 0 exit_world) = Raise msg w' \<and> dead w' 2 \<and> \<not> ready w' 1"
  using fiber_error_strands_joiners [OF exit_world_inv(1), of 2] exit_world_inv(2,3) by auto

section \<open>The loop of a thread\<close>


lemma script_luv_vm: "luv_vm script_vm"
  by (rule script.luv_vm_axioms)


text \<open>C14: \<open>luvL_thread_loop\<close> keeps the invariant, faults nowhere, and returns only when no fiber of the
  thread is ready (or with the error of a fiber).\<close>

theorem thread_loop_drains:
  assumes "luv_vm vm" "sched_inv w a" "at_home t w"
  shows "luvL_thread_loop vm t w = Fail No_Return \<or>
    (\<exists>w' a'. (luvL_thread_loop vm t w = Done () w' \<and> a_ready a' t = [] \<or>
              (\<exists>e. luvL_thread_loop vm t w = Raise e w')) \<and> sched_inv w' a' \<and> at_home t w')"
  using luv_vm.loop_inv [OF assms] .

theorem thread_loop_drains_witness:
  "luvL_thread_loop script_vm 0 ready_world \<noteq> Fail Null_Deref"
  using thread_loop_drains [OF script_luv_vm ready_world_inv(1,2)] by auto

text \<open>C2: \<open>luvL_thread_loop\<close> returns whenever the Lua program yields and creates fibers only a bounded
  number of times and none of its fibers runs forever.\<close>

theorem thread_loop_returns:
  assumes "luv_finite_vm vm work" "sched_inv w a" "at_home t w"
  shows "\<exists>w' a'. (luvL_thread_loop vm t w = Done () w' \<and> a_ready a' t = [] \<or>
      (\<exists>e. luvL_thread_loop vm t w = Raise e w')) \<and> sched_inv w' a' \<and> at_home t w'"
  using luv_finite_vm.loop_returns [OF assms] luv_vm.loop_inv [OF luv_finite_vm.axioms(1) [OF assms(1)] assms(2,3)]
  by blast

theorem thread_loop_returns_witness:
  "\<exists>w'. luvL_thread_loop script_vm 0 ready_world = Done () w' \<or> (\<exists>e. luvL_thread_loop script_vm 0 ready_world = Raise e w')"
  using thread_loop_returns [OF script.luv_finite_vm_axioms ready_world_inv(1,2)] by blast






end
