(* ===== verification/Sched_Spurious.thy ===== *)
theory Sched_Spurious
  imports Sched_Props
begin

text \<open>
  Why the calls that wake a fiber must not meet a waiting one.  \<open>fiber:ready()\<close> and \<open>fiber:join()\<close> call
  \<open>luvL_fiber_ready\<close> without looking whether the fiber waits on a condition.  The fiber then
  runs with its link still in the queue; if it waits again the link is inserted a second time,
  the queue is damaged, and \<open>luvL_cond_broadcast\<close> never ends.
\<close>

section \<open>A link inserted twice\<close>

definition knot :: "'a \<Rightarrow> 'a \<Rightarrow> 'a ngx_heap \<Rightarrow> bool" where
  "knot c x s \<longleftrightarrow> c \<noteq> x \<and> next s c = x \<and> prev s c = x \<and> next s x = c \<and> prev s x = x"

lemma knot_twice: "queue s c [x] \<Longrightarrow> knot c x (ngx_queue_insert_tail c x s)"
  by (auto simp: knot_def queue_def ngx_queue_insert_tail_def Let_def)

lemma knot_remove: "knot c x s \<Longrightarrow> knot c x (ngx_queue_remove x s)"
  by (auto simp: knot_def ngx_queue_remove_def Let_def)

lemma knot_insert:
  "knot c x s \<Longrightarrow> {h, y, prev s h} \<inter> {c, x} = {} \<Longrightarrow> knot c x (ngx_queue_insert_tail h y s)"
  by (auto simp: knot_def ngx_queue_insert_tail_def Let_def)

text \<open>A round of the broadcast on such a queue leaves it as it was.\<close>

lemma broadcast_round_knot:
  assumes "knot c (SCond f) (w_queue w)" "is_fiber w f" "ready w f"
  shows "\<exists>w'. broadcast_round c (n, w) = Done () (n + 1, w') \<and> knot c (SCond f) (w_queue w') \<and> is_fiber w' f \<and> ready w' f"
proof -
  have "ngx_queue_head c (w_queue w) = SCond f" using assms(1) by (simp add: knot_def ngx_queue_head_def)
  then show ?thesis
    using assms knot_remove [OF assms(1)]
    by (simp add: broadcast_round_def cond_rouse_def queue_data_def of_cond_def luvL_state_ready_def luvL_fiber_ready_def)
qed

lemma broadcast_hangs:
  assumes "knot c (SCond f) (w_queue w)" "is_fiber w f" "ready w f"
  shows "whileR (\<lambda>(_, w). \<not> is_empty c w) (broadcast_round c) (n, w) = Fail No_Return"
proof -
  let ?b = "\<lambda>(_, w). \<not> is_empty c w"
  let ?c = "\<lambda>s. if ?b s then bindR (broadcast_round c s) (\<lambda>_ s. Done True s) else Done False s"
  let ?I = "\<lambda>(n :: int, w). knot c (SCond f) (w_queue w) \<and> is_fiber w f \<and> ready w f"
  have step: "\<exists>s'. ?c s = Done True s' \<and> ?I s'" if "?I s" for s
  proof -
    obtain n w where s: "s = (n, w)" by fastforce
    have "\<not> is_empty c w" using that s by (auto simp: knot_def ngx_queue_empty_def)
    with broadcast_round_knot [of c f w n] that s show ?thesis by auto
  qed
  have "?I (n, w)" using assms by simp
  then show ?thesis unfolding whileR_def by (rule loopR_diverges [of ?I]) (rule step)
qed

section \<open>Waking a fiber that waits\<close>

text \<open>The second wait inserts the link twice, and the broadcast after it does not end.\<close>

lemma rewait_hangs:
  assumes st: "states_ok w" "f \<in> running w" "ready w f" "\<not> dead w f" "is_fiber w f" "f < w_nstate w"
    and cq: "queue (w_queue w) c [SCond f]" and tq: "queue (w_queue w) (SRouse (outer w f)) []" and cn: "c \<in> cond_nodes"
  shows "\<exists>w'. luvL_cond_wait vm c f w = Done (- 1) w' \<and> luvL_cond_broadcast c w' = Fail No_Return"
proof -
  let ?t = "outer w f" and ?x = "SCond f"
  let ?w3 = "upd_queue (ngx_queue_insert_tail c ?x) w"
  have st3: "states_ok ?w3" "f \<in> running ?w3" "ready ?w3 f" "\<not> dead ?w3 f" "is_fiber ?w3 f"
    using st by (simp_all add: states_ok_def running_def)
  have wt: "luvL_cond_wait vm c f w = Done (- 1) (suspended f ?w3)"
    using fiber_suspend_eq [OF st3(1-4)] st(5) by (simp add: luvL_cond_wait_def luvL_state_suspend_def)
  let ?w4 = "upd_queue (ngx_queue_remove ?x) (suspended f ?w3)"
  have k: "knot c ?x (w_queue (suspended f ?w3))" using knot_twice [OF cq] by simp
  have ne: "c \<noteq> SRouse s" "c \<noteq> SQueue s" "c \<noteq> SCond s" for s using cn by auto
  have "prev (w_queue ?w4) (SRouse ?t) = SRouse ?t"
    using tq ne by (auto simp: ngx_queue_insert_tail_def ngx_queue_remove_def Let_def)
  then have k4: "knot c ?x (ngx_queue_insert_tail (SRouse ?t) (SQueue f) (w_queue ?w4))"
    using ne knot_remove [OF k] by (intro knot_insert) auto
  have st4: "states_ok ?w4" "f < w_nstate ?w4" "is_fiber ?w4 f" "\<not> dead ?w4 f" "\<not> ready ?w4 f" "outer ?w4 f = ?t"
    using st by (simp_all add: states_ok_def)
  let ?w5 = "luvL_thread_enqueue ?t f (raise_flag LUV_FREADY f ?w4)"
  have "luvL_state_ready f ?w4 = Done () ?w5"
    using fiber_ready_eq [OF st4(1-4)] st4(3,5,6) by (simp add: luvL_state_ready_def)
  then have br: "broadcast_round c (0, suspended f ?w3) = Done () (1, ?w5)"
    using k by (simp add: knot_def ngx_queue_head_def broadcast_round_def cond_rouse_def queue_data_def of_cond_def Let_def)
  have "\<not> is_empty c (suspended f ?w3)" using k by (auto simp: knot_def ngx_queue_empty_def)
  then have b: "whileR (\<lambda>(_, w). \<not> is_empty c w) (broadcast_round c) (0, suspended f ?w3) =
      whileR (\<lambda>(_, w). \<not> is_empty c w) (broadcast_round c) (1, ?w5)"
    by (subst whileR_unfold) (simp add: br)
  have "knot c ?x (w_queue ?w5)" "is_fiber ?w5 f" "ready ?w5 f"
    using k4 st4(3) by (simp_all add: luvL_thread_enqueue_def Let_def)
  from broadcast_hangs [OF this, of 1] b have "luvL_cond_broadcast c (suspended f ?w3) = Fail No_Return"
    by (simp add: luvL_cond_broadcast_def)
  with wt show ?thesis by blast
qed

text \<open>C24: A fiber that waits alone on a condition is woken by \<open>luvL_fiber_ready\<close> (as \<open>fiber:ready()\<close> and
  \<open>fiber:join()\<close> do), is resumed by its thread, and waits on the same condition again: all three calls succeed,
  and after that \<open>luvL_cond_broadcast\<close> on the condition never returns.\<close>

theorem wake_while_waiting_hangs:
  assumes inv: "sched_inv w a" and home: "at_home (outer w f) w" and fi: "is_fiber w f"
    and c: "c \<in> a_conds a" "a_wait a c = [f]" and idle: "a_ready a (outer w f) = []"
  shows "\<exists>w1 w2. luvL_fiber_ready f w = Done () w1 \<and> ngx_queue_head (SRouse (outer w f)) (w_queue w1) = SQueue f \<and>
    luvL_cond_wait vm c f (resume_world (outer w f) f w1) = Done (- 1) w2 \<and>
    luvL_cond_broadcast c w2 = Fail No_Return"
proof -
  let ?t = "outer w f" and ?x = "SCond f"
  have rel: "sched_rel (running w) w a" using inv by (simp add: sched_inv_def)
  have "a_waiting a f" unfolding a_waiting_def using c(2) by (metis list.set_intros(1))
  then have f: "f < w_nstate w" "\<not> ready w f" using sched_waiting [OF rel] by blast+
  have nd: "\<not> dead w f" using sched_dead [OF rel f(1) fi] f(2) by blast
  have ok: "states_ok w" using sched_states [OF rel] .
  have t: "?t < w_nstate w" "is_thread w ?t" "current w ?t = ?t" using home by (simp_all add: at_home_def)
  define w1 where "w1 = luvL_thread_enqueue ?t f (raise_flag LUV_FREADY f w)"
  have r1: "luvL_fiber_ready f w = Done () w1" using fiber_ready_eq [OF ok f(1) fi nd] f(2) by (simp add: w1_def)
  have q1: "w_queue w1 = ngx_queue_insert_tail (SRouse ?t) (SQueue f) (w_queue w)"
    by (simp add: w1_def luvL_thread_enqueue_def Let_def)
  have nl: "\<not> linked (heads w a) (links w a) (SQueue f)"
    using linked_iff(1) [OF rel] sched_ready [OF rel] f(2) by (auto simp: queued_def)
  note fam = nq.insert_law [OF sched_family [OF rel] state_head [OF t(1)] link_not_head(1) [OF rel] nl]
  have lk: "((links w a)(SRouse ?t := links w a (SRouse ?t) @ [SQueue f])) (SRouse ?t) = [] @ SQueue f # []"
    using idle t(2) by simp
  have hd1: "ngx_queue_head (SRouse ?t) (w_queue w1) = SQueue f"
    using nq.front_law [OF fam state_head [OF t(1)]] lk q1 by simp
  define w2 where "w2 = resume_world ?t f w1"
  have q2: "w_queue w2 = ngx_queue_remove (SQueue f) (w_queue w1)" by (simp add: w2_def resume_world_def Let_def)
  have fam2: "qfamily (w_queue w2) (heads w a) (links w a)"
    using nq.remove_law [OF fam state_head [OF t(1)] lk] idle t(2) by (simp add: q1 q2 fun_upd_idem del: fun_upd_apply)
  have st2: "states_ok w2" "f \<in> running w2" "ready w2 f" "\<not> dead w2 f" "is_fiber w2 f" "f < w_nstate w2" "outer w2 f = ?t"
    using ok f fi nd t
    by (auto simp: w2_def w1_def resume_world_def luvL_thread_enqueue_def Let_def states_ok_def running_def)
  have cq: "queue (w_queue w2) c [?x]"
    using qfamily_queue [OF fam2 cond_head [OF c(1)]] cond_links [OF rel c(1)] c(2) by simp
  have tq: "queue (w_queue w2) (SRouse ?t) []"
    using qfamily_queue [OF fam2 state_head [OF t(1)]] idle t(2) by simp
  have "c \<in> cond_nodes" using sched_conds [OF rel] c(1) by blast
  with rewait_hangs [OF st2(1-6) cq] tq st2(7) have "\<exists>w3. luvL_cond_wait vm c f w2 = Done (- 1) w3 \<and> luvL_cond_broadcast c w3 = Fail No_Return"
    by simp
  with r1 hd1 show ?thesis unfolding w2_def by blast
qed

theorem wake_while_waiting_hangs_witness:
  "\<exists>w1 w2. luvL_fiber_ready 1 wait_world = Done () w1 \<and>
    luvL_cond_wait no_vm (CondVar 0) 1 (resume_world 0 1 w1) = Done (- 1) w2 \<and>
    luvL_cond_broadcast (CondVar 0) w2 = Fail No_Return"
  using wake_while_waiting_hangs [OF wait_world_inv(1), of 1 "CondVar 0" no_vm] wait_world_inv(2-4)
  by (auto simp: cond_sched_def a_add_cond_def no_sched_def)

end
