(* ===== verification/Luv_Uv.thy ===== *)
theory Luv_Uv
  imports Luv_Cond
begin

text \<open>
  What the handle components rely on: libuv and ZeroMQ, which are not part of the repository, and
  the argument checks and push functions of the Lua C API.

  A call of libuv is a value of \<open>uv_fn\<close>; \<open>sys_call\<close> says what it returns and how it changes the
  part of the world the model leaves open.  The callbacks a call registers are definitions of the
  components; the event loop runs them.  Handles and requests are named by the struct they are
  embedded in: a \<open>uv_handle_t\<close> by its object, a \<open>uv_req_t\<close> by its state.  Error messages are
  modelled without the position \<open>luaL_error\<close> may put in front.
\<close>

section \<open>Calls of libuv\<close>

type_synonym loop = nat \<comment> \<open>\<open>uv_loop_t*\<close>\<close>

text \<open>The requests of \<open>uv_fs_*\<close> with their arguments.\<close>

datatype fs_op =
    Fs_open bytes int int
  | Fs_unlink bytes
  | Fs_mkdir bytes int
  | Fs_rmdir bytes
  | Fs_readdir bytes int
  | Fs_stat bytes
  | Fs_rename bytes bytes
  | Fs_sendfile int int int int
  | Fs_chmod bytes int
  | Fs_utime bytes u64 u64
  | Fs_lstat bytes
  | Fs_link bytes bytes
  | Fs_symlink bytes bytes int
  | Fs_readlink bytes
  | Fs_chown bytes int int
  | Fs_fstat int
  | Fs_fsync int
  | Fs_fdatasync int
  | Fs_ftruncate int int
  | Fs_futime int u64 u64
  | Fs_fchmod int int
  | Fs_fchown int int int
  | Fs_read int int int \<comment> \<open>file, length of the buffer, offset\<close>
  | Fs_write int bytes int
  | Fs_close int

text \<open>The memory \<open>zmq_setsockopt\<close> is given: a number of some bytes, or the first bytes of a pointer.\<close>

datatype zmq_value = Zmq_number int nat | Zmq_pointer_bytes nat

datatype uv_fn =
    Uv_close oid
  | Uv_timer_init loop oid
  | Uv_timer_start oid int int
  | Uv_timer_again oid
  | Uv_timer_stop oid
  | Uv_sleep_init loop sid \<comment> \<open>the timer \<open>luv_sleep\<close> allocates for a state\<close>
  | Uv_sleep_start sid int int
  | Uv_idle_init loop oid
  | Uv_idle_start oid
  | Uv_idle_stop oid
  | Uv_listen oid int
  | Uv_accept oid oid
  | Uv_read_start oid
  | Uv_read_stop oid
  | Uv_write sid oid bytes
  | Uv_shutdown sid oid
  | Uv_is_readable oid
  | Uv_is_writable oid
  | Uv_pipe_init loop oid bool
  | Uv_pipe_open oid int
  | Uv_pipe_bind oid bytes
  | Uv_pipe_connect sid oid bytes
  | Uv_fs loop sid fs_op bool \<comment> \<open>with or without a callback\<close>
  | Uv_fs_req_cleanup sid
  | Uv_chdir bytes
  | Uv_cwd nat
  | Uv_exepath nat
  | Uv_tcp_init loop oid
  | Uv_tcp_bind oid bytes int \<comment> \<open>the address \<open>uv_ip4_addr(host, port)\<close>\<close>
  | Uv_tcp_connect sid oid bytes int
  | Uv_tcp_nodelay oid bool
  | Uv_tcp_keepalive oid bool u32
  | Uv_tcp_getsockname oid
  | Uv_tcp_getpeername oid
  | Uv_udp_init loop oid
  | Uv_udp_bind oid bytes int int
  | Uv_udp_send sid oid bytes bytes int
  | Uv_udp_recv_start oid
  | Uv_udp_set_membership oid bytes bytes bool \<comment> \<open>\<open>True\<close>: leave the group\<close>
  | Uv_getaddrinfo loop sid "bytes option" "bytes option" int int int int
  | Uv_freeaddrinfo sid \<comment> \<open>the answer to the request of a state\<close>
  | Uv_free_cpu_info
  | Uv_free_interface_addresses
  | Uv_poll_init_socket loop oid int
  | Uv_poll_start oid int
  | Uv_poll_stop oid
  | Uv_spawn loop oid bytes "bytes list" "bytes list option" "bytes option" "oid option list" bool
  | Uv_unref_process oid
  | Uv_process_kill oid int
  | Uv_loop_new
  | Uv_loop_delete loop
  | Uv_thread_create sid
  | Uv_thread_join sid
  | Zmq_ctx_new
  | Zmq_ctx_set "nat option" int int
  | Zmq_ctx_destroy "nat option"
  | Zmq_socket "nat option" int
  | Zmq_close "nat option"
  | Zmq_bind "nat option" bytes
  | Zmq_connect "nat option" bytes
  | Zmq_poll "nat option" int
  | Zmq_msg_init_size nat
  | Zmq_msg_init
  | Zmq_msg_send "nat option" bytes
  | Zmq_msg_recv "nat option"
  | Zmq_msg_close
  | Zmq_setsockopt "nat option" int zmq_value
  | Zmq_getsockopt "nat option" int

text \<open>Memory libuv hands out: a socket address, and the request struct of a file operation.\<close>

record sockaddr =
  sa_family :: int
  sa_host :: bytes \<comment> \<open>the text \<open>uv_ip4_name\<close>, \<open>uv_ip6_name\<close> or \<open>uv_inet_ntop\<close> writes\<close>
  sa_port :: "16 word" \<comment> \<open>in network byte order\<close>

record fstat =
  st_dev :: int
  st_ino :: int
  st_mode :: u32
  st_nlink :: int
  st_uid :: int
  st_gid :: int
  st_rdev :: int
  st_size :: int
  st_atime :: int
  st_mtime :: int
  st_ctime :: int

datatype fs_type =
    UV_FS_UNKNOWN | UV_FS_CUSTOM | UV_FS_OPEN | UV_FS_CLOSE | UV_FS_READ | UV_FS_WRITE | UV_FS_SENDFILE
  | UV_FS_STAT | UV_FS_LSTAT | UV_FS_FSTAT | UV_FS_FTRUNCATE | UV_FS_UTIME | UV_FS_FUTIME | UV_FS_CHMOD
  | UV_FS_FCHMOD | UV_FS_FSYNC | UV_FS_FDATASYNC | UV_FS_UNLINK | UV_FS_RMDIR | UV_FS_MKDIR | UV_FS_RENAME
  | UV_FS_READDIR | UV_FS_LINK | UV_FS_SYMLINK | UV_FS_READLINK | UV_FS_CHOWN | UV_FS_FCHOWN

record fs_req =
  fr_type :: fs_type
  fr_result :: int
  fr_errorno :: int
  fr_data :: bytes \<comment> \<open>the buffer a read filled\<close>
  fr_ptr :: bytes \<comment> \<open>the memory \<open>ptr\<close> points to, for \<open>readlink\<close> and \<open>readdir\<close>\<close>
  fr_stat :: fstat \<comment> \<open>the same for the \<open>stat\<close> family\<close>

text \<open>System information.\<close>

record cpu_info =
  cpu_model :: bytes
  cpu_speed :: int
  cpu_times :: "u64 \<times> u64 \<times> u64 \<times> u64 \<times> u64" \<comment> \<open>user, nice, sys, idle, irq\<close>

record interface_address =
  if_name :: bytes
  if_internal :: bool
  if_addr :: sockaddr

record 'x sys =
  sys_call :: "uv_fn \<Rightarrow> 'x \<Rightarrow> int \<times> 'x"
  sys_last_error :: "loop \<Rightarrow> 'x \<Rightarrow> int"
  sys_UV_EOF :: int
  sys_strerror :: "int \<Rightarrow> bytes"
  sys_handle_loop :: "oid \<Rightarrow> 'x \<Rightarrow> loop"
  sys_fs_req :: "sid \<Rightarrow> 'x \<Rightarrow> fs_req"
  sys_path :: "'x \<Rightarrow> bytes" \<comment> \<open>what \<open>uv_cwd\<close> or \<open>uv_exepath\<close> wrote\<close>
  sys_sockaddr :: "'x \<Rightarrow> sockaddr" \<comment> \<open>what \<open>uv_tcp_getsockname\<close> or \<open>getpeername\<close> wrote\<close>
  sys_tointeger :: "lua_value \<Rightarrow> int option" \<comment> \<open>the integer of a number or a numeral\<close>
  sys_tonumber :: "lua_value \<Rightarrow> u64 option"
  sys_numtext :: "u64 \<Rightarrow> bytes" \<comment> \<open>the text of a number\<close>
  sys_objlen :: "entries \<Rightarrow> nat" \<comment> \<open>\<open>lua_objlen\<close> of a table\<close>
  sys_errno :: "'x \<Rightarrow> int"
  sys_EAGAIN :: int
  sys_EWOULDBLOCK :: int
  sys_errtext :: "int \<Rightarrow> bytes" \<comment> \<open>\<open>strerror\<close>\<close>
  sys_zmq_errtext :: "int \<Rightarrow> bytes" \<comment> \<open>\<open>zmq_strerror\<close>\<close>
  sys_zmq_message :: "'x \<Rightarrow> bytes" \<comment> \<open>what \<open>zmq_msg_recv\<close> received\<close>
  sys_zmq_option :: "'x \<Rightarrow> bytes" \<comment> \<open>what \<open>zmq_getsockopt\<close> wrote, as a string\<close>
  sys_zmq_number :: "'x \<Rightarrow> int" \<comment> \<open>the same as a number\<close>
  sys_usable :: "nat \<Rightarrow> nat" \<comment> \<open>the bytes usable in a block allocated for so many bytes\<close>
  sys_address :: "ptr option \<Rightarrow> bytes" \<comment> \<open>a pointer as \<open>%p\<close> prints it\<close>
  sys_light :: "sid \<Rightarrow> u64" \<comment> \<open>a pointer to a state as a light userdata\<close>
  sys_free_memory :: "'x \<Rightarrow> u64"
  sys_total_memory :: "'x \<Rightarrow> u64"
  sys_hrtime :: "'x \<Rightarrow> u64"
  sys_cpu_info :: "'x \<Rightarrow> int + cpu_info list" \<comment> \<open>an error code or the information\<close>
  sys_interfaces :: "'x \<Rightarrow> int + interface_address list"

definition uv :: "'x sys \<Rightarrow> uv_fn \<Rightarrow> ('x, int) luv" where
  "uv sys c w = (let (rv, x) = sys_call sys c (w_ext w) in Done rv (w\<lparr>w_ext := x\<rparr>))"

text \<open>\<open>uv_strerror(uv_last_error(loop))\<close>.\<close>

definition uv_error :: "'x sys \<Rightarrow> loop \<Rightarrow> 'x world \<Rightarrow> bytes" where
  "uv_error sys l w = sys_strerror sys (sys_last_error sys l (w_ext w))"

definition luvL_event_loop :: "lid \<Rightarrow> ('x, loop) luv" where
  "luvL_event_loop L w = bindR (deref (luvL_state_self L w) w) (\<lambda>s w. Done (st_loop (w_state w s)) w)"

section \<open>Pushing and checking values\<close>

definition lua_pushinteger :: "lid \<Rightarrow> int \<Rightarrow> 'x world \<Rightarrow> 'x world" where
  "lua_pushinteger L n = lua_push L (LNum (lua_number_of_int n))"

definition lua_pushboolean :: "lid \<Rightarrow> bool \<Rightarrow> 'x world \<Rightarrow> 'x world" where
  "lua_pushboolean L b = lua_push L (LBool b)"

definition lua_pushnil :: "lid \<Rightarrow> 'x world \<Rightarrow> 'x world" where
  "lua_pushnil L = lua_push L LNil"

definition lua_pushlstring :: "lid \<Rightarrow> bytes \<Rightarrow> 'x world \<Rightarrow> 'x world" where
  "lua_pushlstring L s = lua_push L (LStr s)"

text \<open>A C string ends before its first zero byte.\<close>

definition c_string :: "bytes \<Rightarrow> bytes" where
  "c_string s = takeWhile (\<lambda>b. b \<noteq> 0) s"

definition lua_pushstring :: "lid \<Rightarrow> bytes \<Rightarrow> 'x world \<Rightarrow> 'x world" where
  "lua_pushstring L s = lua_push L (LStr (c_string s))"

text \<open>C's conversion to a 32-bit \<open>int\<close>.\<close>

definition c_int :: "int \<Rightarrow> int" where
  "c_int n = sint (word_of_int n :: u32)"

text \<open>The same to a 64-bit \<open>size_t\<close>.\<close>

definition c_size :: "int \<Rightarrow> int" where
  "c_size n = n mod 2 ^ 64"

definition luaL_checktype :: "lid \<Rightarrow> nat \<Rightarrow> u8 \<Rightarrow> string \<Rightarrow> ('x, unit) luv" where
  "luaL_checktype L i t name w = (case lua_arg L i w of
       Some v \<Rightarrow> if lua_type v = t then Done () w else Raise (lua_msg (name @ '' expected'')) w
     | None \<Rightarrow> Raise (lua_msg (name @ '' expected'')) w)"

definition luaL_checkinteger :: "'x sys \<Rightarrow> lid \<Rightarrow> nat \<Rightarrow> ('x, int) luv" where
  "luaL_checkinteger sys L i w = (case Option.bind (lua_arg L i w) (sys_tointeger sys) of
       Some n \<Rightarrow> Done n w
     | None \<Rightarrow> Raise (lua_msg ''number expected'') w)"

definition luaL_checkint :: "'x sys \<Rightarrow> lid \<Rightarrow> nat \<Rightarrow> ('x, int) luv" where
  "luaL_checkint sys L i w = bindR (luaL_checkinteger sys L i w) (\<lambda>n w. Done (c_int n) w)"

definition luaL_optinteger :: "'x sys \<Rightarrow> lid \<Rightarrow> nat \<Rightarrow> int \<Rightarrow> ('x, int) luv" where
  "luaL_optinteger sys L i d w = (if lua_isnoneornil L i w then Done d w else luaL_checkinteger sys L i w)"

definition luaL_optint :: "'x sys \<Rightarrow> lid \<Rightarrow> nat \<Rightarrow> int \<Rightarrow> ('x, int) luv" where
  "luaL_optint sys L i d w = bindR (luaL_optinteger sys L i d w) (\<lambda>n w. Done (c_int n) w)"

definition luaL_checknumber :: "'x sys \<Rightarrow> lid \<Rightarrow> nat \<Rightarrow> ('x, u64) luv" where
  "luaL_checknumber sys L i w = (case Option.bind (lua_arg L i w) (sys_tonumber sys) of
       Some n \<Rightarrow> Done n w
     | None \<Rightarrow> Raise (lua_msg ''number expected'') w)"

definition lua_text :: "'x sys \<Rightarrow> lua_value \<Rightarrow> bytes option" where
  "lua_text sys v = (case v of LStr s \<Rightarrow> Some s | LNum n \<Rightarrow> Some (sys_numtext sys n) | _ \<Rightarrow> None)"

definition luaL_checklstring :: "'x sys \<Rightarrow> lid \<Rightarrow> nat \<Rightarrow> ('x, bytes) luv" where
  "luaL_checklstring sys L i w = (case Option.bind (lua_arg L i w) (lua_text sys) of
       Some s \<Rightarrow> Done s w
     | None \<Rightarrow> Raise (lua_msg ''string expected'') w)"

definition luaL_checkstring :: "'x sys \<Rightarrow> lid \<Rightarrow> nat \<Rightarrow> ('x, bytes) luv" where
  "luaL_checkstring sys L i w = bindR (luaL_checklstring sys L i w) (\<lambda>s w. Done (c_string s) w)"

definition lua_toboolean :: "lid \<Rightarrow> nat \<Rightarrow> 'x world \<Rightarrow> bool" where
  "lua_toboolean L i w = (case lua_arg L i w of None \<Rightarrow> False | Some LNil \<Rightarrow> False | Some (LBool b) \<Rightarrow> b | _ \<Rightarrow> True)"

text \<open>An object argument whose metatable is checked.\<close>

definition check_object :: "lid \<Rightarrow> nat \<Rightarrow> string \<Rightarrow> ('x, oid) luv" where
  "check_object L i tname w = bindR (luaL_checkudata L i tname w) (\<lambda>p w. as_object (Some p) w)"

text \<open>
  \<open>lua_newuserdata(L, sizeof(luv_object_t))\<close> with \<open>luaL_getmetatable\<close> and \<open>lua_setmetatable\<close>: the
  members and the queue links of the new object are not initialised.
\<close>

definition new_object :: "lid \<Rightarrow> string \<Rightarrow> 'x world \<Rightarrow> oid \<times> 'x world" where
  "new_object L meta w =
     (let ob = w_nobject w;
          (u, w) = new_udata (metatable meta) (PObject ob) (w\<lparr>w_nobject := Suc ob\<rparr>)
      in (ob, lua_push L u w))"

section \<open>Frames\<close>

lemma uv_Done: "uv sys c w = Done (fst (sys_call sys c (w_ext w))) (w\<lparr>w_ext := snd (sys_call sys c (w_ext w))\<rparr>)"
  by (simp add: uv_def split: prod.splits)

lemma lua_push_sel [simp]:
  "w_stack (lua_push L v w) = (w_stack w)(L := w_stack w L @ [v])"
  "w_state (lua_push L v w) = w_state w" "w_nstate (lua_push L v w) = w_nstate w"
  "w_object (lua_push L v w) = w_object w" "w_nobject (lua_push L v w) = w_nobject w"
  "w_ncond (lua_push L v w) = w_ncond w" "w_queue (lua_push L v w) = w_queue w"
  "w_yield (lua_push L v w) = w_yield w" "w_nlua (lua_push L v w) = w_nlua w"
  "w_registry (lua_push L v w) = w_registry w" "w_udata (lua_push L v w) = w_udata w"
  "w_nudata (lua_push L v w) = w_nudata w" "w_ext (lua_push L v w) = w_ext w" "w_heap (lua_push L v w) = w_heap w" "w_names (lua_push L v w) = w_names w" "w_main (lua_push L v w) = w_main w"
  by (simp_all add: lua_push_def)

lemma lua_settop_sel [simp]:
  "w_stack (lua_settop L n w) = (w_stack w)(L := adjust n (w_stack w L))"
  "w_state (lua_settop L n w) = w_state w" "w_nstate (lua_settop L n w) = w_nstate w"
  "w_object (lua_settop L n w) = w_object w" "w_nobject (lua_settop L n w) = w_nobject w"
  "w_ncond (lua_settop L n w) = w_ncond w" "w_queue (lua_settop L n w) = w_queue w"
  "w_yield (lua_settop L n w) = w_yield w" "w_nlua (lua_settop L n w) = w_nlua w"
  "w_registry (lua_settop L n w) = w_registry w" "w_udata (lua_settop L n w) = w_udata w"
  "w_nudata (lua_settop L n w) = w_nudata w" "w_ext (lua_settop L n w) = w_ext w" "w_heap (lua_settop L n w) = w_heap w" "w_names (lua_settop L n w) = w_names w" "w_main (lua_settop L n w) = w_main w"
  by (simp_all add: lua_settop_def)

lemmas lua_push_defs = lua_pushinteger_def lua_pushboolean_def lua_pushnil_def lua_pushlstring_def lua_pushstring_def

lemma c_int_id: "- (2 ^ 31) \<le> n \<Longrightarrow> n < 2 ^ 31 \<Longrightarrow> c_int n = n"
  by (simp add: c_int_def sint_sbintrunc' signed_take_bit_int_eq_self)

lemma adjust_0 [simp]: "adjust 0 vs = []"
  by (simp add: adjust_def)

end
