(* ===== verification/Luv_Object.thy ===== *)
theory Luv_Object
  imports Luv_Uv
begin

text \<open>
  Objects (\<open>src/src/luv_object.c\<close>), timers (\<open>src/src/luv_timer.c\<close>), idle handles
  (\<open>src/src/luv_idle.c\<close>) and \<open>luv.sleep\<close> (\<open>src/src/luv.c\<close>).  States that wait for a handle are in the
  queue \<open>rouse\<close> of its object; the callback of the handle puts its results on their stacks and wakes
  them.
\<close>

section \<open>Objects\<close>

definition set_oflag :: "u32 \<Rightarrow> oid \<Rightarrow> 'x world \<Rightarrow> 'x world" where
  "set_oflag f ob = upd_object ob (\<lambda>r. r\<lparr>o_flags := set_flag f (o_flags r)\<rparr>)"

definition clear_oflag :: "u32 \<Rightarrow> oid \<Rightarrow> 'x world \<Rightarrow> 'x world" where
  "clear_oflag f ob = upd_object ob (\<lambda>r. r\<lparr>o_flags := clear_flag f (o_flags r)\<rparr>)"

definition luvL_object_init :: "sid \<Rightarrow> oid \<Rightarrow> 'x world \<Rightarrow> 'x world" where
  "luvL_object_init s self w =
     (let w = upd_queue (ngx_queue_init (ORouse self)) w;
          w = upd_queue (ngx_queue_init (OQueue self)) w
      in upd_object self (\<lambda>r. r\<lparr>o_state := Some s, o_data := None, o_flags := 0, o_count := 0,
           o_base := None, o_len := 0\<rparr>) w)"

definition luvL_object_close_cb :: "oid \<Rightarrow> ('x, unit) luv" where
  "luvL_object_close_cb self w =
     (let w = set_oflag LUV_OCLOSED self w;
          w = upd_object self (\<lambda>r. r\<lparr>o_state := None\<rparr>) w
      in bindR (luvL_cond_signal (ORouse self) w) (\<lambda>_ w. Done () w))"

definition luvL_object_close :: "'x sys \<Rightarrow> oid \<Rightarrow> ('x, unit) luv" where
  "luvL_object_close sys self w =
     (if \<not> luvL_object_is_closing (w_object w self)
      then bindR (uv sys (Uv_close self) (set_oflag LUV_OCLOSING self w)) (\<lambda>_ w. Done () w)
      else Done () w)"

text \<open>\<open>ngx_queue_foreach(q, &self->rouse)\<close> with a body that works on the waiting state.\<close>

fun visit :: "(sid \<Rightarrow> ('x, unit) luv) \<Rightarrow> qnode list \<Rightarrow> ('x, unit) luv" where
  "visit f [] w = Done () w"
| "visit f (q # qs) w =
     bindR (queue_data of_cond q w) (\<lambda>s w. bindR (f s w) (\<lambda>_ w. visit f qs w))"

definition foreach_waiting :: "qnode \<Rightarrow> (sid \<Rightarrow> ('x, unit) luv) \<Rightarrow> ('x, unit) luv" where
  "foreach_waiting h f w = (case ngx_queue_foreach h (w_queue w) of
       None \<Rightarrow> Fail No_Return
     | Some qs \<Rightarrow> visit f qs w)"

section \<open>Timers\<close>

text \<open>\<open>lua_settop(s->L, 0)\<close> and \<open>lua_pushinteger(s->L, status)\<close>.\<close>

definition give_status :: "int \<Rightarrow> sid \<Rightarrow> ('x, unit) luv" where
  "give_status status s w =
     (let L = st_L (w_state w s) in Done () (lua_pushinteger L status (lua_settop L 0 w)))"

definition timer_cb :: "oid \<Rightarrow> int \<Rightarrow> ('x, unit) luv" where
  "timer_cb self status w =
     bindR (foreach_waiting (ORouse self) (give_status status) w) (\<lambda>_ w.
     bindR (luvL_cond_broadcast (ORouse self) w) (\<lambda>_ w. Done () w))"

definition luv_new_timer :: "'x sys \<Rightarrow> lid \<Rightarrow> ('x, int) luv" where
  "luv_new_timer sys L w =
     (let (self, w) = new_object L LUV_TIMER_T w; cur = luvL_state_self L w
      in bindR (luvL_event_loop L w) (\<lambda>loop w.
         bindR (uv sys (Uv_timer_init loop self) w) (\<lambda>_ w.
         bindR (deref cur w) (\<lambda>cur w. Done 1 (luvL_object_init cur self w)))))"

definition luv_timer_start :: "'x sys \<Rightarrow> lid \<Rightarrow> ('x, int) luv" where
  "luv_timer_start sys L w =
     bindR (check_object L 1 LUV_TIMER_T w) (\<lambda>self w.
     bindR (luaL_optinteger sys L 2 0 w) (\<lambda>timeout w.
     bindR (luaL_optinteger sys L 3 0 w) (\<lambda>repeat w.
     bindR (uv sys (Uv_timer_start self timeout repeat) w) (\<lambda>rv w.
       Done 1 (lua_pushinteger L rv w)))))"

definition luv_timer_again :: "'x sys \<Rightarrow> lid \<Rightarrow> ('x, int) luv" where
  "luv_timer_again sys L w =
     bindR (check_object L 1 LUV_TIMER_T w) (\<lambda>self w.
     bindR (uv sys (Uv_timer_again self) w) (\<lambda>rv w. Done 1 (lua_pushinteger L rv w)))"

definition luv_timer_stop :: "'x sys \<Rightarrow> lid \<Rightarrow> ('x, int) luv" where
  "luv_timer_stop sys L w =
     bindR (check_object L 1 LUV_TIMER_T w) (\<lambda>self w.
     bindR (uv sys (Uv_timer_stop self) w) (\<lambda>rv w. Done 1 (lua_pushinteger L rv w)))"

definition luv_timer_wait :: "'x vm \<Rightarrow> lid \<Rightarrow> ('x, int) luv" where
  "luv_timer_wait vm L w =
     bindR (check_object L 1 LUV_TIMER_T w) (\<lambda>self w.
     bindR (deref (luvL_state_self L w) w) (\<lambda>s w. luvL_cond_wait vm (ORouse self) s w))"

definition luv_timer_free :: "'x sys \<Rightarrow> lid \<Rightarrow> ('x, int) luv" where
  "luv_timer_free sys L w =
     bindR (as_object (lua_touserdata L 1 w) w) (\<lambda>self w.
     bindR (luvL_object_close sys self w) (\<lambda>_ w. Done 1 w))"

section \<open>Idle handles\<close>

definition idle_cb :: "oid \<Rightarrow> int \<Rightarrow> ('x, unit) luv" where
  "idle_cb self status w =
     bindR (foreach_waiting (ORouse self) (give_status status) w) (\<lambda>_ w.
     bindR (luvL_cond_broadcast (ORouse self) w) (\<lambda>_ w. Done () w))"

definition luv_new_idle :: "'x sys \<Rightarrow> lid \<Rightarrow> ('x, int) luv" where
  "luv_new_idle sys L w =
     (let (self, w) = new_object L LUV_IDLE_T w; cur = luvL_state_self L w
      in bindR (luvL_event_loop L w) (\<lambda>loop w.
         bindR (uv sys (Uv_idle_init loop self) w) (\<lambda>_ w.
         bindR (deref cur w) (\<lambda>cur w. Done 1 (luvL_object_init cur self w)))))"

definition luv_idle_start :: "'x sys \<Rightarrow> lid \<Rightarrow> ('x, int) luv" where
  "luv_idle_start sys L w =
     bindR (check_object L 1 LUV_IDLE_T w) (\<lambda>self w.
     bindR (uv sys (Uv_idle_start self) w) (\<lambda>rv w. Done 1 (lua_pushinteger L rv w)))"

definition luv_idle_stop :: "'x sys \<Rightarrow> lid \<Rightarrow> ('x, int) luv" where
  "luv_idle_stop sys L w =
     bindR (check_object L 1 LUV_IDLE_T w) (\<lambda>self w.
     bindR (uv sys (Uv_idle_stop self) w) (\<lambda>rv w. Done 1 (lua_pushinteger L rv w)))"

definition luv_idle_wait :: "'x vm \<Rightarrow> lid \<Rightarrow> ('x, int) luv" where
  "luv_idle_wait vm L w =
     bindR (check_object L 1 LUV_IDLE_T w) (\<lambda>self w.
     bindR (deref (luvL_state_self L w) w) (\<lambda>s w. luvL_cond_wait vm (ORouse self) s w))"

definition luv_idle_free :: "'x sys \<Rightarrow> lid \<Rightarrow> ('x, int) luv" where
  "luv_idle_free sys L w =
     bindR (as_object (lua_touserdata L 1 w) w) (\<lambda>self w.
     bindR (luvL_object_close sys self w) (\<lambda>_ w. Done 1 w))"

section \<open>Sleeping\<close>

text \<open>
  \<open>(long)(timeout * 1000)\<close> on a double: the product is rounded to 53 bits, half to even, and
  truncated; \<open>None\<close> where the conversion is undefined.
\<close>

definition double_exponent :: "u64 \<Rightarrow> nat" where
  "double_exponent t = unat (drop_bit 52 t AND 0x7ff)"

definition double_mantissa :: "u64 \<Rightarrow> nat" where
  "double_mantissa t = (if double_exponent t = 0 then 0 else 2 ^ 52) + unat (take_bit 52 t)"

definition sleep_millis :: "u64 \<Rightarrow> int option" where
  "sleep_millis t =
     (let p = double_mantissa t * 1000; k = ilog2 p - 52;
          e = (if double_exponent t = 0 then - 1074 else int (double_exponent t) - 1075) + int k;
          q = round_shift p k;
          n = (if e \<ge> 0 then q * 2 ^ nat e else q div 2 ^ nat (- e)); neg = bit t 63
      in if double_exponent t = 0x7ff \<or> n > 2 ^ 63 \<or> n = 2 ^ 63 \<and> \<not> neg then None
         else Some (if neg then - int n else int n))"

definition sleep_cb :: "sid \<Rightarrow> ('x, unit) luv" where
  "sleep_cb s w = luvL_state_ready s w"

definition luv_sleep :: "'x vm \<Rightarrow> 'x sys \<Rightarrow> lid \<Rightarrow> ('x, int) luv" where
  "luv_sleep vm sys L w =
     bindR (luaL_checknumber sys L 1 w) (\<lambda>timeout w.
     let state = luvL_state_self L w
     in bindR (luvL_event_loop L w) (\<lambda>loop w.
        bindR (deref state w) (\<lambda>state w.
        bindR (uv sys (Uv_sleep_init loop state) w) (\<lambda>_ w.
          case sleep_millis timeout of
            None \<Rightarrow> Fail Bad_Conversion
          | Some ms \<Rightarrow> bindR (uv sys (Uv_sleep_start state ms 0) w) (\<lambda>_ w. luvL_state_suspend vm state w)))))"

end
