(* ===== verification/Luv_Stream.thy ===== *)
theory Luv_Stream
  imports Luv_Object
begin

text \<open>
  Streams (\<open>src/src/luv_stream.c\<close>), which TCP sockets and pipes share, and pipes
  (\<open>src/src/luv_pipe.c\<close>).  Data that arrives while a state reads goes to the first of the reading
  states; otherwise it is kept in \<open>buf\<close> and reading stops.  Connections that arrive while no state
  accepts are counted.
\<close>

section \<open>Memory\<close>

text \<open>A \<open>uv_buf_t\<close>: the memory its \<open>base\<close> points to and its \<open>len\<close>.\<close>

type_synonym uv_buf = "bytes option \<times> int"

text \<open>Reading \<open>len\<close> bytes from \<open>base\<close>, as \<open>lua_pushlstring\<close> does.\<close>

definition read_mem :: "bytes option \<Rightarrow> int \<Rightarrow> ('x, bytes) luv" where
  "read_mem base len w =
     (if len = 0 then Done [] w
      else case base of
             None \<Rightarrow> Fail Null_Deref
           | Some bs \<Rightarrow> if 0 \<le> len \<and> len \<le> int (length bs) then Done (take (nat len) bs) w else Fail Out_Of_Bounds)"

definition luvL_alloc_cb :: "oid \<Rightarrow> 'x world \<Rightarrow> uv_buf" where
  "luvL_alloc_cb self w =
     (let len = o_len (w_object w self) in (Some (replicate (nat len) 0), len))"

definition free_base :: "oid \<Rightarrow> 'x world \<Rightarrow> 'x world" where
  "free_base self w =
     (if o_base (w_object w self) \<noteq> None then upd_object self (\<lambda>r. r\<lparr>o_base := None, o_len := 0\<rparr>) w else w)"

section \<open>Starting and stopping\<close>

definition luvL_stream_start :: "'x sys \<Rightarrow> oid \<Rightarrow> ('x, int) luv" where
  "luvL_stream_start sys self w =
     (if \<not> luvL_object_is_started (w_object w self)
      then uv sys (Uv_read_start self) (set_oflag LUV_OSTARTED self w)
      else Done 0 w)"

definition luvL_stream_stop :: "'x sys \<Rightarrow> oid \<Rightarrow> ('x, int) luv" where
  "luvL_stream_stop sys self w =
     (if luvL_object_is_started (w_object w self)
      then uv sys (Uv_read_stop self) (clear_oflag LUV_OSTARTED self w)
      else Done 0 w)"

section \<open>Callbacks\<close>

definition luvL_connect_cb :: "sid \<Rightarrow> int \<Rightarrow> ('x, unit) luv" where
  "luvL_connect_cb state status w = luvL_state_ready state w"

text \<open>What the reading state finds on its stack.\<close>

definition read_result :: "'x sys \<Rightarrow> oid \<Rightarrow> sid \<Rightarrow> int \<Rightarrow> uv_buf \<Rightarrow> ('x, unit) luv" where
  "read_result sys self s len buf w =
     (let L = st_L (w_state w s); w = lua_settop L 0 w
      in if len \<ge> 0 then
           let w = lua_pushinteger L len w
           in bindR (read_mem (fst buf) len w) (\<lambda>bs w.
              let w = lua_pushlstring L bs w
              in if len = 0 then bindR (luvL_stream_stop sys self w) (\<lambda>_ w. Done () w) else Done () w)
         else
           let err = sys_last_error sys (st_loop (w_state w s)) (w_ext w)
           in if err = sys_UV_EOF sys then Done () (lua_pushnil L (lua_settop L 0 w))
              else
                let w = lua_pushboolean L False (lua_settop L 0 w);
                    w = lua_pushstring L (str ''read: '' @ sys_strerror sys err) w
                in bindR (luvL_stream_stop sys self w) (\<lambda>_ w. luvL_object_close sys self w))"

definition read_cb :: "'x sys \<Rightarrow> oid \<Rightarrow> int \<Rightarrow> uv_buf \<Rightarrow> ('x, unit) luv" where
  "read_cb sys self len buf w =
     (if is_empty (ORouse self) w then
        bindR (luvL_stream_stop sys self w) (\<lambda>_ w.
          if len \<ge> 0
          then Done () (upd_object self (\<lambda>r. r\<lparr>o_base := fst buf, o_len := snd buf, o_count := c_int len\<rparr>) w)
          else Done () w)
      else
        let q = ngx_queue_head (ORouse self) (w_queue w)
        in bindR (queue_data of_cond q w) (\<lambda>s w.
           bindR (read_result sys self s len buf (upd_queue (ngx_queue_remove q) w)) (\<lambda>_ w.
             luvL_state_ready s w)))"

definition write_cb :: "sid \<Rightarrow> int \<Rightarrow> ('x, unit) luv" where
  "write_cb rouse status w = bindR (give_status status rouse w) (\<lambda>_ w. luvL_state_ready rouse w)"

definition shutdown_cb :: "oid \<Rightarrow> sid \<Rightarrow> int \<Rightarrow> ('x, unit) luv" where
  "shutdown_cb self state status w =
     bindR (give_status status state w) (\<lambda>_ w.
     bindR (luvL_cond_signal (ORouse self) w) (\<lambda>_ w. Done () w))"

text \<open>\<open>lua_settop(L, 0)\<close>, \<open>lua_pushnil(L)\<close> and the text of the last error of a loop.\<close>

definition push_nil_error :: "'x sys \<Rightarrow> lid \<Rightarrow> loop \<Rightarrow> 'x world \<Rightarrow> 'x world" where
  "push_nil_error sys L l w = lua_pushstring L (uv_error sys l w) (lua_pushnil L (lua_settop L 0 w))"

definition listen_cb :: "'x sys \<Rightarrow> oid \<Rightarrow> int \<Rightarrow> ('x, unit) luv" where
  "listen_cb sys self status w =
     (if luvL_object_is_waiting (w_object w self) then
        bindR (queue_data of_cond (ngx_queue_head (ORouse self) (w_queue w)) w) (\<lambda>s w.
        let L = st_L (w_state w s)
        in bindR (luaL_checktype L 2 LUA_TUSERDATA ''userdata'' w) (\<lambda>_ w.
           bindR (as_object (lua_touserdata L 2 w) w) (\<lambda>conn w.
           bindR (uv sys (Uv_accept self conn) (luvL_object_init s conn w)) (\<lambda>rv w.
             let w = (if rv \<noteq> 0 then push_nil_error sys L (sys_handle_loop sys self (w_ext w)) w else w);
                 w = clear_oflag LUV_OWAITING self w
             in bindR (luvL_cond_signal (ORouse self) w) (\<lambda>_ w. Done () w)))))
      else Done () (upd_object self (\<lambda>r. r\<lparr>o_count := c_int (o_count r + 1)\<rparr>) w))"

section \<open>Methods\<close>

definition luv_stream_listen :: "'x sys \<Rightarrow> lid \<Rightarrow> ('x, int) luv" where
  "luv_stream_listen sys L w =
     bindR (luaL_checktype L 1 LUA_TUSERDATA ''userdata'' w) (\<lambda>_ w.
     let p = lua_touserdata L 1 w
     in bindR (luaL_optinteger sys L 2 128 w) (\<lambda>backlog w.
        bindR (as_object p w) (\<lambda>self w.
        bindR (uv sys (Uv_listen self (c_int backlog)) w) (\<lambda>rv w.
          if rv \<noteq> 0
          then Raise (LStr (str ''listen: '' @ uv_error sys (sys_handle_loop sys self (w_ext w)) w)) w
          else Done 0 w))))"

definition luv_stream_accept :: "'x vm \<Rightarrow> 'x sys \<Rightarrow> lid \<Rightarrow> ('x, int) luv" where
  "luv_stream_accept vm sys L w =
     bindR (luaL_checktype L 1 LUA_TUSERDATA ''userdata'' w) (\<lambda>_ w.
     bindR (as_object (lua_touserdata L 1 w) w) (\<lambda>self w.
     let conn = lua_touserdata L 2 w; cur = luvL_state_self L w
     in if o_count (w_object w self) \<noteq> 0 then
          let w = upd_object self (\<lambda>r. r\<lparr>o_count := c_int (o_count r - 1)\<rparr>) w
          in bindR (as_object conn w) (\<lambda>conn w.
             bindR (uv sys (Uv_accept self conn) w) (\<lambda>rv w.
               if rv \<noteq> 0
               then Done 2 (push_nil_error sys L (sys_handle_loop sys self (w_ext w)) w)
               else Done 1 w))
        else
          let w = set_oflag LUV_OWAITING self w
          in bindR (deref cur w) (\<lambda>cur w. luvL_cond_wait vm (ORouse self) cur w)))"

definition STREAM_ERROR :: "'x sys \<Rightarrow> lid \<Rightarrow> string \<Rightarrow> loop \<Rightarrow> 'x world \<Rightarrow> 'x world" where
  "STREAM_ERROR sys L fmt l w =
     (let err = uv_error sys l w; w = lua_settop L 0 w; w = lua_pushboolean L False w
      in lua_pushstring L (str fmt @ err) w)"

definition luv_stream_start :: "'x sys \<Rightarrow> lid \<Rightarrow> ('x, int) luv" where
  "luv_stream_start sys L w =
     bindR (as_object (lua_touserdata L 1 w) w) (\<lambda>self w.
     bindR (luvL_stream_start sys self w) (\<lambda>rv w.
       if rv \<noteq> 0
       then bindR (luvL_stream_stop sys self w) (\<lambda>_ w.
            bindR (luvL_object_close sys self w) (\<lambda>_ w.
            bindR (luvL_event_loop L w) (\<lambda>loop w. Done 2 (STREAM_ERROR sys L ''read start: '' loop w))))
       else Done 1 (lua_pushboolean L True w)))"

definition luv_stream_stop :: "'x sys \<Rightarrow> lid \<Rightarrow> ('x, int) luv" where
  "luv_stream_stop sys L w =
     bindR (as_object (lua_touserdata L 1 w) w) (\<lambda>self w.
     bindR (luvL_stream_stop sys self w) (\<lambda>rv w.
       if rv \<noteq> 0
       then bindR (luvL_event_loop L w) (\<lambda>loop w. Done 2 (STREAM_ERROR sys L ''read stop: '' loop w))
       else Done 1 (lua_pushboolean L True w)))"

definition luv_stream_read :: "'x vm \<Rightarrow> 'x sys \<Rightarrow> lid \<Rightarrow> ('x, int) luv" where
  "luv_stream_read vm sys L w =
     (let p = lua_touserdata L 1 w; cur = luvL_state_self L w
      in bindR (luaL_optinteger sys L 2 4096 w) (\<lambda>len w.
         bindR (as_object p w) (\<lambda>self w.
           let ob = w_object w self
           in if luvL_object_is_closing ob
              then Done 2 (lua_pushstring L (str ''attempt to read from a closed stream'') (lua_pushnil L w))
              else if o_base ob \<noteq> None then
                let w = lua_pushinteger L (o_count ob) w
                in bindR (read_mem (o_base ob) (o_count ob) w) (\<lambda>bs w.
                     let w = lua_pushlstring L bs w
                     in Done 2 (upd_object self (\<lambda>r. r\<lparr>o_base := None, o_len := 0, o_count := 0\<rparr>) w))
              else
                let w = upd_object self (\<lambda>r. r\<lparr>o_len := c_int len\<rparr>) w
                in bindR (if \<not> luvL_object_is_started (w_object w self)
                          then bindR (luvL_stream_start sys self w) (\<lambda>_ w. Done () w) else Done () w) (\<lambda>_ w.
                   bindR (deref cur w) (\<lambda>cur w. luvL_cond_wait vm (ORouse self) cur w)))))"

definition luv_stream_write :: "'x vm \<Rightarrow> 'x sys \<Rightarrow> lid \<Rightarrow> ('x, int) luv" where
  "luv_stream_write vm sys L w =
     (let p = lua_touserdata L 1 w
      in bindR (luaL_checklstring sys L 2 w) (\<lambda>chunk w.
         bindR (deref (luvL_state_self L w) w) (\<lambda>cur w.
         bindR (as_object p w) (\<lambda>self w.
         bindR (uv sys (Uv_write cur self chunk) w) (\<lambda>rv w.
           if rv \<noteq> 0
           then bindR (luvL_stream_stop sys self w) (\<lambda>_ w.
                bindR (luvL_object_close sys self w) (\<lambda>_ w.
                bindR (luvL_event_loop L w) (\<lambda>loop w. Done 2 (STREAM_ERROR sys L ''write: '' loop w))))
           else luvL_state_suspend vm cur (lua_settop (st_L (w_state w cur)) 1 w))))))"

definition luv_stream_shutdown :: "'x vm \<Rightarrow> 'x sys \<Rightarrow> lid \<Rightarrow> ('x, int) luv" where
  "luv_stream_shutdown vm sys L w =
     bindR (as_object (lua_touserdata L 1 w) w) (\<lambda>self w.
       if \<not> luvL_object_is_shutdown (w_object w self)
       then let w = set_oflag LUV_OSHUTDOWN self w
            in bindR (deref (luvL_state_self L w) w) (\<lambda>cur w.
               bindR (uv sys (Uv_shutdown cur self) w) (\<lambda>_ w. luvL_cond_wait vm (ORouse self) cur w))
       else Done 1 w)"

definition luv_stream_readable :: "'x sys \<Rightarrow> lid \<Rightarrow> ('x, int) luv" where
  "luv_stream_readable sys L w =
     bindR (as_object (lua_touserdata L 1 w) w) (\<lambda>self w.
     bindR (uv sys (Uv_is_readable self) w) (\<lambda>rv w. Done 1 (lua_pushboolean L (rv \<noteq> 0) w)))"

definition luv_stream_writable :: "'x sys \<Rightarrow> lid \<Rightarrow> ('x, int) luv" where
  "luv_stream_writable sys L w =
     bindR (as_object (lua_touserdata L 1 w) w) (\<lambda>self w.
     bindR (uv sys (Uv_is_writable self) w) (\<lambda>rv w. Done 1 (lua_pushboolean L (rv \<noteq> 0) w)))"

definition luvL_stream_close :: "'x sys \<Rightarrow> oid \<Rightarrow> ('x, unit) luv" where
  "luvL_stream_close sys self w =
     bindR (if luvL_object_is_started (w_object w self)
            then bindR (luvL_stream_stop sys self w) (\<lambda>_ w. Done () w) else Done () w) (\<lambda>_ w.
     bindR (luvL_object_close sys self w) (\<lambda>_ w. Done () (free_base self w)))"

definition luv_stream_close :: "'x vm \<Rightarrow> 'x sys \<Rightarrow> lid \<Rightarrow> ('x, int) luv" where
  "luv_stream_close vm sys L w =
     bindR (as_object (lua_touserdata L 1 w) w) (\<lambda>self w.
     bindR (luvL_stream_close sys self w) (\<lambda>_ w.
     bindR (deref (luvL_state_self L w) w) (\<lambda>cur w. luvL_cond_wait vm (ORouse self) cur w)))"

definition luvL_stream_free :: "'x sys \<Rightarrow> oid \<Rightarrow> ('x, unit) luv" where
  "luvL_stream_free sys self w =
     bindR (luvL_object_close sys self w) (\<lambda>_ w. Done () (free_base self w))"

definition luv_stream_free :: "'x sys \<Rightarrow> lid \<Rightarrow> ('x, int) luv" where
  "luv_stream_free sys L w =
     bindR (as_object (lua_touserdata L 1 w) w) (\<lambda>self w.
     bindR (luvL_stream_free sys self w) (\<lambda>_ w. Done 1 w))"

section \<open>Pipes\<close>

text \<open>
  \<open>luv_new_pipe\<close> looks at index 2 after it has pushed the new userdata, and leaves the object
  uninitialised.
\<close>

definition luv_new_pipe :: "'x sys \<Rightarrow> lid \<Rightarrow> ('x, int) luv" where
  "luv_new_pipe sys L w =
     (let (self, w) = new_object L LUV_PIPE_T w
      in bindR (if \<not> lua_isnoneornil L 2 w
                then bindR (luaL_checktype L 2 LUA_TBOOLEAN ''boolean'' w) (\<lambda>_ w. Done (lua_toboolean L 2 w) w)
                else Done False w) (\<lambda>ipc w.
         bindR (luvL_event_loop L w) (\<lambda>loop w.
         bindR (uv sys (Uv_pipe_init loop self ipc) w) (\<lambda>_ w. Done 1 w))))"

definition lua_isuserdata :: "lid \<Rightarrow> nat \<Rightarrow> 'x world \<Rightarrow> bool" where
  "lua_isuserdata L i w = (case lua_arg L i w of Some (LUser _) \<Rightarrow> True | Some (LLight _) \<Rightarrow> True | _ \<Rightarrow> False)"

definition luv_pipe_open :: "'x sys \<Rightarrow> lid \<Rightarrow> ('x, int) luv" where
  "luv_pipe_open sys L w =
     bindR (check_object L 1 LUV_PIPE_T w) (\<lambda>self w.
     bindR (if lua_isuserdata L 2 w
            then bindR (check_object L 2 LUV_FILE_T w) (\<lambda>file w. Done (o_file (w_object w file)) w)
            else luaL_checkint sys L 2 w) (\<lambda>fh w.
     bindR (uv sys (Uv_pipe_open self fh) w) (\<lambda>_ w. Done 0 w)))"

definition luv_pipe_bind :: "'x sys \<Rightarrow> lid \<Rightarrow> ('x, int) luv" where
  "luv_pipe_bind sys L w =
     bindR (check_object L 1 LUV_PIPE_T w) (\<lambda>self w.
     bindR (luaL_checkstring sys L 2 w) (\<lambda>path w.
     bindR (uv sys (Uv_pipe_bind self path) w) (\<lambda>rv w.
       if rv \<noteq> 0 then Raise (LStr (uv_error sys (sys_handle_loop sys self (w_ext w)) w)) w
       else Done 0 w)))"

definition luv_pipe_connect :: "'x sys \<Rightarrow> lid \<Rightarrow> ('x, int) luv" where
  "luv_pipe_connect sys L w =
     bindR (check_object L 1 LUV_PIPE_T w) (\<lambda>self w.
     bindR (luaL_checkstring sys L 2 w) (\<lambda>path w.
     bindR (deref (luvL_state_self L w) w) (\<lambda>cur w.
     bindR (uv sys (Uv_pipe_connect cur self path) w) (\<lambda>_ w. Done 0 w))))"

end
