(* ===== verification/Luv_Fs.thy ===== *)
theory Luv_Fs
  imports Luv_Stream
begin

text \<open>
  File operations (\<open>src/src/luv_fs.c\<close>).  A call starts a libuv request.  The main thread makes it
  synchronously and pushes the result at once; a fiber suspends, and the callback pushes the result
  on the stack of the fiber and makes it ready.
\<close>

section \<open>Flags and modes\<close>

text \<open>Constants of the system headers (Linux).\<close>

definition O_RDONLY :: int where "O_RDONLY = 0"
definition O_WRONLY :: int where "O_WRONLY = 1"
definition O_RDWR :: int where "O_RDWR = 2"
definition O_CREAT :: int where "O_CREAT = 64"
definition O_TRUNC :: int where "O_TRUNC = 512"
definition O_APPEND :: int where "O_APPEND = 1024"

definition luv_string_to_flags :: "bytes \<Rightarrow> ('x, int) luv" where
  "luv_string_to_flags s w =
     (if s = str ''r'' then Done O_RDONLY w
      else if s = str ''r+'' then Done O_RDWR w
      else if s = str ''w'' then Done (O_CREAT OR O_TRUNC OR O_WRONLY) w
      else if s = str ''w+'' then Done (O_CREAT OR O_TRUNC OR O_RDWR) w
      else if s = str ''a'' then Done (O_APPEND OR O_CREAT OR O_WRONLY) w
      else if s = str ''a+'' then Done (O_APPEND OR O_CREAT OR O_RDWR) w
      else Raise (LStr (str ''Unknown file open flag: '' @ [39] @ s @ [39])) w)"

text \<open>\<open>strtoul(s, NULL, 8)\<close>.\<close>

definition c_isspace :: "u8 \<Rightarrow> bool" where
  "c_isspace b \<longleftrightarrow> b = 32 \<or> 9 \<le> b \<and> b \<le> 13"

definition octal_value :: "bytes \<Rightarrow> nat" where
  "octal_value s = foldl (\<lambda>n d. n * 8 + unat (d - 48)) 0 (takeWhile (\<lambda>b. 48 \<le> b \<and> b \<le> 55) s)"

definition strtoul8 :: "bytes \<Rightarrow> nat" where
  "strtoul8 s =
     (let s = dropWhile c_isspace s; neg = (s \<noteq> [] \<and> hd s = 45);
          s = (if s \<noteq> [] \<and> (hd s = 43 \<or> hd s = 45) then tl s else s); n = octal_value s
      in if n \<ge> 2 ^ 64 then 2 ^ 64 - 1 else if neg then (2 ^ 64 - n) mod 2 ^ 64 else n)"

definition check_mode :: "'x sys \<Rightarrow> lid \<Rightarrow> nat \<Rightarrow> ('x, int) luv" where
  "check_mode sys L i w = bindR (luaL_checkstring sys L i w) (\<lambda>s w. Done (c_int (int (strtoul8 s))) w)"

section \<open>Results\<close>

definition lua_int_value :: "int \<Rightarrow> lua_value" where
  "lua_int_value n = LNum (lua_number_of_int n)"

text \<open>A new table with the given fields on the stack.\<close>

definition push_table :: "lid \<Rightarrow> (lua_value \<times> lua_value) list \<Rightarrow> 'x world \<Rightarrow> 'x world" where
  "push_table L kvs w =
     (let (t, h) = new_table (foldl (\<lambda>es (k, v). raw_put k v es) [] kvs) (w_heap w)
      in lua_push L (LTable t) (w\<lparr>w_heap := h\<rparr>))"

definition S_IFMT :: u32 where "S_IFMT = 0xF000"

text \<open>\<open>(mode & S_IFMT) == type\<close>, the \<open>S_ISxxx\<close> macros.\<close>

definition s_is :: "u32 \<Rightarrow> u32 \<Rightarrow> lua_value" where
  "s_is t mode = LBool (mode AND S_IFMT = t)"

definition stat_fields :: "fstat \<Rightarrow> (string \<times> lua_value) list" where
  "stat_fields s =
     [(''dev'', lua_int_value (st_dev s)), (''ino'', lua_int_value (st_ino s)),
      (''mode'', lua_int_value (uint (st_mode s))), (''nlink'', lua_int_value (st_nlink s)),
      (''uid'', lua_int_value (st_uid s)), (''gid'', lua_int_value (st_gid s)),
      (''rdev'', lua_int_value (st_rdev s)), (''size'', lua_int_value (st_size s)),
      (''atime'', lua_int_value (st_atime s)), (''mtime'', lua_int_value (st_mtime s)),
      (''ctime'', lua_int_value (st_ctime s)),
      (''is_file'', s_is 0x8000 (st_mode s)), (''is_directory'', s_is 0x4000 (st_mode s)),
      (''is_character_device'', s_is 0x2000 (st_mode s)), (''is_block_device'', s_is 0x6000 (st_mode s)),
      (''is_fifo'', s_is 0x1000 (st_mode s)), (''is_symbolic_link'', s_is 0xA000 (st_mode s)),
      (''is_socket'', s_is 0xC000 (st_mode s))]"

definition luv_push_stats_table :: "lid \<Rightarrow> fstat \<Rightarrow> 'x world \<Rightarrow> 'x world" where
  "luv_push_stats_table L s = push_table L (map (\<lambda>(k, v). (LStr (str k), v)) (stat_fields s))"

text \<open>The names in the memory of \<open>readdir\<close>, each ended by a zero byte; \<open>None\<close> when one is not.\<close>

fun dir_names :: "nat \<Rightarrow> bytes \<Rightarrow> bytes list option" where
  "dir_names 0 mem = Some []"
| "dir_names (Suc n) mem =
     (if 0 \<notin> set mem then None
      else map_option (\<lambda>ns. c_string mem # ns) (dir_names n (drop (Suc (length (c_string mem))) mem)))"

definition luv_fs_result :: "'x sys \<Rightarrow> lid \<Rightarrow> sid \<Rightarrow> ('x, unit) luv" where
  "luv_fs_result sys L req w =
     (let r = sys_fs_req sys req (w_ext w)
      in bindR
           (if fr_result r = - 1 then Done () (lua_pushinteger L (fr_errorno r) (lua_pushnil L w))
            else if fr_type r \<in> {UV_FS_RENAME, UV_FS_UNLINK, UV_FS_RMDIR, UV_FS_MKDIR, UV_FS_FSYNC, UV_FS_FTRUNCATE,
                UV_FS_FDATASYNC, UV_FS_LINK, UV_FS_SYMLINK, UV_FS_CHMOD, UV_FS_FCHMOD, UV_FS_CHOWN, UV_FS_FCHOWN,
                UV_FS_UTIME, UV_FS_FUTIME, UV_FS_CLOSE}
            then Done () (lua_pushinteger L (fr_result r) w)
            else case fr_type r of
                UV_FS_OPEN \<Rightarrow>
                  bindR (check_object L (lua_gettop L w) LUV_FILE_T w) (\<lambda>self w.
                    Done () (upd_object self (\<lambda>ob. ob\<lparr>o_file := c_int (fr_result r)\<rparr>) w))
              | UV_FS_READ \<Rightarrow>
                  let w = lua_pushinteger L (fr_result r) w
                  in bindR (read_mem (Some (fr_data r)) (fr_result r) w) (\<lambda>bs w. Done () (lua_pushlstring L bs w))
              | UV_FS_WRITE \<Rightarrow> Done () (lua_pushinteger L (fr_result r) w)
              | UV_FS_READLINK \<Rightarrow> Done () (lua_pushstring L (fr_ptr r) w)
              | UV_FS_READDIR \<Rightarrow>
                  (case dir_names (nat (c_int (fr_result r))) (fr_ptr r) of
                     None \<Rightarrow> Fail Out_Of_Bounds
                   | Some ns \<Rightarrow> Done () (push_table L (map (\<lambda>(i, n). (lua_int i, LStr n)) (enumerate 1 ns)) w))
              | UV_FS_STAT \<Rightarrow> Done () (luv_push_stats_table L (fr_stat r) w)
              | UV_FS_LSTAT \<Rightarrow> Done () (luv_push_stats_table L (fr_stat r) w)
              | UV_FS_FSTAT \<Rightarrow> Done () (luv_push_stats_table L (fr_stat r) w)
              | _ \<Rightarrow> Raise (lua_msg ''Unhandled fs_type'') w)
           (\<lambda>_ w. bindR (uv sys (Uv_fs_req_cleanup req) w) (\<lambda>_ w. Done () w)))"

definition luv_fs_cb :: "'x sys \<Rightarrow> sid \<Rightarrow> ('x, unit) luv" where
  "luv_fs_cb sys state w =
     bindR (luv_fs_result sys (st_L (w_state w state)) state w) (\<lambda>_ w. luvL_state_ready state w)"

definition LUV_FS_CALL :: "'x vm \<Rightarrow> 'x sys \<Rightarrow> lid \<Rightarrow> fs_op \<Rightarrow> ('x, int) luv" where
  "LUV_FS_CALL vm sys L op w =
     bindR (deref (luvL_state_self L w) w) (\<lambda>cur w.
     bindR (luvL_event_loop L w) (\<lambda>loop w.
     let async = (st_type (w_state w cur) \<noteq> LUV_TTHREAD)
     in bindR (uv sys (Uv_fs loop cur op async) w) (\<lambda>rv w.
          let w = (if rv < 0
                   then let err = uv_error sys loop w
                        in lua_pushstring L err (lua_pushboolean L False (lua_settop L 0 w))
                   else w)
          in if st_type (w_state w cur) = LUV_TTHREAD
             then bindR (luv_fs_result sys L cur w) (\<lambda>_ w. Done (int (lua_gettop L w)) w)
             else luvL_state_suspend vm cur w)))"

section \<open>Functions of the module\<close>

definition luv_fs_open :: "'x vm \<Rightarrow> 'x sys \<Rightarrow> lid \<Rightarrow> ('x, int) luv" where
  "luv_fs_open vm sys L w =
     (let cur = luvL_state_self L w
      in bindR (luaL_checkstring sys L 1 w) (\<lambda>path w.
         bindR (luaL_checkstring sys L 2 w) (\<lambda>fl w.
         bindR (luv_string_to_flags fl w) (\<lambda>flags w.
         bindR (check_mode sys L 3 w) (\<lambda>mode w.
           let (self, w) = new_object L LUV_FILE_T (lua_settop L 0 w)
           in bindR (deref cur w) (\<lambda>cur w.
                let w = luvL_object_init cur self w;
                    w = upd_object self (\<lambda>ob. ob\<lparr>o_file := - 1\<rparr>) w
                in LUV_FS_CALL vm sys L (Fs_open path flags mode) w))))))"

definition luv_fs_unlink :: "'x vm \<Rightarrow> 'x sys \<Rightarrow> lid \<Rightarrow> ('x, int) luv" where
  "luv_fs_unlink vm sys L w =
     bindR (luaL_checkstring sys L 1 w) (\<lambda>path w. LUV_FS_CALL vm sys L (Fs_unlink path) (lua_settop L 0 w))"

definition luv_fs_mkdir :: "'x vm \<Rightarrow> 'x sys \<Rightarrow> lid \<Rightarrow> ('x, int) luv" where
  "luv_fs_mkdir vm sys L w =
     bindR (luaL_checkstring sys L 1 w) (\<lambda>path w.
     bindR (check_mode sys L 2 w) (\<lambda>mode w. LUV_FS_CALL vm sys L (Fs_mkdir path mode) (lua_settop L 0 w)))"

definition luv_fs_rmdir :: "'x vm \<Rightarrow> 'x sys \<Rightarrow> lid \<Rightarrow> ('x, int) luv" where
  "luv_fs_rmdir vm sys L w =
     bindR (luaL_checkstring sys L 1 w) (\<lambda>path w. LUV_FS_CALL vm sys L (Fs_rmdir path) (lua_settop L 0 w))"

definition luv_fs_readdir :: "'x vm \<Rightarrow> 'x sys \<Rightarrow> lid \<Rightarrow> ('x, int) luv" where
  "luv_fs_readdir vm sys L w =
     bindR (luaL_checkstring sys L 1 w) (\<lambda>path w. LUV_FS_CALL vm sys L (Fs_readdir path 0) (lua_settop L 0 w))"

definition luv_fs_stat :: "'x vm \<Rightarrow> 'x sys \<Rightarrow> lid \<Rightarrow> ('x, int) luv" where
  "luv_fs_stat vm sys L w =
     bindR (luaL_checkstring sys L 1 w) (\<lambda>path w. LUV_FS_CALL vm sys L (Fs_stat path) (lua_settop L 0 w))"

definition luv_fs_rename :: "'x vm \<Rightarrow> 'x sys \<Rightarrow> lid \<Rightarrow> ('x, int) luv" where
  "luv_fs_rename vm sys L w =
     bindR (luaL_checkstring sys L 1 w) (\<lambda>old_path w.
     bindR (luaL_checkstring sys L 2 w) (\<lambda>new_path w.
       LUV_FS_CALL vm sys L (Fs_rename old_path new_path) (lua_settop L 0 w)))"

definition luv_fs_sendfile :: "'x vm \<Rightarrow> 'x sys \<Rightarrow> lid \<Rightarrow> ('x, int) luv" where
  "luv_fs_sendfile vm sys L w =
     bindR (check_object L 1 LUV_FILE_T w) (\<lambda>out_file w.
     bindR (check_object L 2 LUV_FILE_T w) (\<lambda>in_file w.
     bindR (luaL_checkint sys L 3 w) (\<lambda>ofs w.
     bindR (luaL_checkint sys L 4 w) (\<lambda>len w.
       let w = lua_settop L 2 w
       in LUV_FS_CALL vm sys L
            (Fs_sendfile (o_file (w_object w out_file)) (o_file (w_object w in_file)) ofs (c_size len)) w))))"

definition luv_fs_chmod :: "'x vm \<Rightarrow> 'x sys \<Rightarrow> lid \<Rightarrow> ('x, int) luv" where
  "luv_fs_chmod vm sys L w =
     bindR (luaL_checkstring sys L 1 w) (\<lambda>path w.
     bindR (check_mode sys L 2 w) (\<lambda>mode w. LUV_FS_CALL vm sys L (Fs_chmod path mode) (lua_settop L 0 w)))"

definition luv_fs_utime :: "'x vm \<Rightarrow> 'x sys \<Rightarrow> lid \<Rightarrow> ('x, int) luv" where
  "luv_fs_utime vm sys L w =
     bindR (luaL_checkstring sys L 1 w) (\<lambda>path w.
     bindR (luaL_checknumber sys L 2 w) (\<lambda>atime w.
     bindR (luaL_checknumber sys L 3 w) (\<lambda>mtime w.
       LUV_FS_CALL vm sys L (Fs_utime path atime mtime) (lua_settop L 0 w))))"

definition luv_fs_lstat :: "'x vm \<Rightarrow> 'x sys \<Rightarrow> lid \<Rightarrow> ('x, int) luv" where
  "luv_fs_lstat vm sys L w =
     bindR (luaL_checkstring sys L 1 w) (\<lambda>path w. LUV_FS_CALL vm sys L (Fs_lstat path) (lua_settop L 0 w))"

definition luv_fs_link :: "'x vm \<Rightarrow> 'x sys \<Rightarrow> lid \<Rightarrow> ('x, int) luv" where
  "luv_fs_link vm sys L w =
     bindR (luaL_checkstring sys L 1 w) (\<lambda>src_path w.
     bindR (luaL_checkstring sys L 2 w) (\<lambda>dst_path w.
       LUV_FS_CALL vm sys L (Fs_link src_path dst_path) (lua_settop L 0 w)))"

definition luv_fs_symlink :: "'x vm \<Rightarrow> 'x sys \<Rightarrow> lid \<Rightarrow> ('x, int) luv" where
  "luv_fs_symlink vm sys L w =
     bindR (luaL_checkstring sys L 1 w) (\<lambda>src_path w.
     bindR (luaL_checkstring sys L 2 w) (\<lambda>dst_path w.
     bindR (luaL_checkstring sys L 3 w) (\<lambda>fl w.
     bindR (luv_string_to_flags fl w) (\<lambda>flags w.
       LUV_FS_CALL vm sys L (Fs_symlink src_path dst_path flags) (lua_settop L 0 w)))))"

definition luv_fs_readlink :: "'x vm \<Rightarrow> 'x sys \<Rightarrow> lid \<Rightarrow> ('x, int) luv" where
  "luv_fs_readlink vm sys L w =
     bindR (luaL_checkstring sys L 1 w) (\<lambda>path w. LUV_FS_CALL vm sys L (Fs_readlink path) (lua_settop L 0 w))"

definition luv_fs_chown :: "'x vm \<Rightarrow> 'x sys \<Rightarrow> lid \<Rightarrow> ('x, int) luv" where
  "luv_fs_chown vm sys L w =
     bindR (luaL_checkstring sys L 1 w) (\<lambda>path w.
     bindR (luaL_checkint sys L 2 w) (\<lambda>uid w.
     bindR (luaL_checkint sys L 3 w) (\<lambda>gid w.
       LUV_FS_CALL vm sys L (Fs_chown path uid gid) (lua_settop L 0 w))))"

text \<open>\<open>uv_cwd\<close>, \<open>uv_chdir\<close> return an error code; the buffer has \<open>LUV_MAX_PATH\<close> bytes.\<close>

definition LUV_MAX_PATH :: nat where "LUV_MAX_PATH = 1024"

definition luv_fs_cwd :: "'x sys \<Rightarrow> lid \<Rightarrow> ('x, int) luv" where
  "luv_fs_cwd sys L w =
     bindR (uv sys (Uv_cwd LUV_MAX_PATH) w) (\<lambda>code w.
       if code \<noteq> 0 then Raise (LStr (sys_strerror sys code)) w
       else Done 1 (lua_pushstring L (sys_path sys (w_ext w)) w))"

definition luv_fs_chdir :: "'x sys \<Rightarrow> lid \<Rightarrow> ('x, int) luv" where
  "luv_fs_chdir sys L w =
     bindR (luaL_checkstring sys L 1 w) (\<lambda>dir w.
     bindR (uv sys (Uv_chdir dir) w) (\<lambda>code w.
       if code \<noteq> 0 then Raise (LStr (sys_strerror sys code)) w else Done 0 w))"

definition luv_fs_exepath :: "'x sys \<Rightarrow> lid \<Rightarrow> ('x, int) luv" where
  "luv_fs_exepath sys L w =
     bindR (uv sys (Uv_exepath LUV_MAX_PATH) w) (\<lambda>_ w. Done 1 (lua_pushlstring L (sys_path sys (w_ext w)) w))"

section \<open>Methods of files\<close>

definition luv_file_stat :: "'x vm \<Rightarrow> 'x sys \<Rightarrow> lid \<Rightarrow> ('x, int) luv" where
  "luv_file_stat vm sys L w =
     bindR (check_object L 1 LUV_FILE_T w) (\<lambda>self w.
       LUV_FS_CALL vm sys L (Fs_fstat (o_file (w_object w self))) (lua_settop L 0 w))"

definition luv_file_sync :: "'x vm \<Rightarrow> 'x sys \<Rightarrow> lid \<Rightarrow> ('x, int) luv" where
  "luv_file_sync vm sys L w =
     bindR (check_object L 1 LUV_FILE_T w) (\<lambda>self w.
       LUV_FS_CALL vm sys L (Fs_fsync (o_file (w_object w self))) (lua_settop L 0 w))"

definition luv_file_datasync :: "'x vm \<Rightarrow> 'x sys \<Rightarrow> lid \<Rightarrow> ('x, int) luv" where
  "luv_file_datasync vm sys L w =
     bindR (check_object L 1 LUV_FILE_T w) (\<lambda>self w.
       LUV_FS_CALL vm sys L (Fs_fdatasync (o_file (w_object w self))) (lua_settop L 0 w))"

definition luv_file_truncate :: "'x vm \<Rightarrow> 'x sys \<Rightarrow> lid \<Rightarrow> ('x, int) luv" where
  "luv_file_truncate vm sys L w =
     bindR (check_object L 1 LUV_FILE_T w) (\<lambda>self w.
     bindR (luaL_checkint sys L 2 w) (\<lambda>ofs w.
       LUV_FS_CALL vm sys L (Fs_ftruncate (o_file (w_object w self)) ofs) (lua_settop L 0 w)))"

definition luv_file_utime :: "'x vm \<Rightarrow> 'x sys \<Rightarrow> lid \<Rightarrow> ('x, int) luv" where
  "luv_file_utime vm sys L w =
     bindR (check_object L 1 LUV_FILE_T w) (\<lambda>self w.
     bindR (luaL_checknumber sys L 2 w) (\<lambda>atime w.
     bindR (luaL_checknumber sys L 3 w) (\<lambda>mtime w.
       LUV_FS_CALL vm sys L (Fs_futime (o_file (w_object w self)) atime mtime) (lua_settop L 0 w))))"

definition luv_file_chmod :: "'x vm \<Rightarrow> 'x sys \<Rightarrow> lid \<Rightarrow> ('x, int) luv" where
  "luv_file_chmod vm sys L w =
     bindR (check_object L 1 LUV_FILE_T w) (\<lambda>self w.
     bindR (check_mode sys L 2 w) (\<lambda>mode w.
       LUV_FS_CALL vm sys L (Fs_fchmod (o_file (w_object w self)) mode) (lua_settop L 0 w)))"

definition luv_file_chown :: "'x vm \<Rightarrow> 'x sys \<Rightarrow> lid \<Rightarrow> ('x, int) luv" where
  "luv_file_chown vm sys L w =
     bindR (check_object L 1 LUV_FILE_T w) (\<lambda>self w.
     bindR (luaL_checkint sys L 2 w) (\<lambda>uid w.
     bindR (luaL_checkint sys L 3 w) (\<lambda>gid w.
       LUV_FS_CALL vm sys L (Fs_fchown (o_file (w_object w self)) uid gid) (lua_settop L 0 w))))"

definition LUV_BUF_SIZE :: int where "LUV_BUF_SIZE = 4096"

definition luv_file_read :: "'x vm \<Rightarrow> 'x sys \<Rightarrow> lid \<Rightarrow> ('x, int) luv" where
  "luv_file_read vm sys L w =
     bindR (check_object L 1 LUV_FILE_T w) (\<lambda>self w.
     bindR (luaL_optint sys L 2 LUV_BUF_SIZE w) (\<lambda>len w.
     bindR (luaL_optint sys L 3 (- 1) w) (\<lambda>ofs w.
       LUV_FS_CALL vm sys L (Fs_read (o_file (w_object w self)) (c_size len) ofs) (lua_settop L 0 w))))"

definition luv_file_write :: "'x vm \<Rightarrow> 'x sys \<Rightarrow> lid \<Rightarrow> ('x, int) luv" where
  "luv_file_write vm sys L w =
     bindR (check_object L 1 LUV_FILE_T w) (\<lambda>self w.
     bindR (luaL_checklstring sys L 2 w) (\<lambda>buf w.
     bindR (luaL_optint sys L 3 0 w) (\<lambda>ofs w.
       LUV_FS_CALL vm sys L (Fs_write (o_file (w_object w self)) buf ofs) (lua_settop L 0 w))))"

definition luv_file_close :: "'x vm \<Rightarrow> 'x sys \<Rightarrow> lid \<Rightarrow> ('x, int) luv" where
  "luv_file_close vm sys L w =
     bindR (check_object L 1 LUV_FILE_T w) (\<lambda>self w.
       LUV_FS_CALL vm sys L (Fs_close (o_file (w_object w self))) (lua_settop L 0 w))"

definition luv_file_free :: "lid \<Rightarrow> ('x, int) luv" where
  "luv_file_free L w = bindR (as_object (lua_touserdata L 1 w) w) (\<lambda>self w. Done 0 w)"

end
