(* ===== verification/Luv_Net.thy ===== *)
theory Luv_Net
  imports Luv_Fs
begin

text \<open>
  TCP sockets, UDP sockets and name resolution (\<open>src/src/luv_net.c\<close>).  A TCP socket is a stream; the
  methods here are those it has besides.  The table of hints of \<open>getaddrinfo\<close> is read without
  metamethods.
\<close>

definition PF_INET :: int where "PF_INET = 2"
definition PF_INET6 :: int where "PF_INET6 = 10"
definition SOCK_STREAM :: int where "SOCK_STREAM = 1"
definition SOCK_DGRAM :: int where "SOCK_DGRAM = 2"
definition IPPROTO_TCP :: int where "IPPROTO_TCP = 6"
definition IPPROTO_UDP :: int where "IPPROTO_UDP = 17"

definition ntohs :: "16 word \<Rightarrow> 16 word" where
  "ntohs p = push_bit 8 p OR drop_bit 8 p"

section \<open>TCP\<close>

definition luv_new_tcp :: "'x sys \<Rightarrow> lid \<Rightarrow> ('x, int) luv" where
  "luv_new_tcp sys L w =
     (let cur = luvL_state_self L w; (self, w) = new_object L LUV_NET_TCP_T w
      in bindR (deref cur w) (\<lambda>cur w.
         bindR (luvL_event_loop L (luvL_object_init cur self w)) (\<lambda>loop w.
         bindR (uv sys (Uv_tcp_init loop self) w) (\<lambda>_ w. Done 1 w))))"

definition luv_tcp_bind :: "'x sys \<Rightarrow> lid \<Rightarrow> ('x, int) luv" where
  "luv_tcp_bind sys L w =
     bindR (check_object L 1 LUV_NET_TCP_T w) (\<lambda>self w.
     bindR (luaL_checkstring sys L 2 w) (\<lambda>host w.
     bindR (luaL_checkint sys L 3 w) (\<lambda>port w.
     bindR (uv sys (Uv_tcp_bind self host port) w) (\<lambda>rv w. Done 1 (lua_pushinteger L rv w)))))"

definition luv_tcp_connect :: "'x vm \<Rightarrow> 'x sys \<Rightarrow> lid \<Rightarrow> ('x, int) luv" where
  "luv_tcp_connect vm sys L w =
     bindR (check_object L 1 LUV_NET_TCP_T w) (\<lambda>self w.
     let cur = luvL_state_self L w
     in bindR (luaL_checkstring sys L 2 w) (\<lambda>host w.
        bindR (luaL_checkint sys L 3 w) (\<lambda>port w.
        bindR (deref cur (lua_settop L 2 w)) (\<lambda>cur w.
        bindR (uv sys (Uv_tcp_connect cur self host port) w) (\<lambda>rv w.
          if rv \<noteq> 0 then Done 2 (push_nil_error sys L (sys_handle_loop sys self (w_ext w)) w)
          else luvL_state_suspend vm cur w)))))"

definition luv_tcp_nodelay :: "'x sys \<Rightarrow> lid \<Rightarrow> ('x, int) luv" where
  "luv_tcp_nodelay sys L w =
     bindR (check_object L 1 LUV_NET_TCP_T w) (\<lambda>self w.
     bindR (luaL_checktype L 2 LUA_TBOOLEAN ''boolean'' w) (\<lambda>_ w.
     let enable = lua_toboolean L 2 w; w = lua_settop L 2 w
     in bindR (uv sys (Uv_tcp_nodelay self enable) w) (\<lambda>rv w. Done 1 (lua_pushinteger L rv w))))"

definition luv_tcp_keepalive :: "'x sys \<Rightarrow> lid \<Rightarrow> ('x, int) luv" where
  "luv_tcp_keepalive sys L w =
     bindR (check_object L 1 LUV_NET_TCP_T w) (\<lambda>self w.
     bindR (luaL_checktype L 2 LUA_TBOOLEAN ''boolean'' w) (\<lambda>_ w.
     let enable = lua_toboolean L 2 w
     in bindR (if enable then luaL_checkint sys L 3 w else Done 0 w) (\<lambda>delay w.
        bindR (uv sys (Uv_tcp_keepalive self enable (word_of_int delay)) w) (\<lambda>rv w.
          Done 1 (lua_pushinteger L rv (lua_settop L 1 w))))))"

text \<open>The table of an address; \<open>ip\<close> is written for the two known families only.\<close>

definition push_sockname :: "lid \<Rightarrow> sockaddr \<Rightarrow> ('x, int) luv" where
  "push_sockname L addr w =
     (if sa_family addr = PF_INET \<or> sa_family addr = PF_INET6
      then Done 1 (push_table L [(lua_msg ''port'', LNum (lua_number_of_int (uint (ntohs (sa_port addr))))),
             (lua_msg ''family'', LNum (lua_number_of_int (sa_family addr))),
             (lua_msg ''address'', LStr (c_string (sa_host addr)))] w)
      else Fail Uninitialized)"

definition luv_tcp_getsockname :: "'x sys \<Rightarrow> lid \<Rightarrow> ('x, int) luv" where
  "luv_tcp_getsockname sys L w =
     bindR (check_object L 1 LUV_NET_TCP_T w) (\<lambda>self w.
     bindR (uv sys (Uv_tcp_getsockname self) w) (\<lambda>rv w.
       if rv \<noteq> 0
       then bindR (luvL_event_loop L w) (\<lambda>loop w. Raise (LStr (str ''getsockname: '' @ uv_error sys loop w)) w)
       else push_sockname L (sys_sockaddr sys (w_ext w)) w))"

definition luv_tcp_getpeername :: "'x sys \<Rightarrow> lid \<Rightarrow> ('x, int) luv" where
  "luv_tcp_getpeername sys L w =
     bindR (check_object L 1 LUV_NET_TCP_T w) (\<lambda>self w.
     bindR (uv sys (Uv_tcp_getpeername self) w) (\<lambda>rv w.
       if rv \<noteq> 0
       then bindR (luvL_event_loop L w) (\<lambda>loop w. Raise (LStr (str ''getpeername: '' @ uv_error sys loop w)) w)
       else push_sockname L (sys_sockaddr sys (w_ext w)) w))"

section \<open>Name resolution\<close>

text \<open>
  \<open>ai\<close> is null when the lookup failed; \<open>host\<close> is written for the two known families only, and the
  port is not converted from network byte order.
\<close>

definition getaddrinfo_cb :: "'x sys \<Rightarrow> sid \<Rightarrow> int \<Rightarrow> sockaddr option \<Rightarrow> ('x, unit) luv" where
  "getaddrinfo_cb sys cur status ai w =
     bindR (deref ai w) (\<lambda>addr w.
     bindR (if sa_family addr = PF_INET \<or> sa_family addr = PF_INET6
            then Done (sa_host addr, uint (sa_port addr)) w else Fail Uninitialized) (\<lambda>(host, port) w.
     let L = st_L (w_state w cur); w = lua_settop L 0 w; w = lua_pushstring L host w; w = lua_pushinteger L port w
     in bindR (uv sys (Uv_freeaddrinfo cur) w) (\<lambda>_ w. luvL_state_ready cur w)))"

text \<open>\<open>lua_getfield(L, 3, name)\<close> and \<open>lua_tostring\<close>: \<open>None\<close> when the field is \<open>nil\<close>.\<close>

definition hint :: "'x sys \<Rightarrow> entries \<Rightarrow> string \<Rightarrow> ('x, bytes option) luv" where
  "hint sys es name w =
     (let v = raw_get es (lua_msg name)
      in if v = LNil then Done None w
         else case lua_text sys v of None \<Rightarrow> Fail Null_Deref | Some s \<Rightarrow> Done (Some (c_string s)) w)"

definition hint_family :: "bytes option \<Rightarrow> ('x, int) luv" where
  "hint_family f w = (case f of
       None \<Rightarrow> Done PF_INET w
     | Some s \<Rightarrow> if s = str ''INET'' then Done PF_INET w
                 else if s \<noteq> str ''INET6'' then Done PF_INET6 w
                 else Raise (LStr (str ''unsupported family: '' @ s)) w)"

definition hint_socktype :: "bytes option \<Rightarrow> ('x, int) luv" where
  "hint_socktype f w = (case f of
       None \<Rightarrow> Done SOCK_STREAM w
     | Some s \<Rightarrow> if s \<noteq> str ''STREAM'' then Done SOCK_STREAM w
                 else if s \<noteq> str ''DGRAM'' then Done SOCK_DGRAM w
                 else Raise (LStr (str ''unsupported socktype: '' @ s)) w)"

definition hint_protocol :: "bytes option \<Rightarrow> ('x, int) luv" where
  "hint_protocol f w = (case f of
       None \<Rightarrow> Done IPPROTO_TCP w
     | Some s \<Rightarrow> if s \<noteq> str ''TCP'' then Done IPPROTO_TCP w
                 else if s \<noteq> str ''UDP'' then Done IPPROTO_UDP w
                 else Raise (LStr (str ''unsupported protocol: '' @ s)) w)"

definition opt_string :: "'x sys \<Rightarrow> lid \<Rightarrow> nat \<Rightarrow> ('x, bytes option) luv" where
  "opt_string sys L i w =
     (if \<not> lua_isnoneornil L i w then bindR (luaL_checkstring sys L i w) (\<lambda>s w. Done (Some s) w) else Done None w)"

definition luv_getaddrinfo :: "'x vm \<Rightarrow> 'x sys \<Rightarrow> lid \<Rightarrow> ('x, int) luv" where
  "luv_getaddrinfo vm sys L w =
     (let cur = luvL_state_self L w
      in bindR (luvL_event_loop L w) (\<lambda>loop w.
         bindR (opt_string sys L 1 w) (\<lambda>node w.
         bindR (opt_string sys L 2 w) (\<lambda>service w.
         if node = None \<and> service = None
         then Raise (lua_msg ''getaddrinfo: provide either node or service'') w
         else
           bindR (case lua_arg L 3 w of
                    Some (LTable t) \<Rightarrow>
                      let es = t_entries (h_table (w_heap w) t)
                      in bindR (hint sys es ''family'' w) (\<lambda>f w. bindR (hint_family f w) (\<lambda>family w.
                         bindR (hint sys es ''socktype'' w) (\<lambda>f w. bindR (hint_socktype f w) (\<lambda>socktype w.
                         bindR (hint sys es ''protocol'' w) (\<lambda>f w. bindR (hint_protocol f w) (\<lambda>protocol w.
                           Done (family, socktype, protocol) w))))))
                  | _ \<Rightarrow> Done (PF_INET, SOCK_STREAM, IPPROTO_TCP) w) (\<lambda>(family, socktype, protocol) w.
           bindR (deref cur w) (\<lambda>cur w.
           bindR (uv sys (Uv_getaddrinfo loop cur node service family socktype protocol 0) w) (\<lambda>rv w.
             if rv \<noteq> 0 then Raise (LStr (uv_error sys loop w)) w
             else luvL_state_suspend vm cur w)))))))"

section \<open>UDP\<close>

definition luv_new_udp :: "'x sys \<Rightarrow> lid \<Rightarrow> ('x, int) luv" where
  "luv_new_udp sys L w =
     (let cur = luvL_state_self L w; (self, w) = new_object L LUV_NET_UDP_T w
      in bindR (deref cur w) (\<lambda>cur w.
         bindR (luvL_event_loop L (luvL_object_init cur self w)) (\<lambda>loop w.
         bindR (uv sys (Uv_udp_init loop self) w) (\<lambda>_ w. Done 1 w))))"

definition luv_udp_bind :: "'x sys \<Rightarrow> lid \<Rightarrow> ('x, int) luv" where
  "luv_udp_bind sys L w =
     bindR (check_object L 1 LUV_NET_UDP_T w) (\<lambda>self w.
     bindR (luaL_checkstring sys L 2 w) (\<lambda>host w.
     bindR (luaL_checkint sys L 3 w) (\<lambda>port w.
     bindR (uv sys (Uv_udp_bind self host port 0) w) (\<lambda>rv w.
       if rv \<noteq> 0 then bindR (luvL_event_loop L w) (\<lambda>loop w. Raise (LStr (uv_error sys loop w)) w)
       else Done 0 w))))"

definition send_cb :: "sid \<Rightarrow> int \<Rightarrow> ('x, unit) luv" where
  "send_cb cur status w = luvL_state_ready cur w"

definition luv_udp_send :: "'x vm \<Rightarrow> 'x sys \<Rightarrow> lid \<Rightarrow> ('x, int) luv" where
  "luv_udp_send vm sys L w =
     bindR (check_object L 1 LUV_NET_UDP_T w) (\<lambda>self w.
     let cur = luvL_state_self L w
     in bindR (luaL_checkstring sys L 2 w) (\<lambda>host w.
        bindR (luaL_checkint sys L 3 w) (\<lambda>port w.
        bindR (luaL_checklstring sys L 4 w) (\<lambda>mesg w.
        bindR (deref cur w) (\<lambda>cur w.
        bindR (uv sys (Uv_udp_send cur self mesg host port) w) (\<lambda>rv w.
          if rv \<noteq> 0 then bindR (luvL_event_loop L w) (\<lambda>loop w. Raise (LStr (uv_error sys loop w)) w)
          else luvL_state_suspend vm cur w))))))"

text \<open>The body of the loop over the waiting states; \<open>buf.len\<close> bytes of the buffer are pushed.\<close>

definition recv_result :: "uv_buf \<Rightarrow> sockaddr option \<Rightarrow> sid \<Rightarrow> ('x, unit) luv" where
  "recv_result buf peer s w =
     (let L = st_L (w_state w s); w = lua_settop L 0 w
      in bindR (read_mem (fst buf) (snd buf) w) (\<lambda>bs w.
         let w = lua_pushlstring L bs w
         in bindR (deref peer w) (\<lambda>addr w.
            if sa_family addr = PF_INET \<or> sa_family addr = PF_INET6
            then Done () (lua_pushinteger L (uint (sa_port addr)) (lua_pushstring L (sa_host addr) w))
            else Fail Uninitialized)))"

definition recv_cb :: "oid \<Rightarrow> int \<Rightarrow> uv_buf \<Rightarrow> sockaddr option \<Rightarrow> ('x, unit) luv" where
  "recv_cb self nread buf peer w =
     bindR (foreach_waiting (ORouse self) (recv_result buf peer) w) (\<lambda>_ w.
     bindR (luvL_cond_signal (ORouse self) w) (\<lambda>_ w. Done () w))"

definition luv_udp_recv :: "'x vm \<Rightarrow> 'x sys \<Rightarrow> lid \<Rightarrow> ('x, int) luv" where
  "luv_udp_recv vm sys L w =
     bindR (check_object L 1 LUV_NET_UDP_T w) (\<lambda>self w.
     bindR (if \<not> luvL_object_is_started (w_object w self)
            then bindR (uv sys (Uv_udp_recv_start self) (set_oflag LUV_OSTARTED self w)) (\<lambda>_ w. Done () w)
            else Done () w) (\<lambda>_ w.
     bindR (deref (luvL_state_self L w) w) (\<lambda>cur w. luvL_cond_wait vm (ORouse self) cur w)))"

text \<open>\<open>luaL_checkoption\<close>: the position of the argument in a list of names.\<close>

fun option_index :: "bytes \<Rightarrow> string list \<Rightarrow> nat option" where
  "option_index s [] = None"
| "option_index s (n # ns) = (if s = str n then Some 0 else map_option Suc (option_index s ns))"

definition luaL_checkoption :: "'x sys \<Rightarrow> lid \<Rightarrow> nat \<Rightarrow> string list \<Rightarrow> ('x, nat) luv" where
  "luaL_checkoption sys L i names w =
     bindR (luaL_checkstring sys L i w) (\<lambda>s w.
       case option_index s names of
         Some k \<Rightarrow> Done k w
       | None \<Rightarrow> Raise (LStr (str ''invalid option '' @ [39] @ s @ [39])) w)"

definition LUV_UDP_MEMBERSHIP_OPTS :: "string list" where
  "LUV_UDP_MEMBERSHIP_OPTS = [''join'', ''leave'']"

definition luv_udp_membership :: "'x sys \<Rightarrow> lid \<Rightarrow> ('x, int) luv" where
  "luv_udp_membership sys L w =
     bindR (check_object L 1 LUV_NET_UDP_T w) (\<lambda>self w.
     bindR (luaL_checkstring sys L 3 w) (\<lambda>iaddr w.
     bindR (luaL_checkstring sys L 2 w) (\<lambda>maddr w.
     bindR (luaL_checkoption sys L 4 LUV_UDP_MEMBERSHIP_OPTS w) (\<lambda>option w.
     bindR (uv sys (Uv_udp_set_membership self maddr iaddr (option \<noteq> 0)) w) (\<lambda>rv w.
       if rv \<noteq> 0 then bindR (luvL_event_loop L w) (\<lambda>loop w. Raise (LStr (uv_error sys loop w)) w)
       else Done 0 w)))))"

definition luv_udp_free :: "'x sys \<Rightarrow> lid \<Rightarrow> ('x, int) luv" where
  "luv_udp_free sys L w =
     bindR (as_object (lua_touserdata L 1 w) w) (\<lambda>self w.
     bindR (luvL_object_close sys self w) (\<lambda>_ w. Done 1 w))"

end
