(* ===== verification/Handle_Events.thy ===== *)
theory Handle_Events
  imports Luv_Net Sched_Vm
begin

text \<open>
  The callbacks of handles and requests against the abstract scheduler.  A callback changes stacks,
  objects and the part of the world that belongs to libuv, which the invariant of the scheduler does
  not read, and then wakes states through \<open>luvL_state_ready\<close>, \<open>luvL_cond_signal\<close> or
  \<open>luvL_cond_broadcast\<close>.  So every callback is a sequence of steps of \<open>api_step\<close>, which is what the
  locale \<open>luv_vm\<close> asks of the event loop.
\<close>

section \<open>Changes the scheduler does not see\<close>

text \<open>Two worlds that differ in the objects and in the libuv part only.\<close>

definition quiet :: "'x world \<Rightarrow> 'x world \<Rightarrow> bool" where
  "quiet w w' \<longleftrightarrow> (\<exists>obs x. w' = w\<lparr>w_object := obs, w_ext := x\<rparr>)"

lemma quiet_ext [simp]: "quiet w (w\<lparr>w_ext := x\<rparr>)" "quiet w (w\<lparr>w_object := z\<rparr>)"
  unfolding quiet_def by (rule exI [of _ "w_object w"], rule exI [of _ x], simp, rule exI [of _ z], rule exI [of _ "w_ext w"], simp)

lemma quiet_refl [simp]: "quiet w w"
  using quiet_ext(1) [of w "w_ext w"] by simp

lemma quiet_trans: "quiet w w1 \<Longrightarrow> quiet w1 w2 \<Longrightarrow> quiet w w2"
  unfolding quiet_def by (elim exE, simp) blast

lemma quiet_both [simp]: "quiet w (w\<lparr>w_ext := x, w_object := z\<rparr>)" "quiet w (w\<lparr>w_object := z, w_ext := x\<rparr>)"
  by (rule quiet_trans [OF quiet_ext(1,2)], rule quiet_trans [OF quiet_ext(2,1)])

lemma quiet_object [simp]: "quiet w (upd_object ob f w)" "quiet w (set_oflag F ob w)" "quiet w (clear_oflag F ob w)"
  by (simp_all add: set_oflag_def clear_oflag_def upd_object_def)

lemma quiet_same:
  assumes "quiet w w'"
  shows "w_queue w' = w_queue w" "w_state w' = w_state w" "w_nstate w' = w_nstate w" "w_nobject w' = w_nobject w"
    "w_ncond w' = w_ncond w" "w_stack w' = w_stack w" "w_yield w' = w_yield w" "w_nlua w' = w_nlua w"
    "w_registry w' = w_registry w" "w_udata w' = w_udata w" "core w' = core w"
  using assms by (auto simp: quiet_def core_def Let_def)

lemma core_lua [simp]: "core (lua_push L v w) = core w" "core (lua_settop L n w) = core w"
  "core (set_oflag F ob w) = core w" "core (clear_oflag F ob w) = core w" "core (w\<lparr>w_heap := h\<rparr>) = core w"
  by (simp_all add: lua_push_def lua_settop_def set_oflag_def clear_oflag_def core_def Let_def)

lemma uv_quiet: "\<exists>rv w'. uv sys c w = Done rv w' \<and> quiet w w' \<and> w_object w' = w_object w"
  by (simp add: uv_Done)

lemma stream_stop_quiet: "\<exists>rv w'. luvL_stream_stop sys ob w = Done rv w' \<and> quiet w w'"
  using uv_quiet [of sys "Uv_read_stop ob" "clear_oflag LUV_OSTARTED ob w"] quiet_trans [OF quiet_object(3)]
  by (auto simp: luvL_stream_stop_def)

lemma stream_start_quiet: "\<exists>rv w'. luvL_stream_start sys ob w = Done rv w' \<and> quiet w w'"
  using uv_quiet [of sys "Uv_read_start ob" "set_oflag LUV_OSTARTED ob w"] quiet_trans [OF quiet_object(2)]
  by (auto simp: luvL_stream_start_def)

lemma object_close_quiet: "\<exists>w'. luvL_object_close sys ob w = Done () w' \<and> quiet w w'"
  using uv_quiet [of sys "Uv_close ob" "set_oflag LUV_OCLOSING ob w"] quiet_trans [OF quiet_object(2)]
  by (auto simp: luvL_object_close_def)

section \<open>Waking after a change\<close>

lemma a_make_ready_core: assumes "core w' = core w" shows "a_make_ready w' s = a_make_ready w s"
  by (simp add: a_make_ready_def fun_eq_iff core_eq [OF assms])

lemma a_signal_core: assumes "core w' = core w" shows "a_signal w' c a = a_signal w c a"
  by (simp add: a_signal_def a_make_ready_core [OF assms] split: list.split)

lemma a_broadcast_core: assumes "core w' = core w" shows "a_broadcast w' c a = a_broadcast w c a"
proof -
  have "a_make_ready w' = a_make_ready w" using a_make_ready_core [OF assms] by (rule ext)
  then show ?thesis by (simp add: a_broadcast_def)
qed

lemma object_cond: "sched_rel R w a \<Longrightarrow> ob < w_nobject w \<Longrightarrow> ORouse ob \<in> a_conds a" "sched_rel R w a \<Longrightarrow> ob < w_nobject w \<Longrightarrow> OQueue ob \<in> a_conds a"
  by (simp_all add: sched_rel_def cond_heads_def)

lemma sched_inv_core:
  fixes w w' :: "'x world"
  assumes "core w' = core w" "sched_inv w a"
  shows "sched_inv w' a"
  using api_step_inv [OF step_lua [OF assms(1)] assms(2)] by simp

text \<open>Signal and broadcast in a world whose stacks have changed.\<close>

lemma signal_after:
  fixes w w0 :: "'x world"
  assumes inv: "sched_inv w a" and c: "c \<in> a_conds a" and eq: "core w0 = core w"
  shows "\<exists>w'. luvL_cond_signal c w0 = Done (if a_wait a c = [] then 0 else 1) w' \<and> api_steps (w, a) (w', a_signal w c a) \<and>
    (case a_wait a c of [] \<Rightarrow> w' = w0 | s # _ \<Rightarrow> made_ready s w0 w')"
proof -
  have "sched_inv w0 a" using sched_inv_core [OF eq inv] .
  then obtain w' where w': "luvL_cond_signal c w0 = Done (if a_wait a c = [] then 0 else 1) w'"
    "case a_wait a c of [] \<Rightarrow> w' = w0 | s # _ \<Rightarrow> made_ready s w0 w'"
    using cond_signal_rel [of "running w0" w0 a c] c unfolding sched_inv_def by blast
  have "api_step (w, a) (w0, a)" "api_step (w0, a) (w', a_signal w c a)"
    using step_lua [OF eq] step_signal [OF w'(1) c] by (simp_all add: a_signal_core [OF eq])
  then have "api_steps (w, a) (w', a_signal w c a)" by (meson converse_rtranclp_into_rtranclp r_into_rtranclp)
  with w' show ?thesis by blast
qed

lemma broadcast_after:
  fixes w w0 :: "'x world"
  assumes inv: "sched_inv w a" and c: "c \<in> a_conds a" and eq: "core w0 = core w"
  shows "\<exists>w'. luvL_cond_broadcast c w0 = Done (int (length (a_wait a c))) w' \<and> api_steps (w, a) (w', a_broadcast w c a) \<and>
    made_all_ready (set (a_wait a c)) w0 w'"
proof -
  have "sched_inv w0 a" using sched_inv_core [OF eq inv] .
  then obtain w' where w': "luvL_cond_broadcast c w0 = Done (int (length (a_wait a c))) w'"
    "made_all_ready (set (a_wait a c)) w0 w'"
    using cond_broadcast_rel [of "running w0" w0 a c] c unfolding sched_inv_def by blast
  have "api_step (w, a) (w0, a)" "api_step (w0, a) (w', a_broadcast w c a)"
    using step_lua [OF eq] step_broadcast [OF w'(1) c] by (simp_all add: a_broadcast_core [OF eq])
  then have "api_steps (w, a) (w', a_broadcast w c a)" by (meson converse_rtranclp_into_rtranclp r_into_rtranclp)
  with w' show ?thesis by blast
qed

text \<open>The body of a signal, written out in a callback: the first waiting state leaves the queue and is made ready.\<close>

lemma rouse_after:
  fixes w w0 :: "'x world"
  assumes inv: "sched_inv w a" and c: "c \<in> a_conds a" and s: "a_wait a c = s # ss" and eq: "core w0 = core w"
  shows "ngx_queue_head c (w_queue w) = SCond s" "\<not> is_empty c w"
    "\<exists>w'. luvL_state_ready s (upd_queue (ngx_queue_remove (SCond s)) w0) = Done () w' \<and> api_steps (w, a) (w', a_signal w c a) \<and> made_ready s w0 w'"
proof -
  have rel: "sched_rel (running w) w a" using inv by (simp add: sched_inv_def)
  show hd: "ngx_queue_head c (w_queue w) = SCond s" by (rule sched_unwait(1) [OF rel c s])
  show ne: "\<not> is_empty c w" using cond_empty_iff [OF rel c] s by simp
  let ?w1 = "upd_queue (ngx_queue_remove (SCond s)) w0"
  from signal_after [OF inv c eq] s obtain w' where
    w': "luvL_cond_signal c w0 = Done 1 w'" "api_steps (w, a) (w', a_signal w c a)" "made_ready s w0 w'" by auto
  have "luvL_cond_signal c w0 = bindR (luvL_state_ready s ?w1) (\<lambda>_ w. Done 1 w)"
    using hd ne by (simp add: luvL_cond_signal_def cond_rouse_def queue_data_def of_cond_def core_eq [OF eq] Let_def)
  with w'(1) have "luvL_state_ready s ?w1 = Done () w'" by (cases "luvL_state_ready s ?w1") simp_all
  with w'(2,3) show "\<exists>w'. luvL_state_ready s ?w1 = Done () w' \<and> api_steps (w, a) (w', a_signal w c a) \<and> made_ready s w0 w'" by blast
qed

lemma ready_after:
  fixes w w0 :: "'x world"
  assumes inv: "sched_inv w a" and s: "s < w_nstate w" "ready w s \<or> \<not> a_waiting a s" and eq: "core w0 = core w"
  shows "\<exists>w'. luvL_state_ready s w0 = Done () w' \<and> api_steps (w, a) (w', a_make_ready w s a) \<and> made_ready s w0 w'"
proof -
  have i: "sched_rel (running w0) w0 a" "run_ok (running w0) w0" using sched_inv_core [OF eq inv] by (simp_all add: sched_inv_def)
  have s0: "s < w_nstate w0" "ready w0 s \<or> \<not> a_waiting a s" using s by (simp_all add: core_eq [OF eq])
  then have "ready w0 s \<or> \<not> a_waiting a s \<and> s \<notin> running w0" using i(2) by (auto simp: run_ok_def)
  from state_ready_rel [OF i(1) s0(1) this] obtain w' where w': "luvL_state_ready s w0 = Done () w'" "made_ready s w0 w'" by blast
  have "api_step (w, a) (w0, a)" "api_step (w0, a) (w', a_make_ready w s a)"
    using step_lua [OF eq] step_ready [OF w'(1) s0] by (simp_all add: a_make_ready_core [OF eq])
  then have "api_steps (w, a) (w', a_make_ready w s a)" by (meson converse_rtranclp_into_rtranclp r_into_rtranclp)
  with w' show ?thesis by blast
qed

section \<open>Timers, idle handles, closing\<close>

text \<open>The given values alone on the stacks of some states.\<close>

definition hand :: "lua_value list \<Rightarrow> sid list \<Rightarrow> 'x world \<Rightarrow> 'x world" where
  "hand vs ss w = w\<lparr>w_stack := (\<lambda>L. if \<exists>s\<in>set ss. L = st_L (w_state w s) then vs else w_stack w L)\<rparr>"

lemma core_hand [simp]: "core (hand vs ss w) = core w"
  by (simp add: hand_def core_def Let_def)

lemma hand_sel [simp]:
  "w_state (hand vs ss w) = w_state w" "w_object (hand vs ss w) = w_object w" "w_ext (hand vs ss w) = w_ext w"
  "w_queue (hand vs ss w) = w_queue w" "w_nstate (hand vs ss w) = w_nstate w"
  "state_flag F s (hand vs ss w) = state_flag F s w"
  by (simp_all add: hand_def state_flag_def)

lemma give_status_eq: "give_status n s w = Done () (hand [LNum (lua_number_of_int n)] [s] w)"
  by (simp add: give_status_def lua_push_defs lua_push_def lua_settop_def upd_stack_def hand_def Let_def fun_eq_iff)

lemma visit_hand:
  assumes "\<And>s w. f s w = Done () (hand vs [s] w)"
  shows "visit f (map SCond ss) w = Done () (hand vs ss w)"
proof (induction ss arbitrary: w)
  case (Cons s ss)
  have "hand vs ss (hand vs [s] w) = hand vs (s # ss) w" by (auto simp: hand_def fun_eq_iff)
  with Cons show ?case by (simp add: queue_data_def of_cond_def assms)
qed (simp add: hand_def)

lemma foreach_waiting_eq:
  assumes "sched_inv w a" "c \<in> a_conds a"
  shows "foreach_waiting c f w = visit f (map SCond (a_wait a c)) w"
proof -
  have rel: "sched_rel (running w) w a" using assms(1) by (simp add: sched_inv_def)
  from queue_foreach [OF sched_queue [OF rel cond_head [OF assms(2)]]] cond_links [OF rel assms(2)]
  show ?thesis by (simp add: foreach_waiting_def)
qed

lemma inv_object_cond: "sched_inv w a \<Longrightarrow> ob < w_nobject w \<Longrightarrow> ORouse ob \<in> a_conds a"
  using object_cond(1) unfolding sched_inv_def by blast

lemma timer_cb_steps:
  assumes inv: "sched_inv w a" and ob: "ob < w_nobject w"
  shows "\<exists>w'. timer_cb ob n w = Done () w' \<and> api_steps (w, a) (w', a_broadcast w (ORouse ob) a) \<and>
    made_all_ready (set (a_wait a (ORouse ob))) (hand [LNum (lua_number_of_int n)] (a_wait a (ORouse ob)) w) w'"
proof -
  note c = inv_object_cond [OF inv ob]
  from broadcast_after [OF inv c core_hand, of "[LNum (lua_number_of_int n)]" "a_wait a (ORouse ob)"]
  show ?thesis by (auto simp: timer_cb_def foreach_waiting_eq [OF inv c] visit_hand [OF give_status_eq])
qed

lemma idle_timer: "idle_cb = timer_cb"
  by (simp add: fun_eq_iff idle_cb_def timer_cb_def)

lemma close_cb_steps:
  assumes inv: "sched_inv w a" and ob: "ob < w_nobject w"
  shows "\<exists>w' w0. luvL_object_close_cb ob w = Done () w' \<and> api_steps (w, a) (w', a_signal w (ORouse ob) a) \<and> quiet w w0 \<and>
    w_object w0 = (w_object w)(ob := (w_object w ob)\<lparr>o_flags := set_flag LUV_OCLOSED (o_flags (w_object w ob)), o_state := None\<rparr>) \<and>
    (case a_wait a (ORouse ob) of [] \<Rightarrow> w' = w0 | s # _ \<Rightarrow> made_ready s w0 w')"
proof -
  let ?w0 = "upd_object ob (\<lambda>r. r\<lparr>o_state := None\<rparr>) (set_oflag LUV_OCLOSED ob w)"
  have q: "quiet w ?w0" using quiet_trans [OF quiet_object(2,1)] .
  from signal_after [OF inv inv_object_cond [OF inv ob] quiet_same(11) [OF q]] obtain w' where
    "luvL_cond_signal (ORouse ob) ?w0 = Done (if a_wait a (ORouse ob) = [] then 0 else 1) w'"
    "api_steps (w, a) (w', a_signal w (ORouse ob) a)"
    "case a_wait a (ORouse ob) of [] \<Rightarrow> w' = ?w0 | s # _ \<Rightarrow> made_ready s ?w0 w'" by blast
  moreover have "w_object ?w0 = (w_object w)(ob := (w_object w ob)\<lparr>o_flags := set_flag LUV_OCLOSED (o_flags (w_object w ob)), o_state := None\<rparr>)"
    by (simp add: set_oflag_def)
  ultimately show ?thesis using q by (auto simp: luvL_object_close_cb_def Let_def)
qed

section \<open>Streams\<close>

text \<open>What a reading state gets, and that libuv passes memory of the length it reports.\<close>

definition mem_ok :: "int \<Rightarrow> uv_buf \<Rightarrow> bool" where
  "mem_ok len buf \<longleftrightarrow> len \<le> 0 \<or> (case fst buf of None \<Rightarrow> False | Some bs \<Rightarrow> len \<le> int (length bs))"

definition chunk :: "int \<Rightarrow> uv_buf \<Rightarrow> bytes" where
  "chunk len buf = (case fst buf of None \<Rightarrow> [] | Some bs \<Rightarrow> take (nat len) bs)"

definition read_values :: "'x sys \<Rightarrow> int \<Rightarrow> uv_buf \<Rightarrow> loop \<Rightarrow> 'x \<Rightarrow> lua_value list" where
  "read_values sys len buf l x =
     (if len \<ge> 0 then [LNum (lua_number_of_int len), LStr (chunk len buf)]
      else if sys_last_error sys l x = sys_UV_EOF sys then [LNil]
      else [LBool False, LStr (c_string (str ''read: '' @ sys_strerror sys (sys_last_error sys l x)))])"

lemma read_mem_ok: "mem_ok len buf \<Longrightarrow> 0 \<le> len \<Longrightarrow> read_mem (fst buf) len w = Done (chunk len buf) w"
  by (auto simp: mem_ok_def read_mem_def chunk_def split: option.splits)

lemma read_result_quiet:
  assumes "mem_ok len buf"
  shows "\<exists>w'. read_result sys ob s len buf w = Done () w' \<and>
    quiet (hand (read_values sys len buf (st_loop (w_state w s)) (w_ext w)) [s] w) w'"
proof -
  let ?L = "st_L (w_state w s)"
  let ?h = "\<lambda>vs. hand vs [s] w"
  have push: "lua_push ?L v (?h [u]) = ?h [u, v]" "lua_push ?L u (lua_settop ?L 0 w) = ?h [u]" for u v
    by (simp_all add: lua_push_def lua_settop_def upd_stack_def hand_def fun_eq_iff)
  have top: "lua_settop ?L 0 (lua_settop ?L 0 w) = lua_settop ?L 0 w"
    by (simp add: lua_settop_def upd_stack_def)
  consider (data) "0 < len" | (empty) "len = 0" | (eof) "len < 0" "sys_last_error sys (st_loop (w_state w s)) (w_ext w) = sys_UV_EOF sys"
    | (error) "len < 0" "sys_last_error sys (st_loop (w_state w s)) (w_ext w) \<noteq> sys_UV_EOF sys" by fastforce
  then show ?thesis
  proof cases
    case data
    then show ?thesis by (simp add: read_mem_ok [OF assms] read_result_def Let_def lua_push_defs push read_values_def)
  next
    case empty
    obtain rv w' where "luvL_stream_stop sys ob (?h [LNum (lua_number_of_int 0), LStr (chunk 0 buf)]) = Done rv w'"
      "quiet (?h [LNum (lua_number_of_int 0), LStr (chunk 0 buf)]) w'" using stream_stop_quiet by blast
    then show ?thesis
      using read_mem_ok [OF assms, of "?h [LNum (lua_number_of_int 0)]"] empty
      by (simp add: read_result_def Let_def lua_push_defs push read_values_def)
  next
    case eof
    then show ?thesis by (simp add: read_result_def Let_def lua_push_defs push top read_values_def)
  next
    case error
    let ?vs = "read_values sys len buf (st_loop (w_state w s)) (w_ext w)"
    obtain rv w1 where 1: "luvL_stream_stop sys ob (?h ?vs) = Done rv w1" "quiet (?h ?vs) w1" using stream_stop_quiet by blast
    obtain w2 where 2: "luvL_object_close sys ob w1 = Done () w2" "quiet w1 w2" using object_close_quiet by blast
    have "read_result sys ob s len buf w = Done () w2"
      using error 1(1) 2(1) by (simp add: read_result_def Let_def lua_push_defs push top read_values_def)
    with quiet_trans [OF 1(2) 2(2)] show ?thesis by blast
  qed
qed

text \<open>A state waits: it gets the data and is woken, as by a signal.\<close>

lemma read_cb_waiting:
  assumes inv: "sched_inv w a" and ob: "ob < w_nobject w" and s: "a_wait a (ORouse ob) = s # ss" and mem: "mem_ok len buf"
  shows "\<exists>w0 w'. read_cb sys ob len buf w = Done () w' \<and> api_steps (w, a) (w', a_signal w (ORouse ob) a) \<and>
    quiet (hand (read_values sys len buf (st_loop (w_state w s)) (w_ext w)) [s] w) w0 \<and> made_ready s w0 w'"
proof -
  let ?g = "ngx_queue_remove (SCond s)" and ?vs = "read_values sys len buf (st_loop (w_state w s)) (w_ext w)"
  note c = inv_object_cond [OF inv ob]
  obtain w1 where w1: "read_result sys ob s len buf (upd_queue ?g w) = Done () w1"
    "quiet (hand ?vs [s] (upd_queue ?g w)) w1"
    using read_result_quiet [OF mem, of sys ob s "upd_queue ?g w"] by auto
  then obtain obs x where "w1 = (hand ?vs [s] (upd_queue ?g w))\<lparr>w_object := obs, w_ext := x\<rparr>" by (auto simp: quiet_def)
  moreover define w0 where "w0 = (hand ?vs [s] w)\<lparr>w_object := obs, w_ext := x\<rparr>"
  ultimately have eq: "w1 = upd_queue ?g w0" by (intro world.equality) (simp_all add: hand_def fun_eq_iff)
  have q: "quiet (hand ?vs [s] w) w0" by (auto simp: quiet_def w0_def)
  then have core0: "core w0 = core w" using quiet_same(11) by fastforce
  note r = rouse_after [OF inv c s core0]
  from r(3) obtain w' where
    w': "luvL_state_ready s w1 = Done () w'" "api_steps (w, a) (w', a_signal w (ORouse ob) a)" "made_ready s w0 w'"
    unfolding eq by blast
  have "read_cb sys ob len buf w = Done () w'"
    using r(1,2) w1(1) w'(1) by (simp add: read_cb_def queue_data_def of_cond_def Let_def)
  with w' q show ?thesis by blast
qed

text \<open>Nobody waits: the data is kept and reading stops.\<close>

lemma stream_stop_eq:
  "\<exists>rv x. luvL_stream_stop sys ob w = Done rv (w\<lparr>w_object := (w_object w)(ob := (w_object w ob)\<lparr>o_flags := clear_flag LUV_OSTARTED (o_flags (w_object w ob))\<rparr>), w_ext := x\<rparr>)"
proof (cases "luvL_object_is_started (w_object w ob)")
  case True
  then show ?thesis by (auto simp: luvL_stream_stop_def uv_Done clear_oflag_def upd_object_def)
next
  case False
  then have "clear_flag LUV_OSTARTED (o_flags (w_object w ob)) = o_flags (w_object w ob)"
    by (simp add: luvL_object_is_started_def LUV_OSTARTED_def clear_flag_absent)
  with False show ?thesis by (auto simp: luvL_stream_stop_def intro!: exI [of _ "w_ext w"])
qed

lemma read_cb_idle:
  assumes inv: "sched_inv w a" and ob: "ob < w_nobject w" and none: "a_wait a (ORouse ob) = []"
  shows "\<exists>w'. read_cb sys ob len buf w = Done () w' \<and> quiet w w' \<and> \<not> luvL_object_is_started (w_object w' ob) \<and>
    w_object w' ob = (w_object w ob)\<lparr>o_flags := clear_flag LUV_OSTARTED (o_flags (w_object w ob)),
      o_count := (if len \<ge> 0 then c_int len else o_count (w_object w ob)),
      o_base := (if len \<ge> 0 then fst buf else o_base (w_object w ob)),
      o_len := (if len \<ge> 0 then snd buf else o_len (w_object w ob))\<rparr>"
proof -
  have rel: "sched_rel (running w) w a" using inv by (simp add: sched_inv_def)
  have e: "is_empty (ORouse ob) w" using cond_empty_iff [OF rel inv_object_cond [OF inv ob]] none by simp
  obtain rv x where st: "luvL_stream_stop sys ob w = Done rv (w\<lparr>w_object := (w_object w)(ob := (w_object w ob)\<lparr>o_flags := clear_flag LUV_OSTARTED (o_flags (w_object w ob))\<rparr>), w_ext := x\<rparr>)"
    using stream_stop_eq [of sys ob w] by (elim exE)
  have ns: "\<not> has_flag (clear_flag LUV_OSTARTED fl) LUV_OSTARTED" for fl
    by (simp add: LUV_OSTARTED_def has_flag_clear)
  show ?thesis
    using e st ns by (cases "len \<ge> 0") (auto simp: read_cb_def luvL_object_is_started_def upd_object_def)
qed

section \<open>Requests\<close>

lemma write_cb_steps:
  assumes "sched_inv w a" "s < w_nstate w" "ready w s \<or> \<not> a_waiting a s"
  shows "\<exists>w'. write_cb s n w = Done () w' \<and> api_steps (w, a) (w', a_make_ready w s a) \<and>
    made_ready s (hand [LNum (lua_number_of_int n)] [s] w) w'"
  using ready_after [OF assms core_hand, of "[LNum (lua_number_of_int n)]" "[s]"]
  by (auto simp: write_cb_def give_status_eq)

lemma shutdown_cb_steps:
  assumes inv: "sched_inv w a" and ob: "ob < w_nobject w"
  shows "\<exists>w'. shutdown_cb ob s n w = Done () w' \<and> api_steps (w, a) (w', a_signal w (ORouse ob) a)"
  using signal_after [OF inv inv_object_cond [OF inv ob] core_hand, of "[LNum (lua_number_of_int n)]" "[s]"]
  by (auto simp: shutdown_cb_def give_status_eq)

text \<open>A file request: the memory and the stack libuv and the caller leave for \<open>luv_fs_result\<close>.\<close>

definition fs_ok :: "'x sys \<Rightarrow> lid \<Rightarrow> sid \<Rightarrow> 'x world \<Rightarrow> bool" where
  "fs_ok sys L s w \<longleftrightarrow>
     (let r = sys_fs_req sys s (w_ext w)
      in fr_result r = - 1 \<or>
         fr_type r \<notin> {UV_FS_UNKNOWN, UV_FS_CUSTOM, UV_FS_SENDFILE} \<and> 0 \<le> fr_result r \<and>
         (fr_type r = UV_FS_OPEN \<longrightarrow> (\<exists>ob. check_object L (lua_gettop L w) LUV_FILE_T w = Done ob w)) \<and>
         (fr_type r = UV_FS_READ \<longrightarrow> fr_result r \<le> int (length (fr_data r))) \<and>
         (fr_type r = UV_FS_READDIR \<longrightarrow> dir_names (nat (c_int (fr_result r))) (fr_ptr r) \<noteq> None))"

lemma push_table_core [simp]: "core (push_table L kvs w) = core w"
  by (simp add: push_table_def split: prod.splits)

lemma fs_result_core:
  assumes "fs_ok sys L s w"
  shows "\<exists>w'. luv_fs_result sys L s w = Done () w' \<and> core w' = core w"
proof -
  define r where "r = sys_fs_req sys s (w_ext w)"
  have ok: "fs_ok sys L s w" by (rule assms)
  show ?thesis
  proof (cases "fr_result r = - 1")
    case True
    then show ?thesis by (simp add: luv_fs_result_def Let_def r_def uv_Done lua_push_defs)
  next
    case False
    with ok have h: "fr_type r \<notin> {UV_FS_UNKNOWN, UV_FS_CUSTOM, UV_FS_SENDFILE}" "0 \<le> fr_result r"
      "fr_type r = UV_FS_OPEN \<longrightarrow> (\<exists>ob. check_object L (lua_gettop L w) LUV_FILE_T w = Done ob w)"
      "fr_type r = UV_FS_READ \<longrightarrow> fr_result r \<le> int (length (fr_data r))"
      "fr_type r = UV_FS_READDIR \<longrightarrow> dir_names (nat (c_int (fr_result r))) (fr_ptr r) \<noteq> None"
      by (auto simp: fs_ok_def r_def Let_def)
    have rd: "read_mem (Some (fr_data r)) (fr_result r) w1 = Done (take (nat (fr_result r)) (fr_data r)) w1"
      if "fr_type r = UV_FS_READ" for w1 :: "'a world"
      using h(2,4) that by (simp add: read_mem_def)
    show ?thesis
      using False h rd
      by (cases "fr_type r")
        (auto simp: luv_fs_result_def Let_def r_def [symmetric] uv_Done lua_push_defs luv_push_stats_table_def)
  qed
qed

lemma fs_cb_steps:
  assumes inv: "sched_inv w a" and s: "s < w_nstate w" "ready w s \<or> \<not> a_waiting a s" and ok: "fs_ok sys (st_L (w_state w s)) s w"
  shows "\<exists>w1 w'. luv_fs_result sys (st_L (w_state w s)) s w = Done () w1 \<and> luv_fs_cb sys s w = Done () w' \<and>
    api_steps (w, a) (w', a_make_ready w s a) \<and> made_ready s w1 w'"
proof -
  obtain w1 where w1: "luv_fs_result sys (st_L (w_state w s)) s w = Done () w1" "core w1 = core w"
    using fs_result_core [OF ok] by blast
  with ready_after [OF inv s w1(2)] show ?thesis by (auto simp: luv_fs_cb_def)
qed

section \<open>Connections\<close>

lemma queue_init_idle: "queue q h [] \<Longrightarrow> ngx_queue_init h q = q"
  by (simp add: queue_def ngx_queue_init_def fun_upd_idem)

lemma object_init_core:
  assumes inv: "sched_inv w a" and ob: "conn < w_nobject w"
    and none: "a_wait a (ORouse conn) = []" "a_wait a (OQueue conn) = []"
  shows "core (luvL_object_init s conn w) = core w"
proof -
  have rel: "sched_rel (running w) w a" using inv by (simp add: sched_inv_def)
  note c = object_cond [OF rel ob]
  have "queue (w_queue w) (ORouse conn) []" "queue (w_queue w) (OQueue conn) []"
    using sched_queue [OF rel cond_head [OF c(1)]] sched_queue [OF rel cond_head [OF c(2)]] none by simp_all
  then show ?thesis by (simp add: luvL_object_init_def Let_def core_def queue_init_idle)
qed

text \<open>The first waiting state has passed a connection object nobody waits for.\<close>

definition accept_ok :: "oid \<Rightarrow> 'x world \<Rightarrow> asched \<Rightarrow> bool" where
  "accept_ok ob w a \<longleftrightarrow>
     (case a_wait a (ORouse ob) of
        [] \<Rightarrow> False
      | s # _ \<Rightarrow> (case lua_touserdata (st_L (w_state w s)) 2 w of
            Some (PObject conn) \<Rightarrow> conn < w_nobject w \<and> a_wait a (ORouse conn) = [] \<and> a_wait a (OQueue conn) = []
          | _ \<Rightarrow> False))"

lemma touserdata_type:
  "lua_touserdata L i w = Some p \<Longrightarrow> luaL_checktype L i LUA_TUSERDATA name w = Done () w"
  by (auto simp: lua_touserdata_def luaL_checktype_def split: option.splits lua_value.splits)

lemma listen_cb_waiting:
  assumes inv: "sched_inv w a" and ob: "ob < w_nobject w" and wt: "luvL_object_is_waiting (w_object w ob)"
    and s: "a_wait a (ORouse ob) = s # ss" and ok: "accept_ok ob w a"
  shows "\<exists>w'. listen_cb sys ob n w = Done () w' \<and> api_steps (w, a) (w', a_signal w (ORouse ob) a) \<and> ready w' s \<and>
    w_object w' ob = (w_object w ob)\<lparr>o_flags := clear_flag LUV_OWAITING (o_flags (w_object w ob))\<rparr>"
proof -
  have rel: "sched_rel (running w) w a" using inv by (simp add: sched_inv_def)
  note c = inv_object_cond [OF inv ob]
  from ok s obtain conn where conn: "lua_touserdata (st_L (w_state w s)) 2 w = Some (PObject conn)" "conn < w_nobject w"
    "a_wait a (ORouse conn) = []" "a_wait a (OQueue conn) = []"
    by (auto simp: accept_ok_def split: option.splits ptr.splits)
  have ne: "conn \<noteq> ob" using s conn(3) by auto
  let ?L = "st_L (w_state w s)" and ?i = "luvL_object_init s conn w"
  have hd: "ngx_queue_head (ORouse ob) (w_queue w) = SCond s" by (rule sched_unwait(1) [OF rel c s])
  obtain rv w2 where w2: "uv sys (Uv_accept ob conn) ?i = Done rv w2" "quiet ?i w2" "w_object w2 = w_object ?i"
    using uv_quiet by blast
  let ?e = "if rv \<noteq> 0 then push_nil_error sys ?L (sys_handle_loop sys ob (w_ext w2)) w2 else w2"
  let ?c = "clear_oflag LUV_OWAITING ob ?e"
  have e: "core ?e = core w2" "w_object ?e = w_object w2" by (simp_all add: push_nil_error_def lua_push_defs)
  have core4: "core ?c = core w"
    using e(1) quiet_same(11) [OF w2(2)] object_init_core [OF inv conn(2-4)] by simp
  from signal_after [OF inv c core4] obtain w' where
    w': "luvL_cond_signal (ORouse ob) ?c = Done 1 w'" "api_steps (w, a) (w', a_signal w (ORouse ob) a)" "made_ready s ?c w'"
    using s by auto
  have "listen_cb sys ob n w = Done () w'"
    using wt hd conn(1) w2(1) w'(1) touserdata_type [OF conn(1)]
    by (simp add: listen_cb_def queue_data_def of_cond_def as_object_def Let_def)
  moreover have "w_object w' ob = (w_object w ob)\<lparr>o_flags := clear_flag LUV_OWAITING (o_flags (w_object w ob))\<rparr>"
    using w'(3) e(2) w2(3) ne by (simp add: made_ready_def clear_oflag_def luvL_object_init_def Let_def)
  ultimately show ?thesis using w' by (auto simp: made_ready_def)
qed

lemma listen_cb_counts:
  "\<not> luvL_object_is_waiting (w_object w ob) \<Longrightarrow>
    listen_cb sys ob n w = Done () (upd_object ob (\<lambda>r. r\<lparr>o_count := c_int (o_count r + 1)\<rparr>) w)"
  by (simp add: listen_cb_def)

lemma listen_cb_steps:
  assumes inv: "sched_inv w a" and ob: "ob < w_nobject w" and ok: "luvL_object_is_waiting (w_object w ob) \<longrightarrow> accept_ok ob w a"
  shows "\<exists>w' a'. listen_cb sys ob n w = Done () w' \<and> api_steps (w, a) (w', a')"
proof (cases "luvL_object_is_waiting (w_object w ob)")
  case False
  have "api_step (w, a) (upd_object ob (\<lambda>r. r\<lparr>o_count := c_int (o_count r + 1)\<rparr>) w, a)"
    by (rule step_lua) simp
  with listen_cb_counts [OF False] show ?thesis by blast
next
  case True
  with ok obtain s ss where "a_wait a (ORouse ob) = s # ss" by (auto simp: accept_ok_def split: list.splits)
  from listen_cb_waiting [OF inv ob True this] ok True show ?thesis by blast
qed

section \<open>Datagrams and names\<close>

text \<open>An address of a family the callbacks know; they leave the buffer for the name unwritten otherwise.\<close>

definition inet_ok :: "sockaddr option \<Rightarrow> bool" where
  "inet_ok ai \<longleftrightarrow> (case ai of None \<Rightarrow> False | Some a \<Rightarrow> sa_family a = PF_INET \<or> sa_family a = PF_INET6)"

lemma hand_push:
  "lua_push (st_L (w_state w s)) v (hand vs [s] w) = hand (vs @ [v]) [s] w"
  "lua_settop (st_L (w_state w s)) 0 w = hand [] [s] w"
  by (simp_all add: lua_push_def lua_settop_def upd_stack_def hand_def fun_eq_iff)

lemma addrinfo_cb_steps:
  assumes inv: "sched_inv w a" and s: "s < w_nstate w" "ready w s \<or> \<not> a_waiting a s"
    and ai: "inet_ok (Some ai)"
  shows "\<exists>w0 w'. getaddrinfo_cb sys s st (Some ai) w = Done () w' \<and> api_steps (w, a) (w', a_make_ready w s a) \<and>
    quiet (hand [LStr (c_string (sa_host ai)), LNum (lua_number_of_int (uint (sa_port ai)))] [s] w) w0 \<and> made_ready s w0 w'"
proof -
  let ?h = "hand [LStr (c_string (sa_host ai)), LNum (lua_number_of_int (uint (sa_port ai)))] [s] w"
  let ?w0 = "?h\<lparr>w_ext := snd (sys_call sys (Uv_freeaddrinfo s) (w_ext w))\<rparr>"
  have core: "core ?w0 = core w" using quiet_same(11) [OF quiet_ext(1), of ?h] by simp
  from ready_after [OF inv s core] obtain w' where
    w': "luvL_state_ready s ?w0 = Done () w'" "api_steps (w, a) (w', a_make_ready w s a)" "made_ready s ?w0 w'" by blast
  have "getaddrinfo_cb sys s st (Some ai) w = Done () w'"
    using ai w'(1) by (auto simp: getaddrinfo_cb_def inet_ok_def lua_push_defs hand_push uv_Done Let_def)
  with w'(2,3) show ?thesis by (intro exI [of _ ?w0] exI [of _ w']) simp
qed

text \<open>The callback of a failed lookup reads through the null pointer libuv passes.\<close>

lemma addrinfo_cb_failed: "getaddrinfo_cb sys s st None w = Fail Null_Deref"
  by (simp add: getaddrinfo_cb_def deref_def)

text \<open>
  A datagram: every waiting state has its message, host and port on its stack, as many bytes as the
  buffer is long, but only the first one is woken.
\<close>

definition datagram_values :: "uv_buf \<Rightarrow> sockaddr \<Rightarrow> lua_value list" where
  "datagram_values buf peer =
     [LStr (chunk (snd buf) buf), LStr (c_string (sa_host peer)), LNum (lua_number_of_int (uint (sa_port peer)))]"

lemma recv_cb_steps:
  assumes inv: "sched_inv w a" and ob: "ob < w_nobject w"
    and buf: "0 \<le> snd buf" "mem_ok (snd buf) buf" and peer: "inet_ok (Some peer)"
  shows "\<exists>w'. recv_cb ob n buf (Some peer) w = Done () w' \<and> api_steps (w, a) (w', a_signal w (ORouse ob) a) \<and>
    (case a_wait a (ORouse ob) of [] \<Rightarrow> w' = hand (datagram_values buf peer) [] w
     | s # ss \<Rightarrow> made_ready s (hand (datagram_values buf peer) (s # ss) w) w')"
proof -
  note c = inv_object_cond [OF inv ob]
  have "recv_result buf (Some peer) s w = Done () (hand (datagram_values buf peer) [s] w)" for s and w :: "'a world"
    using peer
    by (auto simp: read_mem_ok [OF buf(2,1)] recv_result_def inet_ok_def lua_push_defs hand_push datagram_values_def Let_def)
  from visit_hand [of "recv_result buf (Some peer)", OF this]
  have "foreach_waiting (ORouse ob) (recv_result buf (Some peer)) w = Done () (hand (datagram_values buf peer) (a_wait a (ORouse ob)) w)"
    by (simp add: foreach_waiting_eq [OF inv c])
  with signal_after [OF inv c core_hand, of "datagram_values buf peer" "a_wait a (ORouse ob)"] show ?thesis
    by (auto simp: recv_cb_def split: list.splits)
qed

end
