(* ===== verification/Luv_Zmq.thy ===== *)
theory Luv_Zmq
  imports Luv_Net
begin

text \<open>
  ZeroMQ sockets (\<open>src/src/luv_zmq.c\<close>).  The member \<open>data\<close> of an object is the context or the socket.
  A state that cannot receive at once waits in the queue \<open>rouse\<close> of the socket, a state that cannot
  send in the queue \<open>queue\<close>, and the callback of the poll handle tries again for the first of them.
  The flags of sockets are bits of the same word as the flags of objects.
\<close>

definition LUV_ZMQ_SCLOSED :: u32 where "LUV_ZMQ_SCLOSED = flag_bit 0"
definition LUV_ZMQ_XDUPCTX :: u32 where "LUV_ZMQ_XDUPCTX = flag_bit 1"
definition LUV_ZMQ_WSEND :: u32 where "LUV_ZMQ_WSEND = flag_bit 2"
definition LUV_ZMQ_WRECV :: u32 where "LUV_ZMQ_WRECV = flag_bit 3"

definition has_oflag :: "u32 \<Rightarrow> oid \<Rightarrow> 'x world \<Rightarrow> bool" where
  "has_oflag f ob w = has_flag (o_flags (w_object w ob)) f"

text \<open>Poll events, and a pointer returned as a number.\<close>

definition ZMQ_POLLIN :: int where "ZMQ_POLLIN = 1"
definition ZMQ_POLLOUT :: int where "ZMQ_POLLOUT = 2"
definition UV_READABLE :: int where "UV_READABLE = 1"
definition ZMQ_IO_THREADS :: int where "ZMQ_IO_THREADS = 1"

definition as_pointer :: "int \<Rightarrow> nat option" where
  "as_pointer n = (if n = 0 then None else Some (nat n))"

abbreviation o_socket :: "oid \<Rightarrow> 'x world \<Rightarrow> nat option" where
  "o_socket ob w \<equiv> o_data (w_object w ob)"

section \<open>Trying to send and receive\<close>

definition luvL_zmq_socket_readable :: "'x sys \<Rightarrow> nat option \<Rightarrow> ('x, int) luv" where
  "luvL_zmq_socket_readable sys socket w = uv sys (Zmq_poll socket ZMQ_POLLIN) w"

definition luvL_zmq_socket_writable :: "'x sys \<Rightarrow> nat option \<Rightarrow> ('x, int) luv" where
  "luvL_zmq_socket_writable sys socket w = uv sys (Zmq_poll socket ZMQ_POLLOUT) w"

definition luvL_zmq_socket_send :: "'x sys \<Rightarrow> oid \<Rightarrow> sid \<Rightarrow> ('x, int) luv" where
  "luvL_zmq_socket_send sys self state w =
     bindR (luaL_checklstring sys (st_L (w_state w state)) 2 w) (\<lambda>data w.
     bindR (uv sys (Zmq_msg_init_size (length data)) w) (\<lambda>rv w.
       if rv \<noteq> 0 then Raise (LStr (sys_errtext sys (sys_errno sys (w_ext w)))) w
       else bindR (uv sys (Zmq_msg_send (o_socket self w) data) w) (\<lambda>rv w.
            bindR (uv sys Zmq_msg_close w) (\<lambda>_ w. Done rv w))))"

definition luvL_zmq_socket_recv :: "'x sys \<Rightarrow> oid \<Rightarrow> sid \<Rightarrow> ('x, int) luv" where
  "luvL_zmq_socket_recv sys self state w =
     bindR (uv sys Zmq_msg_init w) (\<lambda>_ w.
     bindR (uv sys (Zmq_msg_recv (o_socket self w)) w) (\<lambda>rv w.
       if rv < 0 then bindR (uv sys Zmq_msg_close w) (\<lambda>_ w. Done rv w)
       else
         let L = st_L (w_state w state); data = sys_zmq_message sys (w_ext w);
             w = lua_pushlstring L data (lua_settop L 0 w)
         in bindR (uv sys Zmq_msg_close w) (\<lambda>_ w. Done rv w)))"

section \<open>The callback\<close>

text \<open>
  \<open>lua_settop(L, 0)\<close>, \<open>false\<close> and the text of the current error: of \<open>strerror\<close> or of \<open>zmq_strerror\<close>;
  \<open>zmq_errno\<close> reads \<open>errno\<close>.
\<close>

definition push_false_errno :: "'x sys \<Rightarrow> (int \<Rightarrow> bytes) \<Rightarrow> lid \<Rightarrow> 'x world \<Rightarrow> 'x world" where
  "push_false_errno sys text L w =
     lua_pushstring L (text (sys_errno sys (w_ext w))) (lua_pushboolean L False (lua_settop L 0 w))"

definition would_block :: "'x sys \<Rightarrow> 'x world \<Rightarrow> bool" where
  "would_block sys w \<longleftrightarrow> sys_errno sys (w_ext w) = sys_EAGAIN sys \<or> sys_errno sys (w_ext w) = sys_EWOULDBLOCK sys"

text \<open>The branch for a receiving state, once \<open>zmq_poll\<close> has answered \<open>readable\<close>, not 0.\<close>

definition poll_recv :: "'x sys \<Rightarrow> oid \<Rightarrow> int \<Rightarrow> ('x, unit) luv" where
  "poll_recv sys self readable w =
     (let w = clear_oflag LUV_ZMQ_WRECV self w; q = ngx_queue_head (ORouse self) (w_queue w)
      in bindR (queue_data of_cond q w) (\<lambda>state w.
         let w = upd_queue (ngx_queue_remove q) w; L = st_L (w_state w state)
         in bindR (if readable < 0 then Done () (push_false_errno sys (sys_errtext sys) L w)
                   else bindR (luvL_zmq_socket_recv sys self state w) (\<lambda>rv w.
                          if rv < 0 \<and> \<not> would_block sys w then Done () (push_false_errno sys (sys_errtext sys) L w) else Done () w)) (\<lambda>_ w.
            luvL_state_ready state w)))"

definition poll_send :: "'x sys \<Rightarrow> oid \<Rightarrow> int \<Rightarrow> ('x, unit) luv" where
  "poll_send sys self writable w =
     (let w = clear_oflag LUV_ZMQ_WSEND self w; q = ngx_queue_head (OQueue self) (w_queue w)
      in bindR (queue_data of_cond q w) (\<lambda>state w.
         let w = upd_queue (ngx_queue_remove q) w; L = st_L (w_state w state)
         in bindR (if writable < 0 then Done () (push_false_errno sys (sys_zmq_errtext sys) L w)
                   else bindR (luvL_zmq_socket_send sys self state w) (\<lambda>rv w.
                          if rv < 0 then Done () (push_false_errno sys (sys_zmq_errtext sys) L w) else Done () w)) (\<lambda>_ w.
            luvL_state_ready state w)))"

definition poll_wsend :: "'x sys \<Rightarrow> oid \<Rightarrow> ('x, unit) luv" where
  "poll_wsend sys self w =
     (if has_oflag LUV_ZMQ_WSEND self w
      then bindR (luvL_zmq_socket_writable sys (o_socket self w) w) (\<lambda>writable w.
             if writable = 0 then Done () w else poll_send sys self writable w)
      else Done () w)"

definition zmq_poll_cb :: "'x sys \<Rightarrow> oid \<Rightarrow> int \<Rightarrow> int \<Rightarrow> ('x, unit) luv" where
  "zmq_poll_cb sys self status events w =
     (if has_oflag LUV_ZMQ_WRECV self w
      then bindR (luvL_zmq_socket_readable sys (o_socket self w) w) (\<lambda>readable w.
             if readable = 0 then poll_wsend sys self w else poll_recv sys self readable w)
      else poll_wsend sys self w)"

section \<open>Contexts and sockets\<close>

definition set_data :: "oid \<Rightarrow> nat option \<Rightarrow> 'x world \<Rightarrow> 'x world" where
  "set_data ob p = upd_object ob (\<lambda>r. r\<lparr>o_data := p\<rparr>)"

definition luv_new_zmq :: "'x sys \<Rightarrow> lid \<Rightarrow> ('x, int) luv" where
  "luv_new_zmq sys L w =
     bindR (luvL_thread_self L w) (\<lambda>thread w.
     bindR (luaL_optinteger sys L 2 1 w) (\<lambda>nthreads w.
     let (self, w) = new_object L LUV_ZMQ_CTX_T w; w = luvL_object_init thread self w
     in bindR (uv sys Zmq_ctx_new w) (\<lambda>ctx w.
        let w = set_data self (as_pointer ctx) w
        in bindR (uv sys (Zmq_ctx_set (o_socket self w) ZMQ_IO_THREADS (c_int nthreads)) w) (\<lambda>_ w. Done 1 w))))"

definition ZMQ_FD :: int where "ZMQ_FD = 14"

definition luv_zmq_ctx_socket :: "'x sys \<Rightarrow> lid \<Rightarrow> ('x, int) luv" where
  "luv_zmq_ctx_socket sys L w =
     (let p = lua_touserdata L 1 w
      in bindR (luaL_checkint sys L 2 w) (\<lambda>type w.
         let cur = luvL_state_self L w; (self, w) = new_object L LUV_ZMQ_SOCKET_T w
         in bindR (deref cur w) (\<lambda>cur w.
            let w = luvL_object_init cur self w
            in bindR (as_object p w) (\<lambda>ctx w.
               bindR (uv sys (Zmq_socket (o_socket ctx w) type) w) (\<lambda>s w.
               let w = set_data self (as_pointer s) w
               in bindR (uv sys (Zmq_getsockopt (o_socket self w) ZMQ_FD) w) (\<lambda>rv w.
                  bindR (if rv = 0 then Done (sys_zmq_number sys (w_ext w)) w else Fail Uninitialized) (\<lambda>socket w.
                  bindR (luvL_event_loop L w) (\<lambda>loop w.
                  bindR (uv sys (Uv_poll_init_socket loop self socket) w) (\<lambda>_ w.
                  bindR (uv sys (Uv_poll_start self UV_READABLE) w) (\<lambda>_ w. Done 1 w)))))))))) "

definition luv_zmq_socket_bind :: "'x sys \<Rightarrow> lid \<Rightarrow> ('x, int) luv" where
  "luv_zmq_socket_bind sys L w =
     bindR (check_object L 1 LUV_ZMQ_SOCKET_T w) (\<lambda>self w.
     bindR (luaL_checkstring sys L 2 w) (\<lambda>addr w.
     bindR (uv sys (Zmq_bind (o_socket self w) addr) w) (\<lambda>rv w. Done 1 (lua_pushinteger L rv w))))"

definition luv_zmq_socket_connect :: "'x sys \<Rightarrow> lid \<Rightarrow> ('x, int) luv" where
  "luv_zmq_socket_connect sys L w =
     bindR (check_object L 1 LUV_ZMQ_SOCKET_T w) (\<lambda>self w.
     bindR (luaL_checkstring sys L 2 w) (\<lambda>addr w.
     bindR (uv sys (Zmq_connect (o_socket self w) addr) w) (\<lambda>rv w. Done 1 (lua_pushinteger L rv w))))"

definition luv_zmq_socket_send :: "'x vm \<Rightarrow> 'x sys \<Rightarrow> lid \<Rightarrow> ('x, int) luv" where
  "luv_zmq_socket_send vm sys L w =
     bindR (check_object L 1 LUV_ZMQ_SOCKET_T w) (\<lambda>self w.
     bindR (deref (luvL_state_self L w) w) (\<lambda>cur w.
     bindR (luvL_zmq_socket_send sys self cur w) (\<lambda>rv w.
       if rv < 0 then
         if would_block sys w
         then luvL_cond_wait vm (OQueue self) cur (set_oflag LUV_ZMQ_WSEND self w)
         else Done 2 (push_false_errno sys (sys_errtext sys) L w)
       else Done 2 w)))"

definition luv_zmq_socket_recv :: "'x vm \<Rightarrow> 'x sys \<Rightarrow> lid \<Rightarrow> ('x, int) luv" where
  "luv_zmq_socket_recv vm sys L w =
     bindR (check_object L 1 LUV_ZMQ_SOCKET_T w) (\<lambda>self w.
     bindR (deref (luvL_state_self L w) w) (\<lambda>cur w.
     bindR (luvL_zmq_socket_recv sys self cur w) (\<lambda>rv w.
       if rv < 0 then
         if would_block sys w
         then luvL_cond_wait vm (ORouse self) cur (set_oflag LUV_ZMQ_WRECV self w)
         else Done 2 (push_false_errno sys (sys_zmq_errtext sys) L w)
       else Done 1 w)))"

text \<open>The shared end of \<open>close\<close> and \<open>__gc\<close>.\<close>

definition zmq_close_object :: "'x sys \<Rightarrow> oid \<Rightarrow> ('x, int) luv" where
  "zmq_close_object sys self w =
     (if \<not> luvL_object_is_closing (w_object w self)
      then bindR (uv sys (Zmq_close (o_socket self w)) w) (\<lambda>_ w.
           bindR (uv sys (Uv_poll_stop self) w) (\<lambda>_ w.
           bindR (luvL_object_close sys self w) (\<lambda>_ w. Done 1 w)))
      else Done 1 w)"

definition luv_zmq_socket_close :: "'x sys \<Rightarrow> lid \<Rightarrow> ('x, int) luv" where
  "luv_zmq_socket_close sys L w =
     bindR (check_object L 1 LUV_ZMQ_SOCKET_T w) (\<lambda>self w. zmq_close_object sys self w)"

definition luv_zmq_socket_free :: "'x sys \<Rightarrow> lid \<Rightarrow> ('x, int) luv" where
  "luv_zmq_socket_free sys L w =
     bindR (as_object (lua_touserdata L 1 w) w) (\<lambda>self w. zmq_close_object sys self w)"

section \<open>Options\<close>

text \<open>The names by number; the list is the table of the source.\<close>

definition LUV_ZMQ_SOCKOPTS :: "string list" where
  "LUV_ZMQ_SOCKOPTS =
     [[], [], [], [], ''AFFINITY'', ''IDENTITY'', ''SUBSCRIBE'', ''UNSUBSCRIBE'', ''RATE'', ''RECOVERY_IVL'', [],
      ''SNDBUF'', ''RCVBUF'', ''RCVMORE'', ''FD'', ''EVENTS'', ''TYPE'', ''LINGER'', ''RECONNECT_IVL'', ''BACKLOG'',
      [], ''RECONNECT_IVL_MAX'', ''MAXMSGSIZE'', ''SNDHWM'', ''RCVHWM'', ''MULTICAST_HOPS'', [], ''RCVTIMEO'',
      ''SNDTIMEO'', [], [], ''IPV4ONLY'', ''LAST_ENDPOINT'', ''ROUTER_BEHAVIOR'', ''TCP_KEEPALIVE'',
      ''TCP_KEEPALIVE_CNT'', ''TCP_KEEPALIVE_IDLE'', ''TCP_KEEPALIVE_INTVL'', ''TCP_ACCEPT_FILTER'']"

definition zmq_opt :: "string \<Rightarrow> int" where
  "zmq_opt name = (case option_index (str name) LUV_ZMQ_SOCKOPTS of Some k \<Rightarrow> int k | None \<Rightarrow> - 1)"

definition zmq_check_opt :: "'x sys \<Rightarrow> lid \<Rightarrow> ('x, int) luv" where
  "zmq_check_opt sys L w =
     (case lua_arg L 2 w of
        Some (LStr _) \<Rightarrow> bindR (luaL_checkoption sys L 2 LUV_ZMQ_SOCKOPTS w) (\<lambda>k w. Done (int k) w)
      | _ \<Rightarrow> luaL_checkint sys L 2 w)"

definition zmq_int_opts :: "int list" where
  "zmq_int_opts = map zmq_opt [''SNDHWM'', ''RCVHWM'', ''RATE'', ''RECOVERY_IVL'', ''SNDBUF'', ''RCVBUF'', ''LINGER'',
     ''RECONNECT_IVL'', ''RECONNECT_IVL_MAX'', ''BACKLOG'', ''MULTICAST_HOPS'', ''RCVTIMEO'', ''SNDTIMEO'',
     ''ROUTER_BEHAVIOR'', ''TCP_KEEPALIVE'', ''TCP_KEEPALIVE_CNT'', ''TCP_KEEPALIVE_IDLE'', ''TCP_KEEPALIVE_INTVL'']"

text \<open>\<open>lua_tointeger(L, 2)\<close> is 0 for a value that is not a number or numeral.\<close>

definition lua_tointeger :: "'x sys \<Rightarrow> lid \<Rightarrow> nat \<Rightarrow> 'x world \<Rightarrow> int" where
  "lua_tointeger sys L i w = (case Option.bind (lua_arg L i w) (sys_tointeger sys) of Some n \<Rightarrow> n | None \<Rightarrow> 0)"

text \<open>
  The value passed to \<open>zmq_setsockopt\<close>: it is read from index 2, which is the option itself; for
  strings the address of the pointer is passed, and \<open>len\<close> bytes are read there.
\<close>

definition zmq_set_value :: "'x sys \<Rightarrow> lid \<Rightarrow> int \<Rightarrow> ('x, zmq_value) luv" where
  "zmq_set_value sys L opt w =
     (if opt \<in> set zmq_int_opts then Done (Zmq_number (c_int (lua_tointeger sys L 2 w)) 4) w
      else if opt = zmq_opt ''AFFINITY'' then Done (Zmq_number (c_size (lua_tointeger sys L 2 w)) 8) w
      else if opt = zmq_opt ''MAXMSGSIZE'' then Done (Zmq_number (lua_tointeger sys L 2 w) 8) w
      else if opt = zmq_opt ''IPV4ONLY'' then Done (Zmq_number (of_bool (lua_toboolean L 2 w)) 4) w
      else if opt \<in> set (map zmq_opt [''IDENTITY'', ''SUBSCRIBE'', ''UNSUBSCRIBE'', ''TCP_ACCEPT_FILTER'']) then
        let len = (case Option.bind (lua_arg L 2 w) (lua_text sys) of Some s \<Rightarrow> length s | None \<Rightarrow> 0)
        in if len \<le> 8 then Done (Zmq_pointer_bytes len) w else Fail Out_Of_Bounds
      else if opt \<in> set (map zmq_opt [''RCVMORE'', ''FD'', ''EVENTS'', ''TYPE'', ''LAST_ENDPOINT''])
      then Raise (lua_msg ''readonly option'') w
      else Raise (lua_msg ''invalid option'') w)"

definition luv_zmq_socket_setsockopt :: "'x sys \<Rightarrow> lid \<Rightarrow> ('x, int) luv" where
  "luv_zmq_socket_setsockopt sys L w =
     bindR (check_object L 1 LUV_ZMQ_SOCKET_T w) (\<lambda>self w.
     bindR (zmq_check_opt sys L w) (\<lambda>opt w.
     bindR (zmq_set_value sys L opt w) (\<lambda>val w.
     bindR (uv sys (Zmq_setsockopt (o_socket self w) opt val) w) (\<lambda>rv w.
       if rv < 0
       then Done 2 (lua_pushstring L (sys_zmq_errtext sys (sys_errno sys (w_ext w))) (lua_pushboolean L False w))
       else Done 1 (lua_pushboolean L True w)))))"

text \<open>
  \<open>zmq_getsockopt\<close> into a variable that holds \<open>start\<close>, or nothing yet; the result is not looked at.
\<close>

definition zmq_get_number :: "'x sys \<Rightarrow> oid \<Rightarrow> int \<Rightarrow> int option \<Rightarrow> ('x, int) luv" where
  "zmq_get_number sys self opt start w =
     bindR (uv sys (Zmq_getsockopt (o_socket self w) opt) w) (\<lambda>rv w.
       if rv = 0 then Done (sys_zmq_number sys (w_ext w)) w
       else case start of Some n \<Rightarrow> Done n w | None \<Rightarrow> Fail Uninitialized)"

definition luv_zmq_socket_getsockopt :: "'x sys \<Rightarrow> lid \<Rightarrow> ('x, int) luv" where
  "luv_zmq_socket_getsockopt sys L w =
     bindR (check_object L 1 LUV_ZMQ_SOCKET_T w) (\<lambda>self w.
     bindR (zmq_check_opt sys L w) (\<lambda>opt w.
       if opt \<in> set (zmq_int_opts @ map zmq_opt [''TYPE'', ''RCVMORE'', ''EVENTS''])
       then bindR (zmq_get_number sys self opt None w) (\<lambda>n w. Done 1 (lua_pushinteger L n w))
       else if opt = zmq_opt ''AFFINITY''
       then bindR (zmq_get_number sys self opt (Some (c_size (lua_tointeger sys L 2 w))) w) (\<lambda>n w.
              Done 1 (lua_pushinteger L (sint (word_of_int n :: u64)) w))
       else if opt = zmq_opt ''MAXMSGSIZE''
       then bindR (zmq_get_number sys self opt (Some (lua_tointeger sys L 2 w)) w) (\<lambda>n w. Done 1 (lua_pushinteger L n w))
       else if opt = zmq_opt ''IPV4ONLY''
       then bindR (zmq_get_number sys self opt (Some (of_bool (lua_toboolean L 2 w))) w) (\<lambda>n w.
              Done 1 (lua_pushboolean L (n \<noteq> 0) w))
       else if opt = zmq_opt ''IDENTITY'' \<or> opt = zmq_opt ''LAST_ENDPOINT''
       then bindR (uv sys (Zmq_getsockopt (o_socket self w) opt) w) (\<lambda>rv w.
              if rv = 0 then Done 1 (lua_pushlstring L (sys_zmq_option sys (w_ext w)) w) else Fail Uninitialized)
       else if opt = zmq_opt ''FD''
       then bindR (uv sys (Zmq_getsockopt (o_socket self w) opt) w) (\<lambda>_ w.
              let (u, w) = new_udata [] (PObject self) w
              in Raise (lua_msg ''writeonly option'') (lua_push L u w))
       else if opt \<in> set (map zmq_opt [''SUBSCRIBE'', ''UNSUBSCRIBE'', ''TCP_ACCEPT_FILTER''])
       then Raise (lua_msg ''writeonly option'') w
       else Raise (lua_msg ''invalid option'') w))"

section \<open>Passing a context to another thread\<close>

definition luv_zmq_ctx_encoder :: "lid \<Rightarrow> ('x, int) luv" where
  "luv_zmq_ctx_encoder L w =
     bindR (check_object L 1 LUV_ZMQ_CTX_T w) (\<lambda>self w.
       let w = lua_pushstring L (str ''luv:zmq:decoder'') w
       in Done 2 (lua_push L (LLight (case o_socket self w of None \<Rightarrow> 0 | Some p \<Rightarrow> word_of_nat p)) w))"

definition luvL_zmq_ctx_decoder :: "lid \<Rightarrow> ('x, int) luv" where
  "luvL_zmq_ctx_decoder L w =
     (let cur = luvL_state_self L w
      in case rev (w_stack w L) of
           LLight p # _ \<Rightarrow>
             let (copy, w) = new_object L LUV_ZMQ_CTX_T w
             in bindR (deref cur w) (\<lambda>cur w.
                  let w = luvL_object_init cur copy w; w = set_data copy (as_pointer (uint p)) w
                  in Done 1 (upd_object copy (\<lambda>r. r\<lparr>o_flags := LUV_ZMQ_XDUPCTX\<rparr>) w))
         | _ \<Rightarrow> Raise (lua_msg ''light userdata expected'') w)"

definition luv_zmq_ctx_free :: "'x sys \<Rightarrow> lid \<Rightarrow> ('x, int) luv" where
  "luv_zmq_ctx_free sys L w =
     bindR (check_object L 1 LUV_ZMQ_CTX_T w) (\<lambda>self w.
     bindR (if \<not> has_oflag LUV_ZMQ_XDUPCTX self w
            then bindR (uv sys (Zmq_ctx_destroy (o_socket self w)) w) (\<lambda>_ w. Done () w) else Done () w) (\<lambda>_ w.
       Done 1 (set_data self None w)))"

end
