(* ===== verification/Zmq_Events.thy ===== *)
theory Zmq_Events
  imports Handle_Events Luv_Zmq
begin

text \<open>
  The callback of a ZeroMQ socket against the abstract scheduler: whatever the socket answers, the
  callback wakes at most one state, the one that has waited longest to receive or to send.
\<close>

section \<open>Changes of stacks and of the system\<close>

definition stacks_only :: "'x world \<Rightarrow> 'x world \<Rightarrow> bool" where
  "stacks_only w w' \<longleftrightarrow> (\<exists>st x. w' = w\<lparr>w_stack := st, w_ext := x\<rparr>)"

lemma stacks_only_simps [simp]:
  "stacks_only w w" "stacks_only w (w\<lparr>w_ext := x\<rparr>)" "stacks_only w (lua_push L v w)" "stacks_only w (lua_settop L n w)"
  unfolding stacks_only_def
  by (rule exI [of _ "w_stack w"], rule exI [of _ "w_ext w"], simp)
    (rule exI [of _ "w_stack w"], rule exI [of _ x], simp,
      auto simp: lua_push_def lua_settop_def upd_stack_def intro!: exI [of _ "w_ext w"])

lemma stacks_only_trans: "stacks_only w w1 \<Longrightarrow> stacks_only w1 w2 \<Longrightarrow> stacks_only w w2"
  unfolding stacks_only_def by (elim exE, simp) blast

lemma push_false_stacks: "stacks_only w (push_false_errno sys text L w)"
  unfolding push_false_errno_def lua_push_defs
  by (rule stacks_only_trans [OF stacks_only_trans [OF stacks_only_simps(4,3)] stacks_only_simps(3)])

lemma zmq_recv_stacks: "\<exists>rv w'. luvL_zmq_socket_recv sys ob s w = Done rv w' \<and> stacks_only w w'"
proof -
  let ?x1 = "snd (sys_call sys Zmq_msg_init (w_ext w))"
  let ?r = "sys_call sys (Zmq_msg_recv (o_socket ob w)) ?x1" and ?L = "st_L (w_state w s)"
  let ?w2 = "w\<lparr>w_ext := snd ?r\<rparr>" and ?x3 = "snd (sys_call sys Zmq_msg_close (snd ?r))"
  let ?w3 = "lua_push ?L (LStr (sys_zmq_message sys (snd ?r))) (lua_settop ?L 0 ?w2)"
  have "stacks_only w ?w3" using stacks_only_trans [OF stacks_only_trans [OF stacks_only_simps(2,4)] stacks_only_simps(3)] .
  then have "stacks_only w (?w3\<lparr>w_ext := ?x3\<rparr>)" by (rule stacks_only_trans) simp
  moreover have "stacks_only w (w\<lparr>w_ext := ?x3\<rparr>)" by simp
  ultimately show ?thesis
    by (cases "fst ?r < 0") (auto simp: luvL_zmq_socket_recv_def uv_Done lua_push_defs Let_def)
qed

text \<open>A state that waits to send has its message at index 2, and memory for it is available.\<close>

definition send_ok :: "'x sys \<Rightarrow> sid \<Rightarrow> 'x world \<Rightarrow> bool" where
  "send_ok sys s w \<longleftrightarrow>
     (\<exists>data. lua_arg (st_L (w_state w s)) 2 w = Some (LStr data)) \<and> (\<forall>n x. fst (sys_call sys (Zmq_msg_init_size n) x) = 0)"

lemma zmq_send_stacks:
  assumes "send_ok sys s w"
  shows "\<exists>rv w'. luvL_zmq_socket_send sys ob s w = Done rv w' \<and> stacks_only w w'"
  using assms by (auto simp: send_ok_def luvL_zmq_socket_send_def luaL_checklstring_def lua_text_def uv_Done)

section \<open>Waking one state\<close>

text \<open>
  The shape of both branches: a flag is cleared, the first state leaves the queue, something happens to
  its stack, and it is made ready.
\<close>

lemma wake_first:
  assumes inv: "sched_inv w a" and c: "c \<in> a_conds a" and s: "a_wait a c = s # ss"
    and body: "body s (upd_queue (ngx_queue_remove (SCond s)) (clear_oflag F ob w)) = Done u w1"
      "stacks_only (upd_queue (ngx_queue_remove (SCond s)) (clear_oflag F ob w)) w1"
  shows "\<exists>w'. (let w = clear_oflag F ob w; q = ngx_queue_head c (w_queue w)
      in bindR (queue_data of_cond q w) (\<lambda>state w.
         let w = upd_queue (ngx_queue_remove q) w
         in bindR (body state w) (\<lambda>_ w. luvL_state_ready state w))) = Done () w' \<and> api_steps (w, a) (w', a_signal w c a)"
proof -
  let ?g = "ngx_queue_remove (SCond s)" and ?c = "clear_oflag F ob w"
  obtain st x where w1: "w1 = (upd_queue ?g ?c)\<lparr>w_stack := st, w_ext := x\<rparr>" using body(2) by (auto simp: stacks_only_def)
  define w0 where "w0 = ?c\<lparr>w_stack := st, w_ext := x\<rparr>"
  have eq: "w1 = upd_queue ?g w0" by (intro world.equality) (simp_all add: w1 w0_def)
  have "core w0 = core ?c" by (simp add: w0_def core_def Let_def)
  then have core0: "core w0 = core w" by simp
  note r = rouse_after [OF inv c s core0]
  have hd: "ngx_queue_head c (w_queue ?c) = SCond s" using r(1) by (simp add: clear_oflag_def)
  from r(3) show ?thesis unfolding eq [symmetric] using hd body(1) by (auto simp: queue_data_def of_cond_def Let_def)
qed

text \<open>The flags say that somebody waits.\<close>

definition poll_ok :: "'x sys \<Rightarrow> oid \<Rightarrow> 'x world \<Rightarrow> asched \<Rightarrow> bool" where
  "poll_ok sys ob w a \<longleftrightarrow>
     ob < w_nobject w \<and> (has_oflag LUV_ZMQ_WRECV ob w \<longrightarrow> a_wait a (ORouse ob) \<noteq> []) \<and>
     (has_oflag LUV_ZMQ_WSEND ob w \<longrightarrow> (case a_wait a (OQueue ob) of [] \<Rightarrow> False | s # _ \<Rightarrow> send_ok sys s w))"

lemma poll_recv_any:
  assumes inv: "sched_inv w a" and ob: "ob < w_nobject w" and s: "a_wait a (ORouse ob) = s # ss"
  shows "\<exists>w'. poll_recv sys ob rd w = Done () w' \<and> api_steps (w, a) (w', a_signal w (ORouse ob) a)"
proof -
  define body where "body = (\<lambda>state w. if rd < 0 then Done () (push_false_errno sys (sys_errtext sys) (st_L (w_state w state)) w)
      else bindR (luvL_zmq_socket_recv sys ob state w) (\<lambda>rv w'.
             if rv < 0 \<and> \<not> would_block sys w' then Done () (push_false_errno sys (sys_errtext sys) (st_L (w_state w state)) w') else Done () w'))"
  have "\<exists>w1. body s v = Done () w1 \<and> stacks_only v w1" for v
    using zmq_recv_stacks [of sys ob s v] push_false_stacks stacks_only_trans [OF _ push_false_stacks]
    by (auto simp: body_def split: if_splits)
  then obtain w1 where "body s (upd_queue (ngx_queue_remove (SCond s)) (clear_oflag LUV_ZMQ_WRECV ob w)) = Done () w1"
    "stacks_only (upd_queue (ngx_queue_remove (SCond s)) (clear_oflag LUV_ZMQ_WRECV ob w)) w1" by blast
  from wake_first [where body = body, OF inv inv_object_cond [OF inv ob] s this] show ?thesis
    by (simp add: poll_recv_def body_def Let_def)
qed

lemma poll_send_any:
  assumes inv: "sched_inv w a" and ob: "ob < w_nobject w" and s: "a_wait a (OQueue ob) = s # ss" and ok: "send_ok sys s w"
  shows "\<exists>w'. poll_send sys ob wr w = Done () w' \<and> api_steps (w, a) (w', a_signal w (OQueue ob) a)"
proof -
  define body where "body = (\<lambda>state w. if wr < 0 then Done () (push_false_errno sys (sys_zmq_errtext sys) (st_L (w_state w state)) w)
      else bindR (luvL_zmq_socket_send sys ob state w) (\<lambda>rv w'.
             if rv < 0 then Done () (push_false_errno sys (sys_zmq_errtext sys) (st_L (w_state w state)) w') else Done () w'))"
  let ?v = "upd_queue (ngx_queue_remove (SCond s)) (clear_oflag LUV_ZMQ_WSEND ob w)"
  have "lua_arg L i ?v = lua_arg L i w" "w_state ?v = w_state w" for L i by (simp_all add: lua_arg_def lua_gettop_def clear_oflag_def)
  then have "send_ok sys s ?v" using ok by (simp add: send_ok_def)
  then have "\<exists>w1. body s ?v = Done () w1 \<and> stacks_only ?v w1"
    using zmq_send_stacks [of sys s ?v ob] push_false_stacks stacks_only_trans [OF _ push_false_stacks]
    by (auto simp: body_def split: if_splits)
  then obtain w1 where "body s ?v = Done () w1" "stacks_only ?v w1" by blast
  moreover have "OQueue ob \<in> a_conds a" using object_cond(2) [of "running w" w a ob] inv ob by (simp add: sched_inv_def)
  ultimately show ?thesis using wake_first [where body = body, OF inv _ s] by (fastforce simp: poll_send_def body_def Let_def)
qed

lemma poll_cb_steps:
  assumes inv: "sched_inv w a" and ok: "poll_ok sys ob w a"
  shows "\<exists>w' a'. zmq_poll_cb sys ob st ev w = Done () w' \<and> api_steps (w, a) (w', a')"
proof -
  have core: "core (w\<lparr>w_ext := x\<rparr>) = core w" for x by (rule quiet_same(11) [OF quiet_ext(1)])
  have ext: "sched_inv (w\<lparr>w_ext := x\<rparr>) a" "api_steps (w, a) (w\<lparr>w_ext := x\<rparr>, a)" for x
    by (rule sched_inv_core [OF core inv], rule r_into_rtranclp, rule step_lua, rule core)
  have ob: "ob < w_nobject w" using ok by (simp add: poll_ok_def)
  have send: "\<exists>w' a'. poll_wsend sys ob (w\<lparr>w_ext := x\<rparr>) = Done () w' \<and> api_steps (w, a) (w', a')" for x
  proof (cases "has_oflag LUV_ZMQ_WSEND ob w")
    case True
    let ?y = "snd (sys_call sys (Zmq_poll (o_socket ob w) ZMQ_POLLOUT) x)"
    obtain s ss where s: "a_wait a (OQueue ob) = s # ss" "send_ok sys s w" using ok True by (auto simp: poll_ok_def split: list.splits)
    have "lua_arg L i (w\<lparr>w_ext := ?y\<rparr>) = lua_arg L i w" for L i by (simp add: lua_arg_def lua_gettop_def)
    then have "send_ok sys s (w\<lparr>w_ext := ?y\<rparr>)" using s(2) by (simp add: send_ok_def)
    from poll_send_any [OF ext(1) _ s(1) this, of "fst (sys_call sys (Zmq_poll (o_socket ob w) ZMQ_POLLOUT) x)"] ob
    obtain w' where "poll_send sys ob (fst (sys_call sys (Zmq_poll (o_socket ob w) ZMQ_POLLOUT) x)) (w\<lparr>w_ext := ?y\<rparr>) = Done () w'"
      "api_steps (w\<lparr>w_ext := ?y\<rparr>, a) (w', a_signal (w\<lparr>w_ext := ?y\<rparr>) (OQueue ob) a)" by auto
    with True ext(2) [of ?y] show ?thesis
      by (auto simp: poll_wsend_def luvL_zmq_socket_writable_def uv_Done has_oflag_def intro: rtranclp_trans)
  next
    case False
    then show ?thesis using ext(2) [of x] by (auto simp: poll_wsend_def has_oflag_def)
  qed
  show ?thesis
  proof (cases "has_oflag LUV_ZMQ_WRECV ob w")
    case True
    let ?r = "sys_call sys (Zmq_poll (o_socket ob w) ZMQ_POLLIN) (w_ext w)"
    obtain s ss where s: "a_wait a (ORouse ob) = s # ss" using ok True by (cases "a_wait a (ORouse ob)") (auto simp: poll_ok_def)
    from poll_recv_any [OF ext(1) _ s, of "snd ?r" sys "fst ?r"] ob
    obtain w' where "poll_recv sys ob (fst ?r) (w\<lparr>w_ext := snd ?r\<rparr>) = Done () w'"
      "api_steps (w\<lparr>w_ext := snd ?r\<rparr>, a) (w', a_signal (w\<lparr>w_ext := snd ?r\<rparr>) (ORouse ob) a)" by auto
    with True ext(2) [of "snd ?r"] send [of "snd ?r"] show ?thesis
      by (auto simp: zmq_poll_cb_def luvL_zmq_socket_readable_def uv_Done intro: rtranclp_trans)
  next
    case False
    then show ?thesis using send [of "w_ext w"] by (simp add: zmq_poll_cb_def)
  qed
qed

end
