(* ===== verification/Luv_Process.thy ===== *)
theory Luv_Process
  imports Luv_Stream
begin

text \<open>
  Child processes (\<open>src/src/luv_process.c\<close>).  \<open>spawn\<close> turns a table of options into the arrays and
  flags \<open>uv_spawn\<close> takes, and the calling state waits until the callback of the exit wakes it.  A
  block of memory allocated for \<open>n\<close> bytes has \<open>sys_usable sys n\<close> of them; a pointer takes 8 bytes.
  The option tables are taken to have no \<open>__index\<close> metamethod.
\<close>

section \<open>Fields of a table on the stack\<close>

definition lua_getfield :: "lid \<Rightarrow> nat \<Rightarrow> string \<Rightarrow> ('x, unit) luv" where
  "lua_getfield L i name w = (case lua_arg L i w of
       Some (LTable t) \<Rightarrow> Done () (lua_push L (raw_get (t_entries (h_table (w_heap w) t)) (LStr (str name))) w)
     | _ \<Rightarrow> Raise (lua_msg ''attempt to index a value'') w)"

definition lua_pop :: "lid \<Rightarrow> nat \<Rightarrow> 'x world \<Rightarrow> 'x world" where
  "lua_pop L n w = lua_settop L (lua_gettop L w - n) w"

text \<open>The value on top of the stack, and the C string \<open>lua_tostring\<close> gives for it, or null.\<close>

definition lua_top :: "lid \<Rightarrow> 'x world \<Rightarrow> lua_value" where
  "lua_top L w = (case lua_arg L (lua_gettop L w) w of None \<Rightarrow> LNil | Some v \<Rightarrow> v)"

definition c_text :: "'x sys \<Rightarrow> lua_value \<Rightarrow> bytes option" where
  "c_text sys v = map_option c_string (lua_text sys v)"

text \<open>Whether cell \<open>i\<close> is inside an array allocated for \<open>n\<close> pointers.\<close>

definition cell_ok :: "'x sys \<Rightarrow> nat \<Rightarrow> nat \<Rightarrow> bool" where
  "cell_ok sys n i \<longleftrightarrow> 8 * (i + 1) \<le> sys_usable sys (8 * n)"

section \<open>Arguments\<close>

text \<open>
  The array of arguments, before its end mark: it is allocated for \<open>argc + 1\<close> pointers and filled
  from the table on top of the stack.  \<open>process_args\<close> adds the end mark in cell \<open>argc + 1\<close>.
\<close>

definition arg_cells :: "'x sys \<Rightarrow> lid \<Rightarrow> bytes \<Rightarrow> nat \<Rightarrow> ('x, bytes option list) luv" where
  "arg_cells sys L cmd argc w =
     (if argc = 0 then Done [Some cmd] w
      else case lua_top L w of
          LTable t \<Rightarrow>
            Done (Some cmd # map (\<lambda>i. c_text sys (raw_get (t_entries (h_table (w_heap w) t)) (lua_int i))) [1..<Suc argc]) w
        | _ \<Rightarrow> Fail Wrong_Struct)"

definition process_args :: "'x sys \<Rightarrow> lid \<Rightarrow> bytes \<Rightarrow> ('x, bytes option list) luv" where
  "process_args sys L cmd w =
     (let argc = (case lua_arg L 2 w of Some (LTable t) \<Rightarrow> sys_objlen sys (t_entries (h_table (w_heap w) t)) | _ \<Rightarrow> 0)
      in bindR (arg_cells sys L cmd argc w) (\<lambda>args w.
           if cell_ok sys (argc + 1) (argc + 1) then Done (args @ [None]) w else Fail Out_Of_Bounds))"

text \<open>What a reader of the array sees: the strings before the first null pointer.\<close>

definition c_array :: "bytes option list \<Rightarrow> bytes list" where
  "c_array cells = map the (takeWhile (\<lambda>c. c \<noteq> None) cells)"

section \<open>Environment\<close>

text \<open>
  One round of the loop over the table of variables: the key on the stack, the strings stored so
  far and the size \<open>len\<close> of the array.  \<open>lua_tostring\<close> turns a key that is a number into a string
  on the stack, and \<open>lua_next\<close> goes on from there; \<open>%s\<close> prints a null pointer as \<open>(null)\<close>.
\<close>

type_synonym env_state = "lua_value \<times> bytes list \<times> nat"

definition next_key :: "'x sys \<Rightarrow> lua_value \<Rightarrow> lua_value" where
  "next_key sys k = (case k of LNum n \<Rightarrow> LStr (sys_numtext sys n) | _ \<Rightarrow> k)"

definition printed :: "'x sys \<Rightarrow> lua_value \<Rightarrow> bytes" where
  "printed sys v = (case c_text sys v of Some s \<Rightarrow> s | None \<Rightarrow> str ''(null)'')"

definition env_string :: "'x sys \<Rightarrow> lua_value \<times> lua_value \<Rightarrow> bytes" where
  "env_string sys e = printed sys (fst e) @ str ''='' @ printed sys (snd e)"

definition env_round :: "'x sys \<Rightarrow> entries \<Rightarrow> env_state \<Rightarrow> (lua_value, bool, env_state) res" where
  "env_round sys es = (\<lambda>(k, env, len).
     if k \<noteq> LNil \<and> (\<forall>e\<in>set es. \<not> raw_eq (fst e) k)
     then Raise (LStr (str ''invalid key to '' @ [39] @ str ''next'' @ [39])) (k, env, len)
     else case lua_next es k of
         None \<Rightarrow> Done False (k, env, len)
       | Some (key, val) \<Rightarrow>
           let len = (if length env \<ge> len then len * 2 else len)
           in if cell_ok sys len (length env)
              then Done True (next_key sys key, env @ [env_string sys (key, val)], len)
              else Fail Out_Of_Bounds)"

definition env_loop :: "'x sys \<Rightarrow> entries \<Rightarrow> (lua_value, unit, env_state) res" where
  "env_loop sys es = loopR (env_round sys es) (LNil, [], 32)"

definition process_env :: "'x sys \<Rightarrow> lid \<Rightarrow> ('x, bytes list option) luv" where
  "process_env sys L w =
     bindR (lua_getfield L 2 ''env'' w) (\<lambda>_ w.
     bindR (case lua_top L w of
         LNil \<Rightarrow> Done None w
       | LTable t \<Rightarrow>
           (case env_loop sys (t_entries (h_table (w_heap w) t)) of
              Done _ (k, env, len) \<Rightarrow>
                if cell_ok sys len (length env) then Done (Some env) w else Fail Out_Of_Bounds
            | Raise e _ \<Rightarrow> Raise e w
            | Fail x \<Rightarrow> Fail x)
       | _ \<Rightarrow> Fail Wrong_Struct) (\<lambda>env w.
       Done env (lua_pop L 1 w)))"

section \<open>Standard streams and spawning\<close>

fun process_stdio :: "lid \<Rightarrow> string list \<Rightarrow> ('x, oid option list) luv" where
  "process_stdio L [] w = Done [] w"
| "process_stdio L (name # names) w =
     bindR (lua_getfield L 2 name w) (\<lambda>_ w.
     bindR (if lua_top L w = LNil then Done None w
            else bindR (check_object L (lua_gettop L w) LUV_PIPE_T w) (\<lambda>ob w. Done (Some ob) w)) (\<lambda>s w.
     bindR (process_stdio L names (lua_pop L 1 w)) (\<lambda>ss w. Done (s # ss) w)))"

definition lua_insert1 :: "lid \<Rightarrow> 'x world \<Rightarrow> 'x world" where
  "lua_insert1 L = upd_stack L (\<lambda>st. last st # butlast st)"

definition luv_new_process :: "'x vm \<Rightarrow> 'x sys \<Rightarrow> lid \<Rightarrow> ('x, int) luv" where
  "luv_new_process vm sys L w =
     bindR (luaL_checkstring sys L 1 w) (\<lambda>cmd w.
     bindR (luaL_checktype L 2 LUA_TTABLE ''table'' w) (\<lambda>_ w.
     bindR (process_args sys L cmd w) (\<lambda>args w.
     bindR (lua_getfield L 2 ''cwd'' w) (\<lambda>_ w.
     let cwd = c_text sys (lua_top L w); w = lua_pop L 1 w
     in bindR (process_env sys L w) (\<lambda>env w.
        bindR (process_stdio L [''stdin'', ''stdout'', ''stderr''] w) (\<lambda>stdio w.
        bindR (lua_getfield L 2 ''detach'' w) (\<lambda>_ w.
        let detach = lua_toboolean L (lua_gettop L w) w; w = lua_pop L 1 w;
            cur = luvL_state_self L w; (self, w) = new_object L LUV_PROCESS_T w
        in bindR (deref cur w) (\<lambda>cur w.
           let w = lua_settop L 1 (lua_insert1 L (luvL_object_init cur self w))
           in bindR (luvL_event_loop L w) (\<lambda>loop w.
              bindR (uv sys (Uv_spawn loop self cmd (c_array args) env cwd stdio detach) w) (\<lambda>rv w.
                if rv \<noteq> 0
                then bindR (luvL_event_loop L w) (\<lambda>loop w. Raise (LStr (c_string (uv_error sys loop w))) w)
                else if detach then bindR (uv sys (Uv_unref_process self) w) (\<lambda>_ w. Done 1 w)
                else luvL_cond_wait vm (ORouse self) cur w))))))))))"

section \<open>Exit, signals, collection\<close>

definition exit_cb :: "oid \<Rightarrow> int \<Rightarrow> int \<Rightarrow> ('x, unit) luv" where
  "exit_cb self status sigterm w =
     bindR (deref (o_state (w_object w self)) w) (\<lambda>s w.
       let L = st_L (w_state w s)
       in bindR (luvL_cond_signal (ORouse self) (lua_pushinteger L sigterm (lua_pushinteger L status w))) (\<lambda>_ w.
            Done () w))"

definition luv_process_kill :: "'x sys \<Rightarrow> lid \<Rightarrow> ('x, int) luv" where
  "luv_process_kill sys L w =
     bindR (check_object L 1 LUV_PROCESS_T w) (\<lambda>self w.
     bindR (luaL_checkint sys L 2 w) (\<lambda>signum w.
     bindR (uv sys (Uv_process_kill self signum) w) (\<lambda>rv w.
       if rv \<noteq> 0
       then bindR (luvL_event_loop L w) (\<lambda>loop w. Raise (LStr (c_string (uv_error sys loop w))) w)
       else Done 0 w)))"

definition luv_process_free :: "'x sys \<Rightarrow> lid \<Rightarrow> ('x, int) luv" where
  "luv_process_free sys L w =
     bindR (as_object (lua_touserdata L 1 w) w) (\<lambda>self w.
     bindR (luvL_object_close sys self w) (\<lambda>_ w. Done 0 w))"

end
