(* ===== verification/Handle_Loop.thy ===== *)
theory Handle_Loop
  imports Zmq_Events Luv_Process Sched_Demo
begin

text \<open>
  The event loop as the component that runs the callbacks, the blocking calls on handles seen from
  the scheduler, and small worlds with TCP sockets for use as examples.
\<close>

section \<open>Events\<close>

text \<open>The callbacks the calls of libuv register, with the arguments libuv passes to them.\<close>

datatype uv_event =
    Ev_timer oid int
  | Ev_idle oid int
  | Ev_closed oid
  | Ev_read oid int uv_buf
  | Ev_written sid int
  | Ev_shutdown oid sid int
  | Ev_connection oid int
  | Ev_connected sid int
  | Ev_slept sid
  | Ev_fs sid
  | Ev_sent sid int
  | Ev_exit oid int int
  | Ev_addrinfo sid int "sockaddr option"
  | Ev_datagram oid int uv_buf "sockaddr option"
  | Ev_poll oid int int
  | Ev_async sid

fun run_event :: "'x sys \<Rightarrow> uv_event \<Rightarrow> ('x, unit) luv" where
  "run_event sys (Ev_timer ob n) w = timer_cb ob n w"
| "run_event sys (Ev_idle ob n) w = idle_cb ob n w"
| "run_event sys (Ev_closed ob) w = luvL_object_close_cb ob w"
| "run_event sys (Ev_read ob len buf) w = read_cb sys ob len buf w"
| "run_event sys (Ev_written s n) w = write_cb s n w"
| "run_event sys (Ev_shutdown ob s n) w = shutdown_cb ob s n w"
| "run_event sys (Ev_connection ob n) w = listen_cb sys ob n w"
| "run_event sys (Ev_connected s n) w = luvL_connect_cb s n w"
| "run_event sys (Ev_slept s) w = sleep_cb s w"
| "run_event sys (Ev_fs s) w = luv_fs_cb sys s w"
| "run_event sys (Ev_sent s n) w = send_cb s n w"
| "run_event sys (Ev_exit ob n k) w = exit_cb ob n k w"
| "run_event sys (Ev_addrinfo s n ai) w = getaddrinfo_cb sys s n ai w"
| "run_event sys (Ev_datagram ob n buf peer) w = recv_cb ob n buf peer w"
| "run_event sys (Ev_poll ob n k) w = zmq_poll_cb sys ob n k w"
| "run_event sys (Ev_async t) w = async_cb t w"

text \<open>
  What libuv promises of an event: the handle exists, the state of a request is blocked in the call
  that made it and in no queue, the memory it passes is as long as it says, and addresses are of
  the two families of the Internet.
\<close>

definition request_ok :: "sid \<Rightarrow> 'x world \<Rightarrow> asched \<Rightarrow> bool" where
  "request_ok s w a \<longleftrightarrow> s < w_nstate w \<and> (ready w s \<or> \<not> a_waiting a s)"

fun event_ok :: "'x sys \<Rightarrow> uv_event \<Rightarrow> 'x world \<Rightarrow> asched \<Rightarrow> bool" where
  "event_ok sys (Ev_timer ob n) w a = (ob < w_nobject w)"
| "event_ok sys (Ev_idle ob n) w a = (ob < w_nobject w)"
| "event_ok sys (Ev_closed ob) w a = (ob < w_nobject w)"
| "event_ok sys (Ev_read ob len buf) w a = (ob < w_nobject w \<and> mem_ok len buf)"
| "event_ok sys (Ev_written s n) w a = request_ok s w a"
| "event_ok sys (Ev_shutdown ob s n) w a = (ob < w_nobject w)"
| "event_ok sys (Ev_connection ob n) w a =
     (ob < w_nobject w \<and> (luvL_object_is_waiting (w_object w ob) \<longrightarrow> accept_ok ob w a))"
| "event_ok sys (Ev_connected s n) w a = request_ok s w a"
| "event_ok sys (Ev_slept s) w a = request_ok s w a"
| "event_ok sys (Ev_fs s) w a = (request_ok s w a \<and> fs_ok sys (st_L (w_state w s)) s w)"
| "event_ok sys (Ev_sent s n) w a = request_ok s w a"
| "event_ok sys (Ev_exit ob n k) w a = (ob < w_nobject w \<and> o_state (w_object w ob) \<noteq> None)"
| "event_ok sys (Ev_addrinfo s n ai) w a = (request_ok s w a \<and> inet_ok ai)"
| "event_ok sys (Ev_datagram ob n buf peer) w a =
     (ob < w_nobject w \<and> 0 \<le> snd buf \<and> mem_ok (snd buf) buf \<and> inet_ok peer)"
| "event_ok sys (Ev_poll ob n k) w a = poll_ok sys ob w a"
| "event_ok sys (Ev_async t) w a = (t < w_nstate w)"

lemma wake_steps:
  assumes "sched_inv w a" "request_ok s w a"
  shows "\<exists>w'. luvL_state_ready s w = Done () w' \<and> api_steps (w, a) (w', a_make_ready w s a)"
  using ready_after [OF assms(1) _ _ refl, of s] assms(2) by (auto simp: request_ok_def)

lemma read_cb_steps:
  assumes inv: "sched_inv w a" and ob: "ob < w_nobject w" and mem: "mem_ok len buf"
  shows "\<exists>w' a'. read_cb sys ob len buf w = Done () w' \<and> api_steps (w, a) (w', a')"
proof (cases "a_wait a (ORouse ob)")
  case Nil
  obtain w' where "read_cb sys ob len buf w = Done () w'" "quiet w w'"
    using read_cb_idle [OF inv ob Nil] by blast
  then show ?thesis using api_step_steps [OF step_lua] quiet_same(11) by blast
next
  case (Cons s ss)
  then show ?thesis using read_cb_waiting [OF inv ob Cons mem] by blast
qed

text \<open>The exit of a process: the state that created it finds the status and the signal on its stack, and
  the first waiting state is woken.\<close>

lemma exit_cb_steps:
  assumes inv: "sched_inv w a" and ob: "ob < w_nobject w" and s: "o_state (w_object w ob) = Some s"
  shows "\<exists>w'. exit_cb ob n k w = Done () w' \<and> api_steps (w, a) (w', a_signal w (ORouse ob) a) \<and>
    w_stack w' = (w_stack w)(st_L (w_state w s) :=
      w_stack w (st_L (w_state w s)) @ [LNum (lua_number_of_int n), LNum (lua_number_of_int k)]) \<and>
    (case a_wait a (ORouse ob) of [] \<Rightarrow> True | x # _ \<Rightarrow> ready w' x)"
proof -
  let ?L = "st_L (w_state w s)"
  let ?w = "lua_pushinteger ?L k (lua_pushinteger ?L n w)"
  have c: "core ?w = core w" by (simp add: lua_pushinteger_def)
  have "ORouse ob \<in> a_conds a" using inv ob object_cond by (auto simp: sched_inv_def)
  from signal_after [OF inv this c] obtain w' where
    "luvL_cond_signal (ORouse ob) ?w = Done (if a_wait a (ORouse ob) = [] then 0 else 1) w'"
    "api_steps (w, a) (w', a_signal w (ORouse ob) a)"
    "case a_wait a (ORouse ob) of [] \<Rightarrow> w' = ?w | x # _ \<Rightarrow> made_ready x ?w w'" by blast
  moreover from this(3) have "w_stack w' = w_stack ?w"
    by (auto simp: made_ready_def split: list.splits)
  ultimately show ?thesis using s
    by (auto simp: exit_cb_def Let_def lua_pushinteger_def made_ready_def split: list.splits)
qed

text \<open>Every event runs its callback to the end, through steps the scheduler allows.\<close>

lemma event_steps:
  assumes inv: "sched_inv w a" and ok: "event_ok sys ev w a"
  shows "\<exists>w' a'. run_event sys ev w = Done () w' \<and> api_steps (w, a) (w', a')"
proof (cases ev)
  case (Ev_timer ob n)
  then show ?thesis using timer_cb_steps [OF inv, of ob n] ok by auto
next
  case (Ev_idle ob n)
  then show ?thesis using timer_cb_steps [OF inv, of ob n] ok by (auto simp: idle_timer)
next
  case (Ev_closed ob)
  then show ?thesis using close_cb_steps [OF inv, of ob] ok by auto
next
  case (Ev_read ob len buf)
  then show ?thesis using read_cb_steps [OF inv] ok by auto
next
  case (Ev_written s n)
  then show ?thesis using write_cb_steps [OF inv, of s n] ok by (auto simp: request_ok_def)
next
  case (Ev_shutdown ob s n)
  then show ?thesis using shutdown_cb_steps [OF inv, of ob s n] ok by auto
next
  case (Ev_connection ob n)
  then show ?thesis using listen_cb_steps [OF inv] ok by auto
next
  case (Ev_exit ob n k)
  then show ?thesis using exit_cb_steps [OF inv, of ob _ n k] ok by fastforce
next
  case (Ev_addrinfo s n ai)
  then obtain addr where ai: "ai = Some addr" using ok by (cases ai) (auto simp: inet_ok_def)
  show ?thesis using addrinfo_cb_steps [OF inv, of s addr sys n] ok Ev_addrinfo ai by (auto simp: request_ok_def)
next
  case (Ev_datagram ob n buf peer)
  then obtain addr where "peer = Some addr" using ok by (cases peer) (auto simp: inet_ok_def)
  then show ?thesis using recv_cb_steps [OF inv, of ob buf addr n] ok Ev_datagram by auto
next
  case (Ev_poll ob n k)
  then show ?thesis using poll_cb_steps [OF inv] ok by simp
next
  case (Ev_fs s)
  then show ?thesis using fs_cb_steps [OF inv, of s sys] ok by (auto simp: request_ok_def)
qed (use wake_steps [OF inv] ok in \<open>auto simp: luvL_connect_cb_def sleep_cb_def send_cb_def async_cb_def\<close>)

text \<open>A turn of the event loop: events that libuv reports one after the other.\<close>

fun run_events :: "'x sys \<Rightarrow> uv_event list \<Rightarrow> ('x, unit) luv" where
  "run_events sys [] w = Done () w"
| "run_events sys (ev # evs) w = bindR (run_event sys ev w) (\<lambda>_ w. run_events sys evs w)"

inductive events_ok :: "'x sys \<Rightarrow> uv_event list \<Rightarrow> 'x world \<Rightarrow> asched \<Rightarrow> bool" for sys where
  no_event: "events_ok sys [] w a"
| an_event: "event_ok sys ev w a \<Longrightarrow> (\<And>w' a'. run_event sys ev w = Done () w' \<Longrightarrow> api_steps (w, a) (w', a') \<Longrightarrow> events_ok sys evs w' a') \<Longrightarrow>
    events_ok sys (ev # evs) w a"

lemma events_steps:
  assumes "events_ok sys evs w a" "sched_inv w a"
  shows "\<exists>w' a'. run_events sys evs w = Done () w' \<and> api_steps (w, a) (w', a')"
  using assms
proof (induction rule: events_ok.induct)
  case (an_event ev w a evs)
  obtain w1 a1 where 1: "run_event sys ev w = Done () w1" "api_steps (w, a) (w1, a1)"
    using event_steps [OF an_event.prems an_event.hyps(1)] by blast
  then have "sched_inv w1 a1" using api_steps_inv [OF 1(2) an_event.prems] by blast
  from an_event.IH [OF 1 this] 1 show ?case by (auto intro: rtranclp_trans)
qed auto

text \<open>Objects do not go away.\<close>

lemma a_conds_fold: "a_conds (fold (a_make_ready w) ss b) = a_conds b"
  by (induction ss arbitrary: b) simp_all

lemma api_steps_conds:
  assumes "api_steps (w, a) (w', a')"
  shows "a_conds a \<subseteq> a_conds a'"
  using assms
proof (induction "(w', a')" arbitrary: w' a' rule: rtranclp_induct)
  case (step p)
  obtain w1 b where p: "p = (w1, b)" by fastforce
  have "a_conds b \<subseteq> a_conds a'"
    using step(2) unfolding p
    by cases (auto simp: a_signal_def a_broadcast_def a_add_cond_def a_conds_fold split: list.splits)
  with step(3) [OF p] show ?case by blast
qed simp

lemma api_steps_object:
  assumes inv: "sched_inv w a" and steps: "api_steps (w, a) (w', a')" and ob: "ob < w_nobject w"
  shows "ob < w_nobject w'"
proof -
  have "ORouse ob \<in> a_conds a'" using inv_object_cond [OF inv ob] api_steps_conds [OF steps] by blast
  moreover have "sched_inv w' a'" using api_steps_inv [OF steps inv] by blast
  ultimately show ?thesis by (auto simp: sched_inv_def sched_rel_def cond_heads_def)
qed

section \<open>Blocking calls\<close>

lemma running_self:
  assumes inv: "sched_inv w a" and f: "f \<in> running w"
  shows "luvL_state_self (st_L (w_state w f)) w = Some f" "ready w f" "is_fiber w f" "f < w_nstate w"
proof -
  have rel: "sched_rel (running w) w a" using inv by (simp add: sched_inv_def)
  have nd: "\<not> dead w f" using run_not_dead [OF rel f f] .
  show "f < w_nstate w" "is_fiber w f" using f by (simp_all add: running_def)
  then show "luvL_state_self (st_L (w_state w f)) w = Some f"
    using sched_states [OF rel] nd by (simp add: luvL_state_self_def states_ok_def)
  show "ready w f" using inv f by (simp add: sched_inv_def run_ok_def)
qed

text \<open>A wait on an object after a change the scheduler does not see.\<close>

lemma wait_after:
  fixes w w0 :: "'x world"
  assumes inv: "sched_inv w a" and f: "f \<in> running w" and c: "c \<in> a_conds a" and eq: "core w0 = core w"
  shows "\<exists>w'. luvL_cond_wait vm c f w0 = Done (- 1) w' \<and> put_to_sleep f {} w0 w' \<and>
    sched_inv (set_curr (outer w f) (outer w f) w') (a_add_wait c f a) \<and>
    running (set_curr (outer w f) (outer w f) w') = running w - {f} \<and> w_object w' = w_object w0 \<and> w_ext w' = w_ext w0"
proof -
  have inv0: "sched_inv w0 a" using sched_inv_core [OF eq inv] .
  have f0: "f \<in> running w0" using f by (simp add: running_def core_eq [OF eq])
  have rel: "sched_rel (running w0) w0 a" using inv0 by (simp add: sched_inv_def)
  let ?w = "suspended f (upd_queue (ngx_queue_insert_tail c (SCond f)) w0)"
  have wt: "luvL_cond_wait vm c f w0 = Done (- 1) ?w" for vm :: "'x vm"
    using cond_wait_rel(1) [OF rel f0 f0 running_self(2) [OF inv0 f0] c] .
  have "\<not> ready ?w f" by simp
  note b = block_step [OF inv0 f0 stop_wait [OF wt c refl] this]
  have "sched_inv (set_curr (outer w f) (outer w f) ?w) (a_add_wait c f a)"
    "running (set_curr (outer w f) (outer w f) ?w) = running w - {f}"
    using b(1,3) by (simp_all add: core_eq [OF eq] running_def)
  moreover have "w_object ?w = w_object w0" by (simp add: suspended_def Let_def)
  ultimately show ?thesis using wt suspended_sleeps(2) suspended_sel(3) by fastforce
qed

text \<open>\<open>stream:read()\<close> with nothing buffered: reading is started and the fiber waits.\<close>

lemma set_started: "has_flag (set_flag LUV_OSTARTED fl) LUV_OSTARTED"
  by (simp add: LUV_OSTARTED_def has_flag_set)

lemma stream_read_eq:
  assumes inv: "sched_inv w a" and f: "f \<in> running w" and L: "L = st_L (w_state w f)"
    and self: "lua_touserdata L 1 w = Some (PObject ob)" and len: "luaL_optinteger sys L 2 4096 w = Done n w"
    and ob: "\<not> luvL_object_is_closing (w_object w ob)" "o_base (w_object w ob) = None"
  shows "\<exists>w0. luv_stream_read vm sys L w = luvL_cond_wait vm (ORouse ob) f w0 \<and> quiet w w0 \<and>
    luvL_object_is_started (w_object w0 ob) \<and> o_len (w_object w0 ob) = c_int n \<and> o_base (w_object w0 ob) = None \<and>
    w_ext w0 = (if luvL_object_is_started (w_object w ob) then w_ext w else snd (sys_call sys (Uv_read_start ob) (w_ext w)))"
proof -
  let ?w1 = "upd_object ob (\<lambda>r. r\<lparr>o_len := c_int n\<rparr>) w"
  have st: "luvL_object_is_started (w_object ?w1 ob) = luvL_object_is_started (w_object w ob)"
    by (simp add: luvL_object_is_started_def)
  show ?thesis
  proof (cases "luvL_object_is_started (w_object w ob)")
    case True
    have "luv_stream_read vm sys L w = luvL_cond_wait vm (ORouse ob) f ?w1"
      using self len ob True st running_self(1) [OF inv f]
      by (simp add: luv_stream_read_def as_object_def Let_def L)
    with True st ob show ?thesis by (intro exI [of _ ?w1]) simp
  next
    case False
    let ?w0 = "(set_oflag LUV_OSTARTED ob ?w1)\<lparr>w_ext := snd (sys_call sys (Uv_read_start ob) (w_ext w))\<rparr>"
    have "luv_stream_read vm sys L w = luvL_cond_wait vm (ORouse ob) f ?w0"
      using self len ob False st running_self(1) [OF inv f]
      by (simp add: luv_stream_read_def as_object_def Let_def L luvL_stream_start_def uv_Done set_oflag_def)
    moreover have "quiet w ?w0" using quiet_trans [OF quiet_trans [OF quiet_object(1,2)] quiet_ext(1)] .
    ultimately show ?thesis
      using False ob by (intro exI [of _ ?w0]) (simp add: set_oflag_def luvL_object_is_started_def set_started)
  qed
qed

end
