(* ===== verification/Handle_Demo.thy ===== *)
theory Handle_Demo
  imports Handle_Loop
begin

text \<open>
  Example worlds with handles: two TCP sockets that a running fiber has created, the fiber waiting
  in \<open>stream:read()\<close>, and two fibers waiting for the same socket.
\<close>

text \<open>An operating system on which every call succeeds and nothing happens.\<close>

definition demo_sys :: "'x sys" where
  "demo_sys = \<lparr>sys_call = (\<lambda>_ x. (0, x)), sys_last_error = (\<lambda>_ _. 0), sys_UV_EOF = 1, sys_strerror = (\<lambda>_. []),
     sys_handle_loop = (\<lambda>_ _. 0),
     sys_fs_req = (\<lambda>_ _. \<lparr>fr_type = UV_FS_CLOSE, fr_result = 0, fr_errorno = 0, fr_data = [], fr_ptr = [],
       fr_stat = \<lparr>st_dev = 0, st_ino = 0, st_mode = 0, st_nlink = 0, st_uid = 0, st_gid = 0, st_rdev = 0, st_size = 0,
         st_atime = 0, st_mtime = 0, st_ctime = 0\<rparr>\<rparr>),
     sys_path = (\<lambda>_. []), sys_sockaddr = (\<lambda>_. \<lparr>sa_family = 2, sa_host = [], sa_port = 0\<rparr>),
     sys_tointeger = (\<lambda>_. None), sys_tonumber = (\<lambda>_. None), sys_numtext = (\<lambda>_. []),
     sys_objlen = length, sys_errno = (\<lambda>_. 0), sys_EAGAIN = 11, sys_EWOULDBLOCK = 11, sys_errtext = (\<lambda>_. []), sys_zmq_errtext = (\<lambda>_. []),
     sys_zmq_message = (\<lambda>_. []), sys_zmq_option = (\<lambda>_. []), sys_zmq_number = (\<lambda>_. 0),
     sys_usable = (\<lambda>n. n), sys_address = (\<lambda>_. []), sys_light = word_of_nat, sys_free_memory = (\<lambda>_. 0), sys_total_memory = (\<lambda>_. 0),
     sys_hrtime = (\<lambda>_. 0), sys_cpu_info = (\<lambda>_. Inr []), sys_interfaces = (\<lambda>_. Inr [])\<rparr>"

section \<open>New objects\<close>

definition fresh_object :: "sid \<Rightarrow> luv_object \<Rightarrow> luv_object" where
  "fresh_object s r = r\<lparr>o_state := Some s, o_data := None, o_flags := 0, o_count := 0, o_base := None, o_len := 0\<rparr>"

lemma new_tcp_added:
  assumes "luvL_state_self L w = Some s"
  shows "\<exists>w'. luv_new_tcp sys L w = Done 1 w' \<and> cond_added [ORouse (w_nobject w), OQueue (w_nobject w)] w w' \<and>
    w_stack w' L = w_stack w L @ [LUser (w_nudata w)] \<and> w_nudata w' = Suc (w_nudata w) \<and>
    w_udata w' = (w_udata w)(w_nudata w \<mapsto> \<lparr>u_meta = LUV_NET_TCP_T, u_ptr = PObject (w_nobject w)\<rparr>) \<and>
    w_object w' = (w_object w)(w_nobject w := fresh_object s (w_object w (w_nobject w)))"
  using assms
  by (simp add: luv_new_tcp_def new_object_def new_udata_def metatable_def luv_classes_def luvL_object_init_def
      luvL_event_loop_def luvL_state_self_def uv_Done cond_added_def fresh_object_def Let_def)

section \<open>Two sockets\<close>

definition serv :: oid where "serv = w_nobject two_world"
definition conn :: oid where "conn = Suc serv"

definition demo_L :: lid where "demo_L = st_L (w_state two_world 1)"

definition one_tcp :: "scripts world" where
  "one_tcp = after_call (luv_new_tcp demo_sys demo_L two_world)"

definition two_tcp :: "scripts world" where
  "two_tcp = after_call (luv_new_tcp demo_sys demo_L one_tcp)"

text \<open>The fiber is about to call a method of the first socket, without or with the second as argument.\<close>

definition tcp_world :: "bool \<Rightarrow> scripts world" where
  "tcp_world both =
     upd_stack demo_L (\<lambda>_. LUser (w_nudata two_world) # (if both then [LUser (Suc (w_nudata two_world))] else [])) two_tcp"

definition tcp_sched :: asched where
  "tcp_sched = a_add_cond [ORouse conn, OQueue conn] (a_add_cond [ORouse serv, OQueue serv] cond_sched)"

lemma tcp_sched_sel [simp]:
  "a_wait tcp_sched = (\<lambda>_. [])" "a_join tcp_sched = (\<lambda>_. [])" "a_ready tcp_sched = (\<lambda>_. [])" "\<not> a_waiting tcp_sched s"
  "ORouse serv \<in> a_conds tcp_sched"
  by (simp_all add: tcp_sched_def a_add_cond_def cond_sched_def no_sched_def a_waiting_def)

lemma self_cond_added:
  "cond_added cs w w' \<Longrightarrow> luvL_state_self L w' = luvL_state_self L w"
  by (simp add: cond_added_def luvL_state_self_def)

lemma tcp_world_inv:
  "sched_inv (tcp_world b) tcp_sched" "running (tcp_world b) = {1}" "st_L (w_state (tcp_world b) 1) = demo_L"
  "serv < w_nobject (tcp_world b)" "conn < w_nobject (tcp_world b)" "lua_touserdata demo_L 1 (tcp_world b) = Some (PObject serv)"
  "lua_touserdata demo_L 2 (tcp_world True) = Some (PObject conn)" "lua_isnoneornil demo_L 2 (tcp_world False)"
  "o_flags (w_object (tcp_world b) serv) = 0" "o_base (w_object (tcp_world b) serv) = None" "o_count (w_object (tcp_world b) serv) = 0"
  "w_nstate (tcp_world b) = 3" "\<not> ready (tcp_world b) 2" "outer (tcp_world b) 1 = 0"
proof -
  note t = two_world_inv
  have self: "luvL_state_self demo_L two_world = Some 1"
    using running_self(1) [OF t(1), of 1] t(2) by (simp add: demo_L_def)
  obtain w1 where w1: "luv_new_tcp demo_sys demo_L two_world = Done 1 w1" "cond_added [ORouse serv, OQueue serv] two_world w1"
    "w_nudata w1 = Suc (w_nudata two_world)" "w_udata w1 (w_nudata two_world) = Some \<lparr>u_meta = LUV_NET_TCP_T, u_ptr = PObject serv\<rparr>"
    "w_object w1 serv = fresh_object 1 (w_object two_world serv)"
    using new_tcp_added [OF self, of demo_sys] by (auto simp: serv_def)
  have n1: "w_nobject w1 = conn" using w1(2) by (auto simp: cond_added_def conn_def serv_def)
  have self1: "luvL_state_self demo_L w1 = Some 1" using self self_cond_added [OF w1(2)] by simp
  obtain w2 where w2: "luv_new_tcp demo_sys demo_L w1 = Done 1 w2" "cond_added [ORouse conn, OQueue conn] w1 w2"
    "w_udata w2 = (w_udata w1)(w_nudata w1 \<mapsto> \<lparr>u_meta = LUV_NET_TCP_T, u_ptr = PObject conn\<rparr>)"
    "w_object w2 = (w_object w1)(conn := fresh_object 1 (w_object w1 conn))"
    using new_tcp_added [OF self1, of demo_sys] n1 by auto
  have eq: "two_tcp = w2" using w1(1) w2(1) by (simp add: two_tcp_def one_tcp_def)
  note i1 = api_step_inv [OF step_cond [OF w1(2)] t(1)]
  have "api_step (w1, a_add_cond [ORouse serv, OQueue serv] cond_sched) (w2, tcp_sched)"
    using step_cond [OF w2(2)] by (simp add: tcp_sched_def)
  note i2 = api_step_inv [OF this conjunct1 [OF i1]]
  have "grown two_world w1" "grown w1 w2" using i1 i2 by blast+
  then have i: "sched_inv w2 tcp_sched" "running w2 = {1}" "grown two_world w2"
    using i1 i2 t(2) grown_trans [of two_world w1 w2] by simp_all
  have c: "core (tcp_world b) = core w2" by (simp add: tcp_world_def eq)
  show "sched_inv (tcp_world b) tcp_sched" using sched_inv_core [OF c i(1)] .
  show "running (tcp_world b) = {1}" using i(2) by (simp add: running_def core_eq [OF c])
  show L: "st_L (w_state (tcp_world b) 1) = demo_L" "outer (tcp_world b) 1 = 0"
    using i(3) t(3,8) by (simp_all add: core_eq [OF c] grown_def demo_L_def)
  have "w_nobject w2 = Suc conn" using w2(2) n1 by (auto simp: cond_added_def)
  then show "serv < w_nobject (tcp_world b)" "conn < w_nobject (tcp_world b)"
    by (simp_all add: tcp_world_def eq conn_def)
  show "lua_touserdata demo_L 1 (tcp_world b) = Some (PObject serv)"
    "lua_touserdata demo_L 2 (tcp_world True) = Some (PObject conn)" "lua_isnoneornil demo_L 2 (tcp_world False)"
    using w1(3,4) w2(3)
    by (simp_all add: tcp_world_def eq lua_touserdata_def lua_isnoneornil_def lua_arg_def lua_gettop_def)
  show "o_flags (w_object (tcp_world b) serv) = 0" "o_base (w_object (tcp_world b) serv) = None" "o_count (w_object (tcp_world b) serv) = 0"
    using w1(5) w2(4) by (simp_all add: tcp_world_def eq conn_def fresh_object_def)
  have st: "w_state w2 = w_state two_world" "w_nstate w2 = w_nstate two_world" using w1(2) w2(2) by (simp_all add: cond_added_def)
  then show "w_nstate (tcp_world b) = 3" "\<not> ready (tcp_world b) 2"
    using t(3,6) by (simp_all add: core_eq [OF c] state_flag_def)
qed

section \<open>Waiting for a socket\<close>

text \<open>The fiber waits in \<open>read\<close> (no flag is needed for that) or in \<open>accept\<close>.\<close>

definition read_world :: "scripts world" where
  "read_world = set_curr 0 0 (after_call (luv_stream_read no_vm demo_sys demo_L (tcp_world False)))"

lemma read_world_inv:
  "sched_inv read_world (a_add_wait (ORouse serv) 1 tcp_sched)" "serv < w_nobject read_world" "st_L (w_state read_world 1) = demo_L"
proof -
  note t = tcp_world_inv
  have f: "1 \<in> running (tcp_world False)" by (simp add: t(2))
  have len: "luaL_optinteger demo_sys demo_L 2 4096 (tcp_world False) = Done 4096 (tcp_world False)"
    by (simp add: luaL_optinteger_def t(8))
  have nc: "\<not> luvL_object_is_closing (w_object (tcp_world False) serv)" by (simp add: luvL_object_is_closing_def t(9))
  obtain w0 where w0: "luv_stream_read no_vm demo_sys demo_L (tcp_world False) = luvL_cond_wait no_vm (ORouse serv) 1 w0"
    "quiet (tcp_world False) w0"
    using stream_read_eq [OF t(1) f t(3) [symmetric] t(6) len nc t(10), of no_vm] by blast
  obtain w' where w': "luvL_cond_wait no_vm (ORouse serv) 1 w0 = Done (- 1) w'" "put_to_sleep 1 {} w0 w'"
    "sched_inv (set_curr 0 0 w') (a_add_wait (ORouse serv) 1 tcp_sched)"
    using wait_after [OF t(1) f tcp_sched_sel(5) quiet_same(11) [OF w0(2)], of no_vm] t(14) by auto
  have r: "read_world = set_curr 0 0 w'" using w0(1) w'(1) by (simp add: read_world_def)
  show "sched_inv read_world (a_add_wait (ORouse serv) 1 tcp_sched)" using w'(3) r by simp
  then have "sched_rel (running read_world) read_world (a_add_wait (ORouse serv) 1 tcp_sched)" by (simp add: sched_inv_def)
  then have "a_conds tcp_sched = cond_heads read_world" by (simp add: sched_rel_def)
  with tcp_sched_sel(5) have "ORouse serv \<in> cond_heads read_world" by simp
  then show "serv < w_nobject read_world" by (auto simp: cond_heads_def)
  show "st_L (w_state read_world 1) = demo_L"
    using w'(2) t(3) by (simp add: r put_to_sleep_def quiet_same(2) [OF w0(2)])
qed

text \<open>The fiber waits in \<open>accept\<close>, and a second one behind it.\<close>

definition accept_world :: "scripts world" where
  "accept_world = set_curr 0 0 (after_call (luv_stream_accept no_vm demo_sys demo_L (tcp_world True)))"

definition accept2_world :: "scripts world" where
  "accept2_world = upd_queue (ngx_queue_insert_tail (ORouse serv) (SCond 2)) accept_world"

lemma accept_eq:
  assumes inv: "sched_inv w a" and f: "f \<in> running w" and L: "L = st_L (w_state w f)"
    and self: "lua_touserdata L 1 w = Some (PObject ob)" and none: "o_count (w_object w ob) = 0"
  shows "luv_stream_accept vm sys L w = luvL_cond_wait vm (ORouse ob) f (set_oflag LUV_OWAITING ob w)"
  using self none running_self(1) [OF inv f] touserdata_type [OF self]
  by (simp add: luv_stream_accept_def as_object_def Let_def L)

lemma set_waiting: "has_flag (set_flag LUV_OWAITING fl) LUV_OWAITING"
  by (simp add: LUV_OWAITING_def has_flag_set)

lemma touserdata_cong:
  "w_stack w' L = w_stack w L \<Longrightarrow> w_udata w' = w_udata w \<Longrightarrow> lua_touserdata L i w' = lua_touserdata L i w"
  by (simp add: lua_touserdata_def lua_arg_def lua_gettop_def split: lua_value.split)

lemma accept_world_inv:
  "sched_inv accept_world (a_add_wait (ORouse serv) 1 tcp_sched)" "serv < w_nobject accept_world" "conn < w_nobject accept_world"
  "luvL_object_is_waiting (w_object accept_world serv)" "o_count (w_object accept_world serv) = 0"
  "st_L (w_state accept_world 1) = demo_L" "lua_touserdata demo_L 2 accept_world = Some (PObject conn)"
  "w_nstate accept_world = 3" "\<not> ready accept_world 2" "running accept_world = {}"
proof -
  note t = tcp_world_inv
  let ?w = "tcp_world True" and ?v = "set_oflag LUV_OWAITING serv (tcp_world True)"
  have f: "1 \<in> running ?w" by (simp add: t(2))
  have acc: "luv_stream_accept no_vm demo_sys demo_L ?w = luvL_cond_wait no_vm (ORouse serv) 1 ?v"
    using accept_eq [OF t(1) f t(3) [symmetric] t(6,11)] .
  obtain w' where w': "luvL_cond_wait no_vm (ORouse serv) 1 ?v = Done (- 1) w'" "put_to_sleep 1 {} ?v w'"
    "sched_inv (set_curr 0 0 w') (a_add_wait (ORouse serv) 1 tcp_sched)" "w_object w' = w_object ?v"
    "running (set_curr 0 0 w') = running ?w - {1}"
    using wait_after [OF t(1) f tcp_sched_sel(5), of ?v no_vm] t(14) by auto
  have r: "accept_world = set_curr 0 0 w'" using acc w'(1) by (simp add: accept_world_def)
  show "sched_inv accept_world (a_add_wait (ORouse serv) 1 tcp_sched)" using w'(3) r by simp
  then have rel: "sched_rel (running accept_world) accept_world (a_add_wait (ORouse serv) 1 tcp_sched)" by (simp add: sched_inv_def)
  then have ch: "a_conds tcp_sched = cond_heads accept_world" by (simp add: sched_rel_def)
  have "ORouse serv \<in> cond_heads accept_world" "ORouse conn \<in> cond_heads accept_world"
    unfolding ch [symmetric] by (simp_all add: tcp_sched_def a_add_cond_def)
  then show "serv < w_nobject accept_world" "conn < w_nobject accept_world" by (auto simp: cond_heads_def)
  show "luvL_object_is_waiting (w_object accept_world serv)" "o_count (w_object accept_world serv) = 0"
    using w'(4) t(11) by (simp_all add: r set_oflag_def luvL_object_is_waiting_def set_waiting set_curr_def)
  show "st_L (w_state accept_world 1) = demo_L" "w_nstate accept_world = 3" "\<not> ready accept_world 2"
    using w'(2) t(3,12,13) by (simp_all add: r put_to_sleep_def set_oflag_def)
  have "w_udata w' = w_udata ?v" using w'(1) f running_self(3) [OF t(1) f]
    by (auto simp: luvL_cond_wait_def luvL_state_suspend_def luvL_fiber_suspend_def luvL_state_is_active_def luvL_thread_self_def
        to_thread_def lua_yield_def set_oflag_def res_simps Let_def deref_def split: if_splits option.splits)
  moreover have "w_stack w' = w_stack ?v" using w'(2) by (simp add: put_to_sleep_def)
  ultimately show "lua_touserdata demo_L 2 accept_world = Some (PObject conn)"
    using t(7) touserdata_cong [of accept_world demo_L ?w 2] by (simp add: r set_curr_def set_oflag_def)
  show "running accept_world = {}" using w'(5) t(2) by (simp add: r)
qed

lemma accept2_world_inv:
  "sched_inv accept2_world (a_add_wait (ORouse serv) 2 (a_add_wait (ORouse serv) 1 tcp_sched))"
proof -
  note t = accept_world_inv
  have rel: "sched_rel {} accept_world (a_add_wait (ORouse serv) 1 tcp_sched)" using t(1,10) by (simp add: sched_inv_def)
  have "sched_rel {} accept2_world (a_add_wait (ORouse serv) 2 (a_add_wait (ORouse serv) 1 tcp_sched))"
    unfolding accept2_world_def using t(8,9) by (intro sched_add_wait [OF rel]) simp_all
  moreover have "running accept2_world = {}" using t(10) by (simp add: running_def accept2_world_def)
  ultimately show ?thesis by (simp add: sched_inv_def run_ok_def)
qed

end
