(* ===== verification/Handle_Props.thy ===== *)
theory Handle_Props
  imports Handle_Demo
begin

text \<open>The properties of handles, streams and the event loop.\<close>

section \<open>Timers and the event loop\<close>

text \<open>C28: The callback of a timer or an idle handle wakes every state that waits for the handle, in the order in
  which they came, each with the status as the only value on its stack; every other state and
  stack stays as it is, and the invariant of the scheduler holds.\<close>

theorem timer_cb_wakes_all:
  assumes "sched_inv w a" "ob < w_nobject w"
  defines "ss \<equiv> a_wait a (ORouse ob)"
  shows "\<exists>w'. timer_cb ob n w = Done () w' \<and> idle_cb ob n w = Done () w' \<and>
    sched_inv w' (fold (a_make_ready w) ss (a\<lparr>a_wait := (a_wait a)(ORouse ob := [])\<rparr>)) \<and>
    (\<forall>s\<in>set ss. ready w' s \<and> w_stack w' (st_L (w_state w s)) = [LNum (lua_number_of_int n)]) \<and>
    (\<forall>s. s \<notin> set ss \<longrightarrow> ready w' s = ready w s) \<and>
    (\<forall>L. (\<forall>s\<in>set ss. st_L (w_state w s) \<noteq> L) \<longrightarrow> w_stack w' L = w_stack w L)"
proof -
  obtain w' where w': "timer_cb ob n w = Done () w'" "api_steps (w, a) (w', a_broadcast w (ORouse ob) a)"
    "made_all_ready (set ss) (hand [LNum (lua_number_of_int n)] ss w) w'"
    using timer_cb_steps [OF assms(1,2)] unfolding ss_def by blast
  have "sched_inv w' (a_broadcast w (ORouse ob) a)" using api_steps_inv [OF w'(2) assms(1)] by blast
  with w'(1,3) show ?thesis
    unfolding a_broadcast_def ss_def [symmetric]
    by (auto simp: idle_timer made_all_ready_def hand_def state_flag_def)
qed

theorem timer_cb_wakes_all_witness:
  "\<exists>w'. timer_cb serv 7 read_world = Done () w' \<and> ready w' 1 \<and> w_stack w' demo_L = [LNum (lua_number_of_int 7)]"
  using timer_cb_wakes_all [OF read_world_inv(1,2), of 7] read_world_inv(3) by auto



section \<open>Reading\<close>

text \<open>C26: Data, the end of the file or an error that libuv reports for a stream goes to the state that has waited
  longest in \<open>read\<close>: it finds the length and the bytes, \<open>nil\<close>, or \<open>false\<close> and a message on its
  stack and is made ready.  The others stay in the queue, in order; their stacks and flags do not
  change, and the invariant holds.\<close>

theorem read_cb_delivers:
  assumes "sched_inv w a" "ob < w_nobject w" "a_wait a (ORouse ob) = s # ss" "mem_ok len buf"
  shows "\<exists>w' a'. read_cb sys ob len buf w = Done () w' \<and> sched_inv w' a' \<and> a_wait a' (ORouse ob) = ss \<and>
    ready w' s \<and> w_stack w' (st_L (w_state w s)) = read_values sys len buf (st_loop (w_state w s)) (w_ext w) \<and>
    (\<forall>x. x \<noteq> s \<longrightarrow> ready w' x = ready w x) \<and> (\<forall>L. L \<noteq> st_L (w_state w s) \<longrightarrow> w_stack w' L = w_stack w L)"
proof -
  let ?h = "hand (read_values sys len buf (st_loop (w_state w s)) (w_ext w)) [s] w"
  obtain v w' where w': "read_cb sys ob len buf w = Done () w'" "api_steps (w, a) (w', a_signal w (ORouse ob) a)"
    "quiet ?h v" "made_ready s v w'"
    using read_cb_waiting [OF assms] by blast
  note q = quiet_same [OF w'(3)]
  have "a_wait (a_signal w (ORouse ob) a) (ORouse ob) = ss" using assms(3) by (simp add: a_signal_def)
  moreover have "ready w' x \<longleftrightarrow> x = s \<or> ready w x" for x
    using w'(4) by (simp add: made_ready_def core_eq(10) [OF q(11)])
  moreover have "w_stack w' = w_stack ?h" using w'(4) q(6) by (simp add: made_ready_def)
  moreover have "sched_inv w' (a_signal w (ORouse ob) a)" using api_steps_inv [OF w'(2) assms(1)] by blast
  ultimately show ?thesis using w'(1) by (auto simp: hand_def)
qed

theorem read_cb_delivers_witness:
  "\<exists>w'. read_cb demo_sys serv 2 (Some [104, 105, 0], 3) read_world = Done () w' \<and> ready w' 1 \<and>
    w_stack w' demo_L = [LNum (lua_number_of_int 2), LStr [104, 105]]"
  using read_cb_delivers [OF read_world_inv(1,2), of 1 "[]" 2 "(Some [104, 105, 0], 3)" demo_sys] read_world_inv(3)
  by (auto simp: mem_ok_def read_values_def chunk_def)

text \<open>C27: Data that arrives while no state reads is not lost: \<open>_read_cb\<close> keeps it in the object and stops reading,
  and the next \<open>read\<close> on the stream, whoever calls it, returns its length and its bytes at once and
  empties the buffer, so that they are returned exactly once.\<close>

theorem stream_data_kept:
  assumes "sched_inv w a" "ob < w_nobject w" "a_wait a (ORouse ob) = []" "\<not> luvL_object_is_closing (w_object w ob)"
    "0 \<le> len" "len < 2 ^ 31" "len \<le> int (length bs)"
  shows "\<exists>w1. read_cb sys ob len (Some bs, sz) w = Done () w1 \<and> sched_inv w1 a \<and>
    \<not> luvL_object_is_started (w_object w1 ob) \<and>
    (\<forall>w2 L. w_object w2 ob = w_object w1 ob \<longrightarrow> lua_touserdata L 1 w2 = Some (PObject ob) \<longrightarrow> lua_isnoneornil L 2 w2 \<longrightarrow>
      (\<exists>w3. luv_stream_read vm sys L w2 = Done 2 w3 \<and>
        w_stack w3 L = w_stack w2 L @ [LNum (lua_number_of_int len), LStr (take (nat len) bs)] \<and>
        o_base (w_object w3 ob) = None \<and> o_count (w_object w3 ob) = 0 \<and> core w3 = core w2))"
proof -
  obtain w1 where w1: "read_cb sys ob len (Some bs, sz) w = Done () w1" "quiet w w1" "\<not> luvL_object_is_started (w_object w1 ob)"
    "w_object w1 ob = (w_object w ob)\<lparr>o_flags := clear_flag LUV_OSTARTED (o_flags (w_object w ob)),
      o_count := c_int len, o_base := Some bs, o_len := sz\<rparr>"
    using read_cb_idle [OF assms(1-3), of sys len "(Some bs, sz)"] assms(5) by auto
  have cl: "\<not> luvL_object_is_closing (w_object w1 ob)"
    using assms(4) w1(4) by (simp add: luvL_object_is_closing_def luv_flag_defs has_flag_clear)
  have "c_int len = len" using assms(5,6) by (simp add: c_int_id)
  moreover have "read_mem (Some bs) len v = Done (take (nat len) bs) v" for v :: "'a world"
    using assms(5,7) by (simp add: read_mem_def)
  ultimately have "\<exists>w3. luv_stream_read vm sys L w2 = Done 2 w3 \<and>
        w_stack w3 L = w_stack w2 L @ [LNum (lua_number_of_int len), LStr (take (nat len) bs)] \<and>
        o_base (w_object w3 ob) = None \<and> o_count (w_object w3 ob) = 0 \<and> core w3 = core w2"
    if "w_object w2 ob = w_object w1 ob" "lua_touserdata L 1 w2 = Some (PObject ob)" "lua_isnoneornil L 2 w2" for w2 L
    using that cl w1(4)
    by (simp add: luv_stream_read_def luaL_optinteger_def as_object_def Let_def lua_push_defs)
  with w1 sched_inv_core [OF quiet_same(11) [OF w1(2)] assms(1)] show ?thesis by blast
qed

theorem stream_data_kept_witness:
  "\<exists>w1. read_cb demo_sys serv 1 (Some [104], 1) (tcp_world False) = Done () w1 \<and> sched_inv w1 tcp_sched"
  using stream_data_kept [OF tcp_world_inv(1) [of False] tcp_world_inv(4) [of False], where len = 1 and bs = "[104]"
      and sz = 1 and sys = demo_sys and vm = no_vm] tcp_world_inv(9) [of False]
  by (auto simp: luvL_object_is_closing_def)

end
