(* ===== verification/Handle_Vm.thy ===== *)
theory Handle_Vm
  imports Handle_Loop
begin

text \<open>
  The scheduler and the callbacks of the handles together.  The locale \<open>event_source\<close> is the promise of
  libuv: the events it reports in a turn of its loop are events of existing handles and pending
  requests.  With it \<open>uv_run_once\<close> is the sequence of these callbacks, and the machine meets the
  contract \<open>luv_vm\<close> that the loops of a thread rely on.
\<close>

section \<open>Fibers do not run the event loop\<close>

text \<open>The blocking calls of a fiber yield; only a thread that blocks runs the virtual machine.\<close>

lemma state_suspend_vm: "is_fiber w f \<Longrightarrow> luvL_state_suspend vm f w = luvL_state_suspend vm' f w"
  by (simp add: luvL_state_suspend_def)

lemma cond_wait_vm: "is_fiber w f \<Longrightarrow> luvL_cond_wait vm c f w = luvL_cond_wait vm' c f w"
  by (simp add: luvL_cond_wait_def state_suspend_vm [of _ _ vm vm'])

lemma fiber_ready_types: "luvL_fiber_ready g w = Done u w' \<Longrightarrow> st_type (w_state w' f) = st_type (w_state w f)"
  by (auto simp: luvL_fiber_ready_def luvL_thread_self_def to_thread_def res_simps luvL_thread_enqueue_def Let_def deref_def
      split: if_splits option.splits)

lemma fiber_join_vm:
  assumes "is_fiber w f" "luvL_state_self L w = Some f"
  shows "luv_fiber_join vm L w = luv_fiber_join vm' L w"
proof -
  have ready: "bindR (luvL_fiber_ready g w1) (\<lambda>_ w. if is_fiber w f then luvL_state_suspend vm f w else k vm w) =
      bindR (luvL_fiber_ready g w1) (\<lambda>_ w. if is_fiber w f then luvL_state_suspend vm' f w else k vm' w)"
    if "is_fiber w1 f" for g w1 and k :: "'a vm \<Rightarrow> ('a, int) luv"
    using fiber_ready_types [of g w1 _ _ f] that
    by (cases "luvL_fiber_ready g w1") (auto simp: state_suspend_vm [of _ _ vm vm'])
  show ?thesis
    using assms ready [where k = "\<lambda>vm w. bindR (luvL_state_suspend vm f w) (\<lambda>_ w. let (x, y) = luvL_state_xcopy g f w in Done x y)" and g = g for g]
    unfolding luv_fiber_join_def
    by (cases "luaL_checkudata L 1 LUV_FIBER_T w")
      (auto simp: luaL_checkudata_def as_state_def c_assert_def Let_def split: option.splits ptr.splits lua_value.splits if_splits)
qed

lemma fiber_stop_vm:
  assumes "fiber_stop vm f (w, a) stat (w', a')" "sched_inv w a" "f \<in> running w"
  shows "fiber_stop vm' f (w, a) stat (w', a')"
proof -
  note self = running_self [OF assms(2,3)]
  have y: "luvL_state_yield vm f narg w = luvL_state_yield vm' f narg w" for narg
  proof (cases "luvL_state_is_active f w")
    case (Done b w2)
    then have "w2 = w"
      by (auto simp: luvL_state_is_active_def luvL_thread_self_def to_thread_def deref_def res_simps split: option.splits)
    with Done self(3) show ?thesis by (simp add: luvL_state_yield_def c_assert_def)
  qed (simp_all add: luvL_state_yield_def)
  from assms(1) show ?thesis
    by cases
      (auto intro: fiber_stop.intros simp: y state_suspend_vm [OF self(3), of vm vm'] cond_wait_vm [OF self(3), where vm = vm and vm' = vm']
        fiber_join_vm [OF self(3,1), of vm vm'])
qed

section \<open>An event loop of callbacks\<close>

definition event_vm :: "'x vm \<Rightarrow> 'x sys \<Rightarrow> (nat \<Rightarrow> 'x world \<Rightarrow> uv_event list) \<Rightarrow> (nat \<Rightarrow> 'x world \<Rightarrow> bool) \<Rightarrow> 'x vm" where
  "event_vm vm sys events active =
     vm\<lparr>vm_run_once := (\<lambda>l w. bindR (run_events sys (events l w) w) (\<lambda>_ w. Done (active l w) w))\<rparr>"

locale event_source = luv_vm vm for vm :: "'x vm" +
  fixes sys :: "'x sys" and events :: "nat \<Rightarrow> 'x world \<Rightarrow> uv_event list" and active :: "nat \<Rightarrow> 'x world \<Rightarrow> bool"
  assumes reported: "sched_inv w a \<Longrightarrow> events_ok sys (events l w) w a"

sublocale event_source \<subseteq> turns: luv_vm "event_vm vm sys events active"
proof
  fix w :: "'x world" and a f narg assume inv: "sched_inv w a" and f: "f \<in> running w"
  have "fiber_stop (event_vm vm sys events active) f (w1, a1) stat (w', a')"
    if "api_steps (w, a) (w1, a1)" "fiber_stop vm f (w1, a1) stat (w', a')" for w1 a1 stat w' a'
    using fiber_stop_vm [OF that(2)] api_steps_inv [OF that(1) inv] f by blast
  then show "vm_resume (event_vm vm sys events active) (st_L (w_state w f)) narg w = Fail No_Return \<or>
      (\<exists>stat w1 a1 w' a'. vm_resume (event_vm vm sys events active) (st_L (w_state w f)) narg w = Done stat w' \<and>
         api_steps (w, a) (w1, a1) \<and> fiber_stop (event_vm vm sys events active) f (w1, a1) stat (w', a'))"
    using resume_runs [OF inv f, of narg] by (simp add: event_vm_def) blast
next
  fix w :: "'x world" and a l assume inv: "sched_inv w a"
  show "vm_run_once (event_vm vm sys events active) l w = Fail No_Return \<or>
      (\<exists>b w' a'. vm_run_once (event_vm vm sys events active) l w = Done b w' \<and> api_steps (w, a) (w', a'))"
    using events_steps [OF reported [OF inv, of l] inv] by (auto simp: event_vm_def)
qed

text \<open>
  Fibers that run scripts, and a loop in which the timer of every object fires in each turn and
  which is active as long as there are objects.
\<close>

definition all_timers :: "nat \<Rightarrow> 'x world \<Rightarrow> uv_event list" where
  "all_timers l w = map (\<lambda>ob. Ev_timer ob 0) [0..<w_nobject w]"

lemma timers_ok:
  assumes "sched_inv w a" "\<forall>ob\<in>set obs. ob < w_nobject w"
  shows "events_ok sys (map (\<lambda>ob. Ev_timer ob n) obs) w a"
  using assms
proof (induction obs arbitrary: w a)
  case (Cons ob obs)
  show ?case unfolding list.map
  proof (rule an_event)
    fix w' a' assume "api_steps (w, a) (w', a')"
    then show "events_ok sys (map (\<lambda>ob. Ev_timer ob n) obs) w' a'"
      using Cons.prems api_steps_inv [of w a w' a'] api_steps_object [OF Cons.prems(1)] by (intro Cons.IH) auto
  qed (use Cons.prems in simp)
qed (simp add: no_event)

interpretation timers: event_source script_vm sys all_timers "\<lambda>l w. w_nobject w \<noteq> 0" for sys
  by unfold_locales (simp add: all_timers_def timers_ok)

text \<open>
  A thread that suspends on this machine: its fibers and the callbacks of the timers take turns, the
  invariant holds throughout, and when it returns the thread is ready.
\<close>

lemma suspend_with_timers:
  fixes sys :: "scripts sys"
  assumes "sched_inv (drop_flag LUV_FREADY t w) a" "at_home t w" "ready w t"
  defines "vm \<equiv> event_vm script_vm sys all_timers (\<lambda>l w. w_nobject w \<noteq> 0)"
  shows "luvL_thread_suspend vm t w = Fail No_Return \<or>
    (\<exists>e w' a'. luvL_thread_suspend vm t w = Raise e w' \<and> sched_inv w' a' \<and> at_home t w') \<or>
    (\<exists>n w1 a1. luvL_thread_suspend vm t w = Done n (raise_flag LUV_FREADY t w1) \<and> sched_inv w1 a1 \<and> at_home t w1)"
  unfolding vm_def using timers.turns.suspend_inv [OF assms(1-3)] by blast

end
