(* ===== verification/Process_Props.thy ===== *)
theory Process_Props
  imports Handle_Demo
begin

text \<open>
  The properties of child processes: what \<open>spawn\<close> passes on, where it writes outside its arrays, and
  how the exit of a process reaches the waiting state.
\<close>

section \<open>The environment\<close>

text \<open>The size of the array of variables after \<open>n\<close> of them are stored.\<close>

primrec env_len :: "nat \<Rightarrow> nat" where
  "env_len 0 = 32"
| "env_len (Suc n) = (if env_len n \<le> n then env_len n * 2 else env_len n)"

lemma env_len_cases:
  "n \<le> 32 \<and> env_len n = 32 \<or> (\<exists>j. env_len n = 32 * 2 ^ Suc j \<and> 32 * 2 ^ j < n \<and> n \<le> 32 * 2 ^ Suc j)"
proof (induction n)
  case (Suc n)
  then consider "n < 32" "env_len n = 32" | "n = 32" "env_len n = 32"
    | j where "env_len n = 32 * 2 ^ Suc j" "32 * 2 ^ j < n" "n < 32 * 2 ^ Suc j"
    | j where "env_len n = 32 * 2 ^ Suc j" "n = 32 * 2 ^ Suc j" by fastforce
  then show ?case
  proof cases
    case 3
    then have "env_len (Suc n) = 32 * 2 ^ Suc j \<and> 32 * 2 ^ j < Suc n \<and> Suc n \<le> 32 * 2 ^ Suc j" by simp
    then show ?thesis by blast
  next
    case 4
    then have "env_len (Suc n) = 32 * 2 ^ Suc (Suc j) \<and> 32 * 2 ^ Suc j < Suc n \<and> Suc n \<le> 32 * 2 ^ Suc (Suc j)" by simp
    then show ?thesis by blast
  next
    case 2
    then have "env_len (Suc n) = 32 * 2 ^ Suc 0 \<and> 32 * 2 ^ 0 < Suc n \<and> Suc n \<le> 32 * 2 ^ Suc 0" by (subst env_len.simps) simp
    then show ?thesis by blast
  qed simp
qed simp

lemma env_len_bound: "n \<le> env_len n"
  using env_len_cases [of n] by auto

lemma env_len_full: "n = env_len n \<longleftrightarrow> (\<exists>j. n = 32 * 2 ^ j)"
proof
  assume "n = env_len n"
  then show "\<exists>j. n = 32 * 2 ^ j" using env_len_cases [of n] by (metis mult.right_neutral power_0)
next
  assume "\<exists>j. n = 32 * 2 ^ j"
  then obtain j where n: "n = 32 * 2 ^ j" by blast
  show "n = env_len n"
  proof (cases "n \<le> 32 \<and> env_len n = 32")
    case True
    with n have "\<not> 0 < j" using one_less_power [of "2 :: nat" j] by auto
    with n True show ?thesis by simp
  next
    case False
    with env_len_cases obtain i where i: "env_len n = 32 * 2 ^ Suc i" "32 * 2 ^ i < n" "n \<le> 32 * 2 ^ Suc i" by blast
    with n have "(2 :: nat) ^ i < 2 ^ j" "(2 :: nat) ^ j \<le> 2 ^ Suc i" by simp_all
    then have "i < j" "j \<le> Suc i" by (simp_all only: power_strict_increasing_iff power_increasing_iff one_less_numeral_iff semiring_norm)
    with n i show ?thesis by (simp add: le_Suc_eq)
  qed
qed

text \<open>An allocator gives at least the bytes asked for.\<close>

definition malloc_law :: "'x sys \<Rightarrow> bool" where
  "malloc_law sys \<longleftrightarrow> (\<forall>n. n \<le> sys_usable sys n)"

lemma cell_inside: "malloc_law sys \<Longrightarrow> i < n \<Longrightarrow> cell_ok sys n i"
  unfolding malloc_law_def cell_ok_def by (erule allE [of _ "8 * n"]) simp

definition names_ok :: "entries \<Rightarrow> bool" where
  "names_ok es \<longleftrightarrow> entries_ok es \<and> (\<forall>e\<in>set es. is_str (fst e))"

lemma str_key: "is_str (fst e) \<Longrightarrow> key_ok (fst e)"
  by (cases "fst e") auto

lemma env_round_next:
  assumes "malloc_law sys" "names_ok (ds @ e # es)"
  shows "env_round sys (ds @ e # es) (if ds = [] then LNil else fst (last ds), map (env_string sys) ds, env_len (length ds))
    = Done True (fst e, map (env_string sys) (ds @ [e]), env_len (length (ds @ [e])))"
proof -
  have len: "length ds < env_len (Suc (length ds))" using env_len_bound [of "Suc (length ds)"] by simp
  have key: "next_key sys (fst e) = fst e" using assms(2) by (cases "fst e") (auto simp: names_ok_def next_key_def)
  have nx: "lua_next (ds @ e # es) (if ds = [] then LNil else fst (last ds)) = Some e"
  proof (cases ds rule: rev_cases)
    case Nil
    then show ?thesis by (cases e) (simp add: lua_next_first)
  next
    case (snoc ds' d)
    with lua_next_after [of ds' "fst d" "snd d" "e # es"] assms(2) show ?thesis by (simp add: names_ok_def)
  qed
  have found: "ds \<noteq> [] \<Longrightarrow> \<exists>d\<in>set (ds @ e # es). raw_eq (fst d) (fst (last ds))"
    using assms(2) str_key [of "last ds"] by (intro bexI [of _ "last ds"]) (auto simp: names_ok_def raw_eq_refl)
  show ?thesis
    using nx key found cell_inside [OF assms(1) len]
    by (cases e) (auto simp: env_round_def Let_def)
qed

lemma env_round_stop:
  assumes "names_ok ds"
  shows "env_round sys ds (if ds = [] then LNil else fst (last ds), st)
    = Done False (if ds = [] then LNil else fst (last ds), st)"
proof (cases ds rule: rev_cases)
  case Nil
  then show ?thesis by (cases st) (simp add: env_round_def lua_next_def)
next
  case (snoc ds' d)
  have k: "key_ok (fst d)" "raw_eq (fst d) (fst d)" using assms snoc using str_key [of d] by (auto simp: names_ok_def raw_eq_refl)
  then have "lua_next ds (fst d) = None" using lua_next_after [of ds' "fst d" "snd d" "[]"] assms snoc by (simp add: names_ok_def)
  with k snoc show ?thesis by (cases st) (auto simp: env_round_def)
qed

lemma env_loop_from:
  assumes "malloc_law sys" "names_ok (ds @ es)"
  shows "\<exists>k. loopR (env_round sys (ds @ es)) (if ds = [] then LNil else fst (last ds), map (env_string sys) ds, env_len (length ds))
    = Done () (k, map (env_string sys) (ds @ es), env_len (length (ds @ es)))"
  using assms(2)
proof (induction es arbitrary: ds)
  case Nil
  then show ?case by (subst loopR_unfold) (simp add: env_round_stop)
next
  case (Cons e es)
  then have "names_ok ((ds @ [e]) @ es)" by simp
  from Cons.IH [OF this] show ?case
    by (subst loopR_unfold, subst env_round_next [OF assms(1) Cons.prems]) simp
qed

text \<open>C35: The loop over the table of environment variables ends for every table with string keys, whatever its size,
  stays inside its growing array and stores \<open>name=value\<close> for each entry in order.  The end mark
  that follows is inside the array unless the number of entries is \<open>32 * 2 ^ j\<close>: with an
  allocator that gives exactly the bytes asked for, \<open>spawn\<close> then writes past the end.\<close>

theorem spawn_env_bounds:
  assumes "malloc_law sys" "names_ok es"
  shows "\<exists>k len. env_loop sys es = Done () (k, map (env_string sys) es, len) \<and> length es \<le> len \<and>
    (\<exists>j. len = 32 * 2 ^ j) \<and> ((\<nexists>j. length es = 32 * 2 ^ j) \<longrightarrow> cell_ok sys len (length es)) \<and>
    ((\<exists>j. length es = 32 * 2 ^ j) \<longrightarrow> (\<forall>n. sys_usable sys n = n) \<longrightarrow> \<not> cell_ok sys len (length es))"
proof -
  let ?n = "length es"
  obtain k where k: "env_loop sys es = Done () (k, map (env_string sys) es, env_len ?n)"
    using env_loop_from [OF assms(1), of "[]" es] assms(2) by (auto simp: env_loop_def)
  have "\<exists>j. env_len ?n = 32 * 2 ^ j" using env_len_cases [of ?n] by (metis mult.right_neutral power_0)
  moreover have "cell_ok sys (env_len ?n) ?n" if "\<nexists>j. ?n = 32 * 2 ^ j"
    using that env_len_full [of ?n] env_len_bound [of ?n] by (intro cell_inside [OF assms(1)]) auto
  moreover have "\<not> cell_ok sys (env_len ?n) ?n" if "\<exists>j. ?n = 32 * 2 ^ j" "\<forall>n. sys_usable sys n = n"
    using that env_len_full [of ?n] by (simp add: cell_ok_def)
  ultimately show ?thesis using k env_len_bound by blast
qed

text \<open>Names \<open>1\<close> to \<open>n\<close> as a table of variables.\<close>

definition demo_names :: "nat \<Rightarrow> entries" where
  "demo_names n = map (\<lambda>i. (LStr (replicate i 65), LStr [66])) [0..<n]"

lemma demo_names_ok: "names_ok (demo_names n)"
  by (induction n) (auto simp: names_ok_def demo_names_def entries_ok_append)

definition plain_sys :: "unit sys" where "plain_sys = demo_sys"

theorem spawn_env_bounds_witness:
  "(\<exists>k len. env_loop plain_sys (demo_names 40) = Done () (k, map (env_string plain_sys) (demo_names 40), len)) \<and>
   (\<exists>k len. env_loop plain_sys (demo_names 64) = Done () (k, map (env_string plain_sys) (demo_names 64), len) \<and>
     \<not> cell_ok plain_sys len 64)"
proof -
  have m: "malloc_law plain_sys" and u: "\<forall>n. sys_usable plain_sys n = n"
    by (simp_all add: malloc_law_def plain_sys_def demo_sys_def)
  have l: "length (demo_names 64) = 64" by (simp add: demo_names_def)
  then have "\<exists>j. length (demo_names 64) = 32 * 2 ^ j" by (intro exI [of _ 1]) simp
  with spawn_env_bounds [OF m demo_names_ok, of 64] u l show ?thesis
    using spawn_env_bounds [OF m demo_names_ok, of 40] by metis
qed

section \<open>Arguments\<close>

lemma lua_pop_push [simp]: "lua_pop L (Suc 0) (lua_push L v w) = w"
  by (simp add: lua_pop_def lua_settop_def lua_push_def lua_gettop_def adjust_def upd_stack_def)

lemma lua_top_push [simp]: "lua_top L (lua_push L v w) = v"
  by (simp add: lua_top_def lua_arg_def lua_gettop_def)


text \<open>A call \<open>spawn(cmd, opts)\<close> whose table of options has the arguments \<open>args\<close>.\<close>

definition spawn_call :: "'x sys \<Rightarrow> lid \<Rightarrow> bytes \<Rightarrow> nat \<Rightarrow> bytes list \<Rightarrow> 'x world \<Rightarrow> bool" where
  "spawn_call sys L cmd t args w \<longleftrightarrow> w_stack w L = [LStr cmd, LTable t] \<and>
     (let es = t_entries (h_table (w_heap w) t)
      in sys_objlen sys es = length args \<and> (\<forall>i<length args. raw_get es (lua_int (Suc i)) = LStr (args ! i)))"

lemma spawn_callD:
  assumes "spawn_call sys L cmd t args w"
  shows "luaL_checkstring sys L 1 w = Done (c_string cmd) w" "luaL_checktype L 2 LUA_TTABLE name w = Done () w"
    "lua_arg L 2 w = Some (LTable t)" "lua_gettop L w = 2"
    "process_args sys L c w = (if cell_ok sys (length args + 1) (length args + 1)
       then Done (Some c # map (\<lambda>a. Some (c_string a)) args @ [None]) w else Fail Out_Of_Bounds)"
proof -
  let ?es = "t_entries (h_table (w_heap w) t)"
  have st: "w_stack w L = [LStr cmd, LTable t]" and len: "sys_objlen sys ?es = length args"
    and get: "\<And>i. i < length args \<Longrightarrow> raw_get ?es (lua_int (Suc i)) = LStr (args ! i)"
    using assms by (simp_all add: spawn_call_def Let_def)
  show "luaL_checkstring sys L 1 w = Done (c_string cmd) w" "luaL_checktype L 2 LUA_TTABLE name w = Done () w"
    and arg: "lua_arg L 2 w = Some (LTable t)" and top: "lua_gettop L w = 2"
    by (simp_all add: luaL_checkstring_def luaL_checklstring_def luaL_checktype_def lua_arg_def lua_gettop_def st lua_text_def)
  have "map (\<lambda>i. c_text sys (raw_get ?es (lua_int i))) [1..<Suc (length args)] = map (\<lambda>a. Some (c_string a)) args"
    by (rule nth_equalityI) (simp_all add: get c_text_def lua_text_def del: upt_Suc)
  moreover have "lua_top L w = LTable t" using arg top by (simp add: lua_top_def)
  ultimately have "arg_cells sys L c (length args) w = Done (Some c # map (\<lambda>a. Some (c_string a)) args) w"
    by (auto simp: arg_cells_def simp del: upt_Suc)
  then show "process_args sys L c w = (if cell_ok sys (length args + 1) (length args + 1)
       then Done (Some c # map (\<lambda>a. Some (c_string a)) args @ [None]) w else Fail Out_Of_Bounds)"
    using arg len by (simp add: process_args_def Let_def)
qed

text \<open>C34: Whatever the command and however many arguments it has, \<open>spawn\<close> writes the null pointer that ends the
  array of arguments one cell past the memory it allocated: the array has \<open>argc + 1\<close> cells and the
  end mark goes to cell \<open>argc + 1\<close>.  Only an allocator that happens to give eight bytes more than
  asked for keeps the call inside the block.\<close>

theorem spawn_args_overflow:
  assumes "spawn_call sys L cmd t args w" "sys_usable sys (8 * (length args + 1)) < 8 * (length args + 1) + 8"
  shows "luv_new_process vm sys L w = Fail Out_Of_Bounds"
  using spawn_callD [OF assms(1)] assms(2) by (simp add: luv_new_process_def cell_ok_def)

definition spawn_world :: "scripts world" where
  "spawn_world = (upd_stack demo_L (\<lambda>_. [LStr [99], LTable 0]) two_world)
     \<lparr>w_heap := (w_heap two_world)\<lparr>h_table := (\<lambda>_. \<lparr>t_entries = [(lua_int 1, LStr [97])], t_codec = LNil\<rparr>)\<rparr>\<rparr>"

lemma raw_get_first: "raw_get [(lua_int (Suc 0), v)] (lua_int (Suc 0)) = v"
  using raw_eq_lua_int [of 1 1] by simp

lemma spawn_world_call: "sys_objlen sys = length \<Longrightarrow> spawn_call sys demo_L [99] 0 [[97]] spawn_world"
  by (simp add: spawn_call_def spawn_world_def raw_get_first del: raw_get.simps)

theorem spawn_args_overflow_witness: "luv_new_process no_vm demo_sys demo_L spawn_world = Fail Out_Of_Bounds"
  by (rule spawn_args_overflow [OF spawn_world_call]) (simp_all add: demo_sys_def)

section \<open>From spawn to exit\<close>









end
