(* ===== verification/Luv_Info.thy ===== *)
theory Luv_Info
  imports Luv_Fs Luv_Net Luv_Process Luv_Zmq
begin

text \<open>
  System information of \<open>src/src/luv.c\<close> (\<open>cpu_info\<close>, \<open>mem_free\<close>, \<open>mem_total\<close>, \<open>hrtime\<close>, \<open>self\<close>,
  \<open>interface_addresses\<close>), the handler of errors \<open>luvL_traceback\<close>, and the \<open>__tostring\<close> methods of all
  classes.
\<close>

section \<open>Tables\<close>

definition set_field :: "nat \<Rightarrow> string \<Rightarrow> lua_value \<Rightarrow> lua_heap \<Rightarrow> lua_heap" where
  "set_field t name v h =
     h\<lparr>h_table := (h_table h)(t := (h_table h t)\<lparr>t_entries := raw_put (LStr (str name)) v (t_entries (h_table h t))\<rparr>)\<rparr>"

definition set_index :: "nat \<Rightarrow> nat \<Rightarrow> lua_value \<Rightarrow> lua_heap \<Rightarrow> lua_heap" where
  "set_index t i v h =
     h\<lparr>h_table := (h_table h)(t := (h_table h t)\<lparr>t_entries := raw_put (lua_int i) v (t_entries (h_table h t))\<rparr>)\<rparr>"

text \<open>An unsigned 64-bit number converted to \<open>lua_Integer\<close>.\<close>

definition lua_unsigned :: "u64 \<Rightarrow> lua_value" where
  "lua_unsigned n = lua_int_value (sint n)"

section \<open>Memory, time, the calling state\<close>

definition luv_mem_free :: "'x sys \<Rightarrow> lid \<Rightarrow> ('x, int) luv" where
  "luv_mem_free sys L w = Done 1 (lua_push L (lua_unsigned (sys_free_memory sys (w_ext w))) w)"

definition luv_mem_total :: "'x sys \<Rightarrow> lid \<Rightarrow> ('x, int) luv" where
  "luv_mem_total sys L w = Done 1 (lua_push L (lua_unsigned (sys_total_memory sys (w_ext w))) w)"

definition luv_hrtime :: "'x sys \<Rightarrow> lid \<Rightarrow> ('x, int) luv" where
  "luv_hrtime sys L w = Done 1 (lua_push L (lua_unsigned (sys_hrtime sys (w_ext w))) w)"

text \<open>
  The value the registry has for a coroutine: \<open>nil\<close>, the userdata allocated with the state, or, in a
  thread that \<open>luvL_thread_create\<close> started, a light userdata.
\<close>

definition state_value :: "'x sys \<Rightarrow> sid \<Rightarrow> 'x world \<Rightarrow> lua_value" where
  "state_value sys s w =
     (if st_type (w_state w s) = LUV_TTHREAD \<and> st_outer (w_state w s) \<noteq> s then LLight (sys_light sys s)
      else case find (\<lambda>u. map_option u_ptr (w_udata w u) = Some (PState s)) [0..<w_nudata w] of
          Some u \<Rightarrow> LUser u
        | None \<Rightarrow> LNil)"

definition luv_self :: "'x sys \<Rightarrow> lid \<Rightarrow> ('x, int) luv" where
  "luv_self sys L w = Done 1 (lua_push L (case w_registry w L of None \<Rightarrow> LNil | Some s \<Rightarrow> state_value sys s w) w)"

section \<open>Processors\<close>

definition cpu_table :: "cpu_info \<Rightarrow> lua_heap \<Rightarrow> nat \<times> lua_heap" where
  "cpu_table c h =
     (let (t, h) = new_table [] h;
          h = set_field t ''model'' (LStr (c_string (cpu_model c))) h;
          h = set_field t ''speed'' (lua_int_value (cpu_speed c)) h;
          (times, h) = new_table [] h; (user, nice, sys, idle, irq) = cpu_times c;
          h = set_field times ''user'' (lua_unsigned user) h;
          h = set_field times ''nice'' (lua_unsigned nice) h;
          h = set_field times ''sys'' (lua_unsigned sys) h;
          h = set_field times ''idle'' (lua_unsigned idle) h;
          h = set_field times ''irq'' (lua_unsigned irq) h
      in (t, set_field t ''times'' (LTable times) h))"

fun cpu_tables :: "nat \<Rightarrow> nat \<Rightarrow> cpu_info list \<Rightarrow> lua_heap \<Rightarrow> lua_heap" where
  "cpu_tables out i [] h = h"
| "cpu_tables out i (c # cs) h =
     (let (t, h) = cpu_table c h in cpu_tables out (Suc i) cs (set_index out (Suc i) (LTable t) h))"

definition luv_cpu_info :: "'x sys \<Rightarrow> lid \<Rightarrow> ('x, int) luv" where
  "luv_cpu_info sys L w =
     (case sys_cpu_info sys (w_ext w) of
        Inl err \<Rightarrow> Raise (LStr (c_string (sys_strerror sys err))) (lua_pushboolean L False (lua_settop L 0 w))
      | Inr cpus \<Rightarrow>
          let (out, h) = new_table [] (w_heap w)
          in bindR (uv sys Uv_free_cpu_info ((lua_push L (LTable out) (lua_settop L 0 w))\<lparr>w_heap := cpu_tables out 0 cpus h\<rparr>))
               (\<lambda>_ w. Done 1 w))"

section \<open>Network interfaces\<close>

definition AF_INET :: int where "AF_INET = 2"
definition AF_INET6 :: int where "AF_INET6 = 10"

text \<open>
  The text buffer is a local variable that only addresses of the two families are written to; it
  keeps the text of the interface before.
\<close>

definition if_text :: "interface_address \<Rightarrow> bytes option \<Rightarrow> bytes option" where
  "if_text a buf =
     (if sa_family (if_addr a) = AF_INET \<or> sa_family (if_addr a) = AF_INET6 then Some (sa_host (if_addr a)) else buf)"

fun if_tables :: "nat \<Rightarrow> nat \<Rightarrow> bytes option \<Rightarrow> interface_address list \<Rightarrow> lua_heap \<Rightarrow> lua_heap option" where
  "if_tables out i buf [] h = Some h"
| "if_tables out i buf (a # as) h =
     (let (t, h) = new_table [] h;
          h = set_field t ''name'' (LStr (c_string (if_name a))) h;
          h = set_field t ''is_internal'' (LBool (if_internal a)) h
      in case if_text a buf of
           None \<Rightarrow> None
         | Some s \<Rightarrow>
             let h = set_field t ''address'' (LStr (c_string s)) h
             in if_tables out (Suc i) (Some s) as (set_index out (Suc i) (LTable t) h))"

definition luv_interface_addresses :: "'x sys \<Rightarrow> lid \<Rightarrow> ('x, int) luv" where
  "luv_interface_addresses sys L w =
     (case sys_interfaces sys (w_ext w) of
        Inl err \<Rightarrow> Raise (LStr (c_string (sys_strerror sys err))) (lua_pushboolean L False (lua_settop L 0 w))
      | Inr addrs \<Rightarrow>
          let (out, h) = new_table [] (w_heap w)
          in case if_tables out 0 None addrs h of
               None \<Rightarrow> Fail Uninitialized
             | Some h \<Rightarrow>
                 bindR (uv sys Uv_free_interface_addresses ((lua_push L (LTable out) (lua_settop L 0 w))\<lparr>w_heap := h\<rparr>))
                   (\<lambda>_ w. Done 1 w))"

section \<open>Tracebacks\<close>

text \<open>
  The handler of a protected call: \<open>globals\<close> reads a global variable, \<open>call L n m\<close> is \<open>lua_call\<close> with
  \<open>n\<close> arguments and \<open>m\<close> results on the stack of \<open>L\<close>.
\<close>

definition luvL_traceback ::
    "(string \<Rightarrow> lua_value) \<Rightarrow> (lid \<Rightarrow> nat \<Rightarrow> nat \<Rightarrow> ('x, unit) luv) \<Rightarrow> lid \<Rightarrow> ('x, int) luv" where
  "luvL_traceback globals call L w =
     (case globals ''debug'' of
        LTable t \<Rightarrow>
          let w = lua_push L (LTable t) w; f = raw_get (t_entries (h_table (w_heap w) t)) (LStr (str ''traceback''));
              w = lua_push L f w
          in if \<not> is_fun f then Done 1 (lua_pop L 2 w)
             else let w = lua_push L (case lua_arg L 1 w of None \<Rightarrow> LNil | Some v \<Rightarrow> v) w;
                      w = lua_pushinteger L 2 w
                  in bindR (call L 2 1 w) (\<lambda>_ w. Done 1 w)
      | v \<Rightarrow> Done 1 (lua_pop L 1 (lua_push L v w)))"

section \<open>Userdata as text\<close>

definition push_text :: "'x sys \<Rightarrow> lid \<Rightarrow> string \<Rightarrow> ptr option \<Rightarrow> 'x world \<Rightarrow> 'x world" where
  "push_text sys L tname p = lua_push L (LStr (str ''userdata<'' @ str tname @ str ''>: '' @ sys_address sys p))"

definition checked_text :: "'x sys \<Rightarrow> string \<Rightarrow> lid \<Rightarrow> ('x, int) luv" where
  "checked_text sys tname L w =
     bindR (luaL_checkudata L 1 tname w) (\<lambda>p w. Done 1 (push_text sys L tname (Some p) w))"

definition unchecked_text :: "'x sys \<Rightarrow> string \<Rightarrow> lid \<Rightarrow> ('x, int) luv" where
  "unchecked_text sys tname L w = Done 1 (push_text sys L tname (lua_touserdata L 1 w) w)"

definition luv_cond_tostring :: "'x sys \<Rightarrow> lid \<Rightarrow> ('x, int) luv" where
  "luv_cond_tostring sys = checked_text sys LUV_COND_T"

definition luv_fiber_tostring :: "'x sys \<Rightarrow> lid \<Rightarrow> ('x, int) luv" where
  "luv_fiber_tostring sys = unchecked_text sys LUV_FIBER_T"

definition luv_thread_tostring :: "'x sys \<Rightarrow> lid \<Rightarrow> ('x, int) luv" where
  "luv_thread_tostring sys = checked_text sys LUV_THREAD_T"

definition luv_timer_tostring :: "'x sys \<Rightarrow> lid \<Rightarrow> ('x, int) luv" where
  "luv_timer_tostring sys = checked_text sys LUV_TIMER_T"

definition luv_idle_tostring :: "'x sys \<Rightarrow> lid \<Rightarrow> ('x, int) luv" where
  "luv_idle_tostring sys = checked_text sys LUV_IDLE_T"

definition luv_file_tostring :: "'x sys \<Rightarrow> lid \<Rightarrow> ('x, int) luv" where
  "luv_file_tostring sys = checked_text sys LUV_FILE_T"

definition luv_stream_tostring :: "'x sys \<Rightarrow> lid \<Rightarrow> ('x, int) luv" where
  "luv_stream_tostring sys = unchecked_text sys ''luv.stream''"

definition luv_pipe_tostring :: "'x sys \<Rightarrow> lid \<Rightarrow> ('x, int) luv" where
  "luv_pipe_tostring sys = checked_text sys LUV_PIPE_T"

definition luv_tcp_tostring :: "'x sys \<Rightarrow> lid \<Rightarrow> ('x, int) luv" where
  "luv_tcp_tostring sys = checked_text sys LUV_NET_TCP_T"

definition luv_udp_tostring :: "'x sys \<Rightarrow> lid \<Rightarrow> ('x, int) luv" where
  "luv_udp_tostring sys = checked_text sys LUV_NET_UDP_T"

definition luv_process_tostring :: "'x sys \<Rightarrow> lid \<Rightarrow> ('x, int) luv" where
  "luv_process_tostring sys = checked_text sys LUV_PROCESS_T"

definition luv_zmq_socket_tostring :: "'x sys \<Rightarrow> lid \<Rightarrow> ('x, int) luv" where
  "luv_zmq_socket_tostring sys = unchecked_text sys LUV_ZMQ_SOCKET_T"

definition luv_zmq_ctx_tostring :: "'x sys \<Rightarrow> lid \<Rightarrow> ('x, int) luv" where
  "luv_zmq_ctx_tostring sys = unchecked_text sys LUV_ZMQ_CTX_T"

end
