(* ===== verification/Luv_Module.thy ===== *)
theory Luv_Module
  imports Luv_Info
begin

text \<open>
  The module (\<open>src/src/luv.c\<close>): the tables of functions and methods of every file, module and class
  tables, the hooks that send a module to another Lua state, and \<open>luaopen_luv\<close>.

  A C function is a closure with the name of the function; \<open>w_names w G\<close> is the part of the registry
  of the Lua state \<open>G\<close> with string keys, shared by all its coroutines.  The functions that leave a
  table on the stack have it as their result here.
\<close>

section \<open>Tables of functions\<close>

text \<open>
  The arrays have 32 entries (\<open>src/src/luv.h\<close>), so that those without a final null entry are ended by
  the zeros that follow.
\<close>

type_synonym luaL_Reg = "(string \<times> string) list"

definition luv_thread_funcs :: luaL_Reg where
  "luv_thread_funcs =
    [(''spawn'', ''luv_new_thread'')]"

definition luv_thread_meths :: luaL_Reg where
  "luv_thread_meths =
    [(''join'', ''luv_thread_join''), (''__gc'', ''luv_thread_free''),
     (''__tostring'', ''luv_thread_tostring'')]"

definition luv_fiber_funcs :: luaL_Reg where
  "luv_fiber_funcs =
    [(''create'', ''luv_new_fiber'')]"

definition luv_fiber_meths :: luaL_Reg where
  "luv_fiber_meths =
    [(''join'', ''luv_fiber_join''), (''ready'', ''luv_fiber_ready''), (''__gc'', ''luv_fiber_free''),
     (''__tostring'', ''luv_fiber_tostring'')]"

definition luv_cond_funcs :: luaL_Reg where
  "luv_cond_funcs =
    [(''create'', ''luv_new_cond'')]"

definition luv_cond_meths :: luaL_Reg where
  "luv_cond_meths =
    [(''wait'', ''luv_cond_wait''), (''signal'', ''luv_cond_signal''), (''broadcast'', ''luv_cond_broadcast''),
     (''__gc'', ''luv_cond_free''), (''__tostring'', ''luv_cond_tostring'')]"

definition luv_codec_funcs :: luaL_Reg where
  "luv_codec_funcs =
    [(''encode'', ''luv_codec_encode''), (''decode'', ''luv_codec_decode'')]"

definition luv_timer_funcs :: luaL_Reg where
  "luv_timer_funcs =
    [(''create'', ''luv_new_timer'')]"

definition luv_timer_meths :: luaL_Reg where
  "luv_timer_meths =
    [(''start'', ''luv_timer_start''), (''again'', ''luv_timer_again''), (''stop'', ''luv_timer_stop''),
     (''wait'', ''luv_timer_wait''), (''__gc'', ''luv_timer_free''), (''__tostring'', ''luv_timer_tostring'')]"

definition luv_idle_funcs :: luaL_Reg where
  "luv_idle_funcs =
    [(''create'', ''luv_new_idle'')]"

definition luv_idle_meths :: luaL_Reg where
  "luv_idle_meths =
    [(''start'', ''luv_idle_start''), (''stop'', ''luv_idle_stop''), (''wait'', ''luv_idle_wait''),
     (''__gc'', ''luv_idle_free''), (''__tostring'', ''luv_idle_tostring'')]"

definition luv_fs_funcs :: luaL_Reg where
  "luv_fs_funcs =
    [(''open'', ''luv_fs_open''), (''unlink'', ''luv_fs_unlink''), (''mkdir'', ''luv_fs_mkdir''),
     (''rmdir'', ''luv_fs_rmdir''), (''readdir'', ''luv_fs_readdir''), (''stat'', ''luv_fs_stat''),
     (''rename'', ''luv_fs_rename''), (''sendfile'', ''luv_fs_sendfile''), (''chmod'', ''luv_fs_chmod''),
     (''chown'', ''luv_fs_chown''), (''utime'', ''luv_fs_utime''), (''lstat'', ''luv_fs_lstat''),
     (''link'', ''luv_fs_link''), (''symlink'', ''luv_fs_symlink''), (''readlink'', ''luv_fs_readlink''),
     (''cwd'', ''luv_fs_cwd''), (''chdir'', ''luv_fs_chdir''), (''exepath'', ''luv_fs_exepath'')]"

definition luv_file_meths :: luaL_Reg where
  "luv_file_meths =
    [(''read'', ''luv_file_read''), (''write'', ''luv_file_write''), (''close'', ''luv_file_close''),
     (''stat'', ''luv_file_stat''), (''sync'', ''luv_file_sync''), (''utime'', ''luv_file_utime''),
     (''chmod'', ''luv_file_chmod''), (''chown'', ''luv_file_chown''), (''datasync'', ''luv_file_datasync''),
     (''truncate'', ''luv_file_truncate''), (''__gc'', ''luv_file_free''),
     (''__tostring'', ''luv_file_tostring'')]"

definition luv_stream_meths :: luaL_Reg where
  "luv_stream_meths =
    [(''read'', ''luv_stream_read''), (''readable'', ''luv_stream_readable''),
     (''write'', ''luv_stream_write''), (''writable'', ''luv_stream_writable''),
     (''start'', ''luv_stream_start''), (''stop'', ''luv_stream_stop''), (''listen'', ''luv_stream_listen''),
     (''accept'', ''luv_stream_accept''), (''shutdown'', ''luv_stream_shutdown''),
     (''close'', ''luv_stream_close''), (''__gc'', ''luv_stream_free''),
     (''__tostring'', ''luv_stream_tostring'')]"

definition luv_pipe_funcs :: luaL_Reg where
  "luv_pipe_funcs =
    [(''create'', ''luv_new_pipe'')]"

definition luv_pipe_meths :: luaL_Reg where
  "luv_pipe_meths =
    [(''open'', ''luv_pipe_open''), (''bind'', ''luv_pipe_bind''), (''connect'', ''luv_pipe_connect''),
     (''__tostring'', ''luv_pipe_tostring'')]"

definition luv_net_funcs :: luaL_Reg where
  "luv_net_funcs =
    [(''tcp'', ''luv_new_tcp''), (''udp'', ''luv_new_udp''), (''getaddrinfo'', ''luv_getaddrinfo'')]"

definition luv_net_tcp_meths :: luaL_Reg where
  "luv_net_tcp_meths =
    [(''bind'', ''luv_tcp_bind''), (''connect'', ''luv_tcp_connect''),
     (''getsockname'', ''luv_tcp_getsockname''), (''getpeername'', ''luv_tcp_getpeername''),
     (''keepalive'', ''luv_tcp_keepalive''), (''nodelay'', ''luv_tcp_nodelay''),
     (''__tostring'', ''luv_tcp_tostring'')]"

definition luv_net_udp_meths :: luaL_Reg where
  "luv_net_udp_meths =
    [(''bind'', ''luv_udp_bind''), (''send'', ''luv_udp_send''), (''recv'', ''luv_udp_recv''),
     (''membership'', ''luv_udp_membership''), (''__gc'', ''luv_udp_free''),
     (''__tostring'', ''luv_udp_tostring'')]"

definition luv_process_funcs :: luaL_Reg where
  "luv_process_funcs =
    [(''spawn'', ''luv_new_process'')]"

definition luv_process_meths :: luaL_Reg where
  "luv_process_meths =
    [(''kill'', ''luv_process_kill''), (''__gc'', ''luv_process_free''),
     (''__tostring'', ''luv_process_tostring'')]"

definition luv_zmq_funcs :: luaL_Reg where
  "luv_zmq_funcs =
    [(''create'', ''luv_new_zmq'')]"

definition luv_zmq_ctx_meths :: luaL_Reg where
  "luv_zmq_ctx_meths =
    [(''socket'', ''luv_zmq_ctx_socket''), (''__codec'', ''luv_zmq_ctx_encoder''),
     (''__gc'', ''luv_zmq_ctx_free''), (''__tostring'', ''luv_zmq_ctx_tostring'')]"

definition luv_zmq_socket_meths :: luaL_Reg where
  "luv_zmq_socket_meths =
    [(''bind'', ''luv_zmq_socket_bind''), (''connect'', ''luv_zmq_socket_connect''),
     (''send'', ''luv_zmq_socket_send''), (''recv'', ''luv_zmq_socket_recv''),
     (''close'', ''luv_zmq_socket_close''), (''getsockopt'', ''luv_zmq_socket_getsockopt''),
     (''setsockopt'', ''luv_zmq_socket_setsockopt''), (''__gc'', ''luv_zmq_socket_free''),
     (''__tostring'', ''luv_zmq_socket_tostring'')]"

definition luv_funcs :: luaL_Reg where
  "luv_funcs =
    [(''cpu_info'', ''luv_cpu_info''), (''mem_free'', ''luv_mem_free''), (''mem_total'', ''luv_mem_total''),
     (''hrtime'', ''luv_hrtime''), (''self'', ''luv_self''), (''sleep'', ''luv_sleep''),
     (''interface_addresses'', ''luv_interface_addresses'')]"

section \<open>Constants of ZeroMQ\<close>

text \<open>The values are those of \<open>zmq.h\<close> (version 3.2).\<close>

definition luv_zmq_consts :: "(string \<times> int) list" where
  "luv_zmq_consts =
    [(''IO_THREADS'', 1), (''MAX_SOCKETS'', 2),
     (''REQ'', 3), (''REP'', 4), (''DEALER'', 5), (''ROUTER'', 6), (''PUB'', 1), (''SUB'', 2), (''PUSH'', 8), (''PULL'', 7), (''PAIR'', 0),
     (''SNDHWM'', 23), (''RCVHWM'', 24), (''AFFINITY'', 4), (''IDENTITY'', 5), (''SUBSCRIBE'', 6), (''UNSUBSCRIBE'', 7),
     (''RATE'', 8), (''RECOVERY_IVL'', 9), (''SNDBUF'', 11), (''RCVBUF'', 12), (''RCVMORE'', 13), (''FD'', 14), (''EVENTS'', 15),
     (''TYPE'', 16), (''LINGER'', 17), (''RECONNECT_IVL'', 18), (''BACKLOG'', 19), (''RECONNECT_IVL_MAX'', 21),
     (''RCVTIMEO'', 27), (''SNDTIMEO'', 28), (''IPV4ONLY'', 31), (''ROUTER_BEHAVIOR'', 33), (''TCP_KEEPALIVE'', 34),
     (''TCP_KEEPALIVE_IDLE'', 36), (''TCP_KEEPALIVE_CNT'', 35), (''TCP_KEEPALIVE_INTVL'', 37), (''TCP_ACCEPT_FILTER'', 38),
     (''MORE'', 1), (''DONTWAIT'', 1), (''SNDMORE'', 2), (''POLLIN'', 1), (''POLLOUT'', 2), (''POLLERR'', 4),
     (''STREAMER'', 1), (''FORWARDER'', 2), (''QUEUE'', 3)]"

section \<open>Modules and classes\<close>

definition set_registry :: "lid \<Rightarrow> string \<Rightarrow> lua_value \<Rightarrow> 'x world \<Rightarrow> 'x world" where
  "set_registry G name v w = w\<lparr>w_names := (w_names w)(G := (w_names w G)(str name := v))\<rparr>"

text \<open>\<open>lua_pushcfunction\<close>.\<close>

definition new_cfunction :: "string \<Rightarrow> lua_heap \<Rightarrow> lua_value \<times> lua_heap" where
  "new_cfunction fn h =
     (LFun (h_fnext h),
      h\<lparr>h_fun := (h_fun h)(h_fnext h := \<lparr>f_lua = False, f_c = fn, f_proto = 0, f_upvals = []\<rparr>),
        h_fnext := Suc (h_fnext h)\<rparr>)"

text \<open>\<open>luaL_register(L, NULL, funcs)\<close>.\<close>

fun luaL_register :: "nat \<Rightarrow> luaL_Reg \<Rightarrow> lua_heap \<Rightarrow> lua_heap" where
  "luaL_register t [] h = h"
| "luaL_register t ((name, fn) # funcs) h =
     (let (f, h) = new_cfunction fn h in luaL_register t funcs (set_field t name f h))"

text \<open>The table is its own metatable, so its field \<open>__codec\<close> is its hook.\<close>

definition luvL_new_module :: "lid \<Rightarrow> string \<Rightarrow> luaL_Reg \<Rightarrow> 'x world \<Rightarrow> nat \<times> 'x world" where
  "luvL_new_module G name funcs w =
     (let (t, h) = new_table [] (w_heap w);
          h = set_field t ''__name'' (LStr (str name)) h;
          (f, h) = new_cfunction ''luvL_lib_encoder'' h;
          h = set_field t ''__codec'' f h;
          h = h\<lparr>h_table := (h_table h)(t := (h_table h t)\<lparr>t_codec := f\<rparr>)\<rparr>;
          w = set_registry G name (LTable t) (w\<lparr>w_heap := h\<rparr>)
      in (t, w\<lparr>w_heap := luaL_register t funcs (w_heap w)\<rparr>))"

definition luaL_newmetatable :: "lid \<Rightarrow> string \<Rightarrow> ('x, nat) luv" where
  "luaL_newmetatable G name w = (case w_names w G (str name) of
       LNil \<Rightarrow> let (t, h) = new_table [] (w_heap w) in Done t (set_registry G name (LTable t) (w\<lparr>w_heap := h\<rparr>))
     | LTable t \<Rightarrow> Done t w
     | _ \<Rightarrow> Raise (lua_msg ''attempt to index a value'') w)"

definition luvL_new_class :: "lid \<Rightarrow> string \<Rightarrow> luaL_Reg \<Rightarrow> ('x, nat) luv" where
  "luvL_new_class G name meths w =
     bindR (luaL_newmetatable G name w) (\<lambda>t w.
       Done t (w\<lparr>w_heap := luaL_register t meths (set_field t ''__index'' (LTable t) (w_heap w))\<rparr>))"

section \<open>Sending a module\<close>

definition luvL_lib_decoder :: "lid \<Rightarrow> 'x sys \<Rightarrow> lid \<Rightarrow> ('x, int) luv" where
  "luvL_lib_decoder G sys L w =
     bindR (deref (c_text sys (lua_top L w)) w) (\<lambda>name w.
       let w = lua_push L (w_names w G name) w
       in bindR (c_assert (lua_type (lua_top L w) = LUA_TTABLE) w) (\<lambda>_ w. Done 1 w))"

definition luvL_lib_encoder :: "lid \<Rightarrow> ('x, int) luv" where
  "luvL_lib_encoder L w =
     bindR (lua_getfield L 1 ''__name'' (lua_pushstring L (str ''luv:lib:decoder'') w)) (\<lambda>_ w.
     bindR (c_assert (lua_top L w \<noteq> LNil) w) (\<lambda>_ w. Done 2 w))"

section \<open>Opening the module\<close>

definition add_field :: "nat \<Rightarrow> string \<Rightarrow> lua_value \<Rightarrow> 'x world \<Rightarrow> 'x world" where
  "add_field t name v w = w\<lparr>w_heap := set_field t name v (w_heap w)\<rparr>"

text \<open>A module that becomes a field of the module \<open>luv\<close>, and a class.\<close>

definition sub_module :: "lid \<Rightarrow> nat \<Rightarrow> string \<Rightarrow> string \<Rightarrow> luaL_Reg \<Rightarrow> 'x world \<Rightarrow> 'x world" where
  "sub_module G luv field name funcs w = (let (t, w) = luvL_new_module G name funcs w in add_field luv field (LTable t) w)"

fun std_streams :: "'x sys \<Rightarrow> lid \<Rightarrow> nat \<Rightarrow> (string \<times> int) list \<Rightarrow> ('x, unit) luv" where
  "std_streams sys L luv [] w = Done () w"
| "std_streams sys L luv ((name, fh) # fhs) w =
     bindR (luvL_event_loop L w) (\<lambda>loop w.
     bindR (deref (luvL_state_self L w) w) (\<lambda>cur w.
       let u = LUser (w_nudata w); (stdfh, w) = new_object L LUV_PIPE_T w; w = luvL_object_init cur stdfh w
       in bindR (uv sys (Uv_pipe_init loop stdfh False) w) (\<lambda>_ w.
          bindR (uv sys (Uv_pipe_open stdfh fh) w) (\<lambda>_ w.
            let w = lua_pop L 1 (add_field luv name u (set_registry L name u w))
            in std_streams sys L luv fhs w))))"

fun set_constants :: "nat \<Rightarrow> (string \<times> int) list \<Rightarrow> lua_heap \<Rightarrow> lua_heap" where
  "set_constants t [] h = h"
| "set_constants t ((key, val) # cs) h = set_constants t cs (set_field t key (lua_int_value val) h)"

text \<open>
  \<open>luaopen_luv\<close> for a new Lua state \<open>L\<close>, in the parts between its conditionals; \<open>coyield\<close> is the field
  \<open>yield\<close> of the global table \<open>coroutine\<close>.  Only the first call makes the main thread and opens the
  standard streams.
\<close>

definition open_first :: "lid \<Rightarrow> ('x, nat) luv" where
  "open_first L w =
     (let w = lua_settop L 0 w;
          (f, h) = new_cfunction ''luvL_lib_decoder'' (w_heap w);
          w = set_registry L ''luv:lib:decoder'' f (w\<lparr>w_heap := h\<rparr>);
          (f, h) = new_cfunction ''luvL_zmq_ctx_decoder'' (w_heap w);
          w = set_registry L ''luv:zmq:decoder'' f (w\<lparr>w_heap := h\<rparr>);
          (luv, w) = luvL_new_module L ''luv'' luv_funcs w
      in bindR (luvL_new_class L LUV_THREAD_T luv_thread_meths
                  (sub_module L luv ''thread'' ''luv_thread'' luv_thread_funcs w)) (\<lambda>_ w. Done luv w))"

definition open_main :: "lid \<Rightarrow> 'x world \<Rightarrow> 'x world" where
  "open_main L w = (if \<not> w_main w then lua_pop L 1 (luvL_thread_init_main L w) else w)"

definition open_mods :: "lua_value \<Rightarrow> lid \<Rightarrow> nat \<Rightarrow> ('x, unit) luv" where
  "open_mods coyield L luv w =
     (let (fiber, w) = luvL_new_module L ''luv_fiber'' luv_fiber_funcs w;
          w = add_field luv ''fiber'' (LTable fiber) (add_field fiber ''yield'' coyield w)
      in bindR (luvL_new_class L LUV_FIBER_T luv_fiber_meths w) (\<lambda>_ w.
         bindR (luvL_new_class L LUV_TIMER_T luv_timer_meths
                  (sub_module L luv ''timer'' ''luv_timer'' luv_timer_funcs
                    (sub_module L luv ''codec'' ''luv_codec'' luv_codec_funcs w))) (\<lambda>_ w.
         bindR (luvL_new_class L LUV_IDLE_T luv_idle_meths (sub_module L luv ''idle'' ''luv_idle'' luv_idle_funcs w)) (\<lambda>_ w.
         bindR (luvL_new_class L LUV_FILE_T luv_file_meths (sub_module L luv ''fs'' ''luv_fs'' luv_fs_funcs w)) (\<lambda>_ w.
         bindR (luvL_new_class L LUV_PIPE_T luv_stream_meths (sub_module L luv ''pipe'' ''luv_pipe'' luv_pipe_funcs w)) (\<lambda>t w.
           Done () (w\<lparr>w_heap := luaL_register t luv_pipe_meths (w_heap w)\<rparr>)))))))"

definition open_std :: "'x sys \<Rightarrow> lid \<Rightarrow> nat \<Rightarrow> ('x, unit) luv" where
  "open_std sys L luv w =
     (if \<not> w_main w
      then std_streams sys L luv [(''stdin'', 0), (''stdout'', 1), (''stderr'', 2)] (w\<lparr>w_main := True\<rparr>)
      else Done () w)"

definition open_net :: "lid \<Rightarrow> nat \<Rightarrow> ('x, unit) luv" where
  "open_net L luv w =
     bindR (luvL_new_class L LUV_NET_TCP_T luv_stream_meths (sub_module L luv ''net'' ''luv_net'' luv_net_funcs w)) (\<lambda>t w.
     let w = w\<lparr>w_heap := luaL_register t luv_net_tcp_meths (w_heap w)\<rparr>
     in bindR (luvL_new_class L LUV_PROCESS_T luv_process_meths
                 (sub_module L luv ''process'' ''luv_process'' luv_process_funcs w)) (\<lambda>_ w.
        let (zmq, w) = luvL_new_module L ''luv_zmq'' luv_zmq_funcs w;
            w = add_field luv ''zmq'' (LTable zmq) (w\<lparr>w_heap := set_constants zmq luv_zmq_consts (w_heap w)\<rparr>)
        in bindR (luvL_new_class L LUV_ZMQ_CTX_T luv_zmq_ctx_meths w) (\<lambda>_ w.
           bindR (luvL_new_class L LUV_ZMQ_SOCKET_T luv_zmq_socket_meths w) (\<lambda>_ w. Done () w))))"

definition luaopen_luv :: "'x sys \<Rightarrow> lua_value \<Rightarrow> lid \<Rightarrow> ('x, int) luv" where
  "luaopen_luv sys coyield L w =
     bindR (open_first L w) (\<lambda>luv w.
     bindR (open_mods coyield L luv (open_main L w)) (\<lambda>_ w.
     bindR (open_std sys L luv w) (\<lambda>_ w.
     bindR (open_net L luv w) (\<lambda>_ w.
       Done 1 (upd_stack L (\<lambda>_. [LTable luv]) w)))))"

end
