(* ===== verification/Luv_Thread.thy ===== *)
theory Luv_Thread
  imports Luv_Module Luv_Codec
begin

text \<open>
  Operating system threads (\<open>src/src/luv_thread.c\<close>, lines 196 to 305).  A new thread has a Lua state
  of its own; the function and its arguments are sent to it as a string of the codec, and \<open>join\<close> sends
  the results back the same way.

  Lua is an argument of the definitions: \<open>lua\<close> gives the environment of the codec for a Lua state, \<open>n\<close>
  is the fuel of the codec, \<open>pcall L k\<close> calls the function below the top \<open>k\<close> values of the stack with
  the handler at the bottom and says whether it ended with an error.  A Lua error in a state without a
  protected call ends the process: \<open>Lua_Panic\<close>.  What another thread does until it is joined is the
  argument \<open>body\<close>.
\<close>

section \<open>The codec on the stack of a state\<close>

definition encode_top :: "lua_env \<Rightarrow> nat \<Rightarrow> lid \<Rightarrow> nat \<Rightarrow> ('x, unit) luv" where
  "encode_top env n L narg w =
     (case luvL_codec_encode env n narg (w_stack w L) (w_heap w) of
        Done (k, st) h \<Rightarrow> Done () (upd_stack L (\<lambda>_. st) (w\<lparr>w_heap := h\<rparr>))
      | Raise e h \<Rightarrow> Raise e (w\<lparr>w_heap := h\<rparr>)
      | Fail x \<Rightarrow> Fail x)"

definition decode_bottom :: "lua_env \<Rightarrow> nat \<Rightarrow> lid \<Rightarrow> ('x, int) luv" where
  "decode_bottom env n L w =
     (case luvL_codec_decode env n (w_stack w L) (w_heap w) of
        Done (k, st) h \<Rightarrow> Done k (upd_stack L (\<lambda>_. st) (w\<lparr>w_heap := h\<rparr>))
      | Raise e h \<Rightarrow> Raise e (w\<lparr>w_heap := h\<rparr>)
      | Fail x \<Rightarrow> Fail x)"

text \<open>A Lua error that nothing catches.\<close>

definition unprotected :: "(lua_value, 'a, 's) res \<Rightarrow> (lua_value, 'a, 's) res" where
  "unprotected r = (case r of Raise e s \<Rightarrow> Fail Lua_Panic | _ \<Rightarrow> r)"

section \<open>Creating a thread\<close>

definition new_thread_state :: "sid \<Rightarrow> lid \<Rightarrow> nat \<Rightarrow> luv_state" where
  "new_thread_state outer L1 loop =
     \<lparr>st_type = LUV_TTHREAD, st_flags = LUV_FREADY, st_outer = outer, st_L = L1, st_loop = loop, st_data = False,
      st_curr = 0, st_async_sent = False, st_async_ref = False\<rparr>"

definition luvL_thread_create ::
    "(lid \<Rightarrow> 'x world \<Rightarrow> lua_env) \<Rightarrow> nat \<Rightarrow> 'x sys \<Rightarrow> lua_value \<Rightarrow> sid \<Rightarrow> nat \<Rightarrow> ('x, sid) luv" where
  "luvL_thread_create lua n sys coyield outer narg w =
     (let L = st_L (w_state w outer); base = lua_gettop L w - narg; self = w_nstate w;
          (u, w) = new_udata LUV_THREAD_T (PState self) (w\<lparr>w_nstate := Suc self\<rparr>);
          w = upd_stack L (\<lambda>st. take base st @ u # drop base st) w
      in bindR (uv sys Uv_loop_new w) (\<lambda>loop w.
         let L1 = w_nlua w;
             w = w\<lparr>w_nlua := Suc L1, w_stack := (w_stack w)(L1 := []), w_yield := (w_yield w)(L1 := None),
               w_names := (w_names w)(L1 := (\<lambda>_. LNil)), w_registry := (w_registry w)(L1 := None)\<rparr>;
             w = upd_state self (\<lambda>_. (new_thread_state outer L1 (nat loop))\<lparr>st_curr := self\<rparr>) w;
             w = upd_queue (ngx_queue_init (SRouse self)) w
         in bindR (unprotected (luaopen_luv sys coyield L1 w)) (\<lambda>_ w.
            bindR (encode_top (lua L w) n L narg (lua_settop L1 0 w)) (\<lambda>_ w.
            bindR (luaL_checktype L (lua_gettop L w) LUA_TSTRING ''string'' w) (\<lambda>_ w.
              let w = lua_xmove L L1 1 w; w = w\<lparr>w_registry := (w_registry w)(L1 \<mapsto> self)\<rparr>
              in bindR (uv sys (Uv_thread_create self) w) (\<lambda>_ w.
                   Done self (lua_settop L (Suc base) w)))))))"

definition luv_new_thread ::
    "(lid \<Rightarrow> 'x world \<Rightarrow> lua_env) \<Rightarrow> nat \<Rightarrow> 'x sys \<Rightarrow> lua_value \<Rightarrow> lid \<Rightarrow> ('x, int) luv" where
  "luv_new_thread lua n sys coyield L w =
     bindR (deref (luvL_state_self L w) w) (\<lambda>outer w.
     bindR (luvL_thread_create lua n sys coyield outer (lua_gettop L w) w) (\<lambda>_ w. Done 1 w))"

section \<open>The body of a thread\<close>

text \<open>\<open>_thread_enter\<close> before \<open>lua_pcall\<close>: the handler, the function and its arguments are on the stack.\<close>

definition enter_call :: "(lid \<Rightarrow> 'x world \<Rightarrow> lua_env) \<Rightarrow> nat \<Rightarrow> sid \<Rightarrow> ('x, nat) luv" where
  "enter_call lua n self w =
     (let L = st_L (w_state w self)
      in bindR (unprotected (decode_bottom (lua L w) n L w)) (\<lambda>_ w.
         let w = upd_stack L (drop 1) w
         in bindR (unprotected (luaL_checktype L 1 LUA_TFUNCTION ''function'' w)) (\<lambda>_ w.
            let (f, h) = new_cfunction ''luvL_traceback'' (w_heap w);
                w = upd_stack L (\<lambda>st. f # st) (w\<lparr>w_heap := h\<rparr>)
            in Done (lua_gettop L w - 2) w)))"

text \<open>After it: the status goes below the results.  \<open>luaL_error\<close> is not caught.\<close>

definition enter_return :: "sid \<Rightarrow> bool \<Rightarrow> ('x, unit) luv" where
  "enter_return self failed w =
     (let L = st_L (w_state w self); w = upd_stack L (drop 1) w
      in if failed
         then bindR (luvL_thread_ready self (upd_stack L (\<lambda>st. LBool False # st) w)) (\<lambda>_ w. Fail Lua_Panic)
         else Done () (raise_flag LUV_FDEAD self (upd_stack L (\<lambda>st. LBool True # st) w)))"

definition thread_enter ::
    "(lid \<Rightarrow> 'x world \<Rightarrow> lua_env) \<Rightarrow> nat \<Rightarrow> (lid \<Rightarrow> nat \<Rightarrow> ('x, bool) luv) \<Rightarrow> sid \<Rightarrow> ('x, unit) luv" where
  "thread_enter lua n pcall self w =
     bindR (enter_call lua n self w) (\<lambda>nargs w.
     bindR (pcall (st_L (w_state w self)) nargs w) (\<lambda>failed w. enter_return self failed w))"

section \<open>Joining a thread\<close>

text \<open>The part after the thread has ended: its stack is sent to the joining state.\<close>

definition join_results :: "(lid \<Rightarrow> 'x world \<Rightarrow> lua_env) \<Rightarrow> nat \<Rightarrow> lid \<Rightarrow> sid \<Rightarrow> ('x, int) luv" where
  "join_results lua n L self w =
     (let w = lua_settop L 0 w; L1 = st_L (w_state w self); nret = lua_gettop L1 w
      in bindR (unprotected (encode_top (lua L1 w) n L1 nret w)) (\<lambda>_ w.
         bindR (decode_bottom (lua L w) n L (lua_xmove L1 L 1 w)) (\<lambda>_ w. Done (int nret) w)))"

definition luv_thread_join ::
    "(lid \<Rightarrow> 'x world \<Rightarrow> lua_env) \<Rightarrow> nat \<Rightarrow> 'x vm \<Rightarrow> 'x sys \<Rightarrow> (sid \<Rightarrow> ('x, unit) luv) \<Rightarrow> lid \<Rightarrow> ('x, int) luv" where
  "luv_thread_join lua n vm sys body L w =
     bindR (luaL_checkudata L 1 LUV_THREAD_T w) (\<lambda>p w.
     bindR (as_state (Some p) w) (\<lambda>self w.
     bindR (luvL_thread_self L w) (\<lambda>cur w.
     bindR (luvL_thread_ready self w) (\<lambda>_ w.
     bindR (luvL_thread_suspend vm cur w) (\<lambda>_ w.
     bindR (uv sys (Uv_thread_join self) w) (\<lambda>_ w.
     bindR (body self w) (\<lambda>_ w. join_results lua n L self w)))))))"

definition luv_thread_free :: "'x sys \<Rightarrow> lid \<Rightarrow> ('x, int) luv" where
  "luv_thread_free sys L w =
     bindR (as_state (lua_touserdata L 1 w) w) (\<lambda>self w.
     bindR (uv sys (Uv_loop_delete (st_loop (w_state w self))) w) (\<lambda>_ w. Done 1 w))"

end
