(* ===== verification/Codec_Hook.thy ===== *)
theory Codec_Hook
  imports Codec_Props
begin

text \<open>
  A table whose \<open>__codec\<close> hook answers with the name of a decoder and a string: what the encoder writes,
  and what the decoder makes of it.
\<close>

definition str_bytes :: "bytes \<Rightarrow> bytes" where
  "str_bytes xs = LUA_TSTRING # uleb128 (word_of_nat (length xs)) @ xs"

lemma encode_string:
  assumes b: "buf_ok (e_buf s)"
  shows "\<exists>s'. encode_value env (Suc n) (LStr xs) s = Done () s' \<and> buf_ok (e_buf s') \<and>
    contents (e_buf s') = contents (e_buf s) @ str_bytes xs \<and> e_heap s' = e_heap s"
proof -
  let ?s1 = "epush 1 [LUA_TSTRING] s"
  have b1: "buf_ok (e_buf ?s1)" using b by simp
  let ?s2 = "epush 5 (uleb128 (word_of_nat (length xs))) ?s1"
  have b2: "buf_ok (e_buf ?s2)" using b1 by (simp add: uleb128_length)
  have "encode_value env (Suc n) (LStr xs) s = Done () (epush (length xs) xs ?s2)"
    using emit_push [OF b] emit_push [OF b1] emit_push [OF b2] by simp
  then show ?thesis using b b1 b2 by (intro exI [of _ "epush (length xs) xs ?s2"]) (simp add: str_bytes_def uleb128_length)
qed

definition hook_bytes :: "bytes \<Rightarrow> bytes \<Rightarrow> bytes" where
  "hook_bytes key name = LUA_TTABLE # LUV_CODEC_TUSR # str_bytes key @ str_bytes name"

lemma encode_hooked:
  assumes b: "buf_ok (e_buf s)" and new: "LTable t \<notin> set (e_seen s)" and hook: "t_codec (h_table (e_heap s) t) \<noteq> LNil"
    and call: "env_call env (t_codec (h_table (e_heap s) t)) (LTable t) (e_heap s) = Done [LStr key, LStr name] h"
  shows "\<exists>s'. encode_value env (Suc (Suc n)) (LTable t) s = Done () s' \<and>
    contents (e_buf s') = contents (e_buf s) @ hook_bytes key name \<and> e_heap s' = h"
proof -
  let ?s1 = "epush 1 [LUV_CODEC_TUSR] (encoder_seen (LTable t) (epush 1 [LUA_TTABLE] s))"
  have b0: "buf_ok (e_buf (encoder_seen (LTable t) (epush 1 [LUA_TTABLE] s)))" using b by (simp add: encoder_seen_def)
  have "buf_ok (e_buf (?s1\<lparr>e_heap := h\<rparr>))" using b0 by simp
  from encode_string [OF this, of env n key] obtain s2 where
    s2: "encode_value env (Suc n) (LStr key) (?s1\<lparr>e_heap := h\<rparr>) = Done () s2" "buf_ok (e_buf s2)"
      "contents (e_buf s2) = contents (e_buf s) @ [LUA_TTABLE, LUV_CODEC_TUSR] @ str_bytes key" "e_heap s2 = h"
    using b b0 by (auto simp: encoder_seen_def)
  from encode_string [OF s2(2), of env n name] obtain s3 where
    s3: "encode_value env (Suc n) (LStr name) s2 = Done () s3"
      "contents (e_buf s3) = contents (e_buf s2) @ str_bytes name" "e_heap s3 = h"
    using s2(4) by auto
  have "encode_value env (Suc (Suc n)) (LTable t) s = encoder_hook env (\<lambda>v s. encode_value env (Suc n) v s)
      (t_codec (h_table (e_heap s) t)) (LTable t) (encoder_seen (LTable t) (epush 1 [LUA_TTABLE] s))"
    using emit_push [OF b] new hook
    by (subst encode_value.simps) (simp add: seen_ref_None [THEN iffD2] encoder_seen_def Let_def del: encode_value.simps)
  also have "\<dots> = Done () s3"
    using emit_push [OF b0] call s2(1) s3(1)
    by (simp add: encoder_hook_def enc_call_def encoder_seen_def adjust_def del: encode_value.simps)
  finally show ?thesis using s2(3) s3(2,3) by (simp add: hook_bytes_def)
qed

lemma decode_hooked:
  assumes rd: "reads (d_buf d) (hook_bytes key name @ rest)" and len: "length key < 2 ^ 32" "length name < 2 ^ 32"
    and reg: "env_registry env key = LFun f" and call: "env_call env (LFun f) (LStr name) (d_heap d) = Done (v # vs) h"
  shows "\<exists>b. decode_value env (Suc (Suc n)) d = Done v (decoder_seen v (d\<lparr>d_buf := b, d_heap := h\<rparr>))"
proof -
  let ?d1 = "dadv 2 d"
  have r0: "reads (d_buf (dadv 1 d)) (LUV_CODEC_TUSR # str_bytes key @ str_bytes name @ rest)"
    using rd reads_tl by (simp add: hook_bytes_def)
  have r1: "reads (d_buf ?d1) (str_bytes key @ str_bytes name @ rest)" using r0 reads_tl [OF r0] by (simp add: numeral_2_eq_2)
  have g: "fetch luvL_buf_get d = Done LUA_TTABLE (dadv 1 d)" "fetch luvL_buf_get (dadv 1 d) = Done LUV_CODEC_TUSR ?d1"
    using fetch_get [OF rd [unfolded hook_bytes_def append_Cons]] fetch_get [OF r0] by (simp_all add: numeral_2_eq_2)
  let ?d2 = "dadv (length (str_bytes key)) ?d1"
  have r2: "reads (d_buf ?d2) (str_bytes name @ rest)" using r1 by (simp add: reads_append)
  have k: "decode_value env (Suc n) ?d1 = Done (LStr key) ?d2" by (rule decode_string [OF r1 len(1) str_bytes_def])
  let ?d3 = "dadv (length (str_bytes name)) ?d2"
  have v: "decode_value env (Suc n) ?d2 = Done (LStr name) ?d3" by (rule decode_string [OF r2 len(2) str_bytes_def])
  have "decode_value env (Suc (Suc n)) d =
      bindR (find_decoder env key ?d2) (\<lambda>hook s. bindR (decode_value env (Suc n) s) (\<lambda>v s.
        bindR (dec_call env hook v 1 s) (\<lambda>rs s. Done (rs ! 0) (decoder_seen (rs ! 0) s))))"
    using g k by (subst decode_value.simps) (simp add: lua_tag_defs codec_tag_defs del: decode_value.simps)
  also have "\<dots> = Done v (decoder_seen v (?d3\<lparr>d_heap := h\<rparr>))"
    using v reg call by (simp add: find_decoder_def dec_call_def adjust_def Let_def del: decode_value.simps)
  also have "?d3\<lparr>d_heap := h\<rparr> = d\<lparr>d_buf := d_buf ?d3, d_heap := h\<rparr>" by (simp add: dadv_def)
  finally show ?thesis by blast
qed

lemma codec_hook_roundtrip:
  assumes hook: "t_codec (h_table h0 t) \<noteq> LNil" and call: "env_call env (t_codec (h_table h0 t)) (LTable t) h0 = Done [LStr key, LStr name] h1"
    and len: "length key < 2 ^ 32" "length name < 2 ^ 32" and reg: "env_registry env' key = LFun f"
    and dcall: "env_call env' (LFun f) (LStr name) g = Done (v # vs) h2"
  shows "\<exists>data. (\<forall>n \<ge> 2. luv_codec_encode env n [LTable t] h0 = Done (1, [LTable t, LStr data]) h1) \<and>
    (\<forall>n \<ge> 2. luv_codec_decode env' n [LStr data] g = Done (1, [LStr data, v]) h2)"
proof -
  define s0 where "s0 = epush 5 (uleb128 1) \<lparr>e_heap = h0, e_buf = null_buf, e_seen = []\<rparr>"
  have s0: "buf_ok (e_buf s0)" "e_seen s0 = []" "e_heap s0 = h0" "contents (e_buf s0) = uleb128 1"
    by (simp_all add: s0_def uleb128_length)
  define data where "data = uleb128 1 @ hook_bytes key name"
  have em: "emit (luvL_buf_write_uleb128 1) \<lparr>e_heap = h0, e_buf = null_buf, e_seen = []\<rparr> = Done () s0"
    by (simp add: emit_push s0_def)
  have enc: "luv_codec_encode env n [LTable t] h0 = Done (1, [LTable t, LStr data]) h1" if n2: "n \<ge> 2" for n
  proof -
    obtain m where n: "n = Suc (Suc m)" using n2 nat_le_iff_add [of 2 n] by auto
    obtain s' where "encode_value env n (LTable t) s0 = Done () s'"
      "contents (e_buf s') = contents (e_buf s0) @ hook_bytes key name" "e_heap s' = h1"
      using encode_hooked [of s0 t env key name h1 m] s0 hook call unfolding n by auto
    then show ?thesis
      using em s0(4) by (simp add: luv_codec_encode_def luvL_codec_encode_def data_def Let_def del: encode_value.simps)
  qed
  obtain b where b: "luvL_buf_init data null_buf = Some b" using buf_init_ok by blast
  let ?d = "\<lparr>d_heap = g, d_buf = b\<lparr>buf_head := 0\<rparr>, d_seen = []\<rparr>" and ?k = "length (uleb128 1)"
  have rd: "reads (d_buf ?d) (uleb128 1 @ hook_bytes key name)" using buf_init_props(1) [OF b] by (simp add: data_def)
  then have rd1: "reads (d_buf (dadv ?k ?d)) (hook_bytes key name @ [])" by (simp add: reads_append)
  have dec: "luv_codec_decode env' n [LStr data] g = Done (1, [LStr data, v]) h2" if n2: "n \<ge> 2" for n
  proof -
    obtain m where n: "n = Suc (Suc m)" using n2 nat_le_iff_add [of 2 n] by auto
    obtain c where "decode_value env' n (dadv ?k ?d) = Done v (decoder_seen v ((dadv ?k ?d)\<lparr>d_buf := c, d_heap := h2\<rparr>))"
      using decode_hooked [OF rd1 len reg, of v vs h2 m] dcall unfolding n by auto
    moreover have "d_heap (decoder_seen v d) = d_heap d" for d by (simp add: decoder_seen_def)
    ultimately show ?thesis
      using fetch_uleb [OF rd] unfolding luv_codec_decode_def codec_decode_run [OF b]
      by (simp add: numeral_nat del: decode_value.simps)
  qed
  show ?thesis using enc dec by blast
qed

end
