(* ===== verification/Module_Inv.thy ===== *)
theory Module_Inv
  imports Luv_Thread Codec_Hook
begin

text \<open>
  The invariant of \<open>luaopen_luv\<close> while it fills the registry: the modules and classes registered so
  far, each with its own table, and nothing that was on the heap before is changed.
\<close>

section \<open>Fields of tables\<close>

lemma str_inj [simp]: "str s = str t \<longleftrightarrow> s = t"
proof -
  have "inj (\<lambda>c. word_of_nat (of_char c) :: u8)"
  proof (rule injI)
    fix c d assume "(word_of_nat (of_char c) :: u8) = word_of_nat (of_char d)"
    then have "unat (word_of_nat (of_char c) :: u8) = unat (word_of_nat (of_char d) :: u8)" by simp
    then have "(of_char c :: nat) = of_char d" by (simp add: unat_of_nat)
    then show "c = d" by simp
  qed
  then show ?thesis by (simp add: str_def inj_map_eq_map)
qed

definition fld :: "lua_heap \<Rightarrow> nat \<Rightarrow> string \<Rightarrow> lua_value" where
  "fld h t name = raw_get (t_entries (h_table h t)) (LStr (str name))"

lemma raw_get_put_str:
  "raw_get (raw_put (LStr a) v es) (LStr b) = (if a = b then v else raw_get es (LStr b))" if "a \<noteq> b \<or> v \<noteq> LNil"
proof -
  have eq: "raw_eq k (LStr c) \<longleftrightarrow> k = LStr c" for k c by (cases k) auto
  show ?thesis using that by (induction es rule: entries_ok.induct) (auto simp: eq)
qed

definition cfun :: "string \<Rightarrow> lua_closure" where
  "cfun fn = \<lparr>f_lua = False, f_c = fn, f_proto = 0, f_upvals = []\<rparr>"

lemma set_field_sel [simp]:
  "h_fun (set_field t n v h) = h_fun h" "h_tnext (set_field t n v h) = h_tnext h"
  "h_fnext (set_field t n v h) = h_fnext h" "h_user (set_field t n v h) = h_user h"
  "t_codec (h_table (set_field t n v h) t') = t_codec (h_table h t')"
  "t' \<noteq> t \<Longrightarrow> h_table (set_field t n v h) t' = h_table h t'"
  by (simp_all add: set_field_def)

lemma fld_set_field:
  "m \<noteq> n \<or> v \<noteq> LNil \<Longrightarrow> fld (set_field t n v h) t' m = (if t' = t \<and> m = n then v else fld h t' m)"
  by (auto simp: fld_def set_field_def raw_get_put_str)

lemma fld_table: "h_table h' t = h_table h t \<Longrightarrow> fld h' t n = fld h t n"
  by (simp add: fld_def)

lemma luaL_register_sel:
  "h_tnext (luaL_register t regs h) = h_tnext h" "h_fnext (luaL_register t regs h) = h_fnext h + length regs"
  "f < h_fnext h \<Longrightarrow> h_fun (luaL_register t regs h) f = h_fun h f"
  "t' \<noteq> t \<Longrightarrow> h_table (luaL_register t regs h) t' = h_table h t'"
  "t_codec (h_table (luaL_register t regs h) t') = t_codec (h_table h t')"
  by (induction t regs h rule: luaL_register.induct) (simp_all add: new_cfunction_def)

text \<open>The field of a table is the function registered last under its name.\<close>

definition is_cfun :: "lua_heap \<Rightarrow> lua_value \<Rightarrow> string \<Rightarrow> bool" where
  "is_cfun h v fn \<longleftrightarrow> (\<exists>f. v = LFun f \<and> f < h_fnext h \<and> h_fun h f = cfun fn)"

lemma is_cfun_le: "is_cfun h v fn \<Longrightarrow> heap_le X h h' \<Longrightarrow> is_cfun h' v fn"
  by (auto simp: is_cfun_def heap_le_def)

lemma luaL_register_fld:
  "case map_of (rev regs) n of
     None \<Rightarrow> fld (luaL_register t regs h) t n = fld h t n
   | Some fn \<Rightarrow> is_cfun (luaL_register t regs h) (fld (luaL_register t regs h) t n) fn"
proof (induction regs arbitrary: h)
  case (Cons r funcs)
  obtain name fn where r: "r = (name, fn)" by fastforce
  let ?h = "set_field t name (LFun (h_fnext h)) (snd (new_cfunction fn h))"
  have eq: "luaL_register t (r # funcs) h = luaL_register t funcs ?h" by (simp add: r new_cfunction_def)
  have "fld ?h t n = (if n = name then LFun (h_fnext h) else fld h t n)"
    by (simp add: fld_set_field) (simp add: fld_def new_cfunction_def)
  moreover have "is_cfun (luaL_register t funcs ?h) (LFun (h_fnext h)) fn"
    by (simp add: is_cfun_def luaL_register_sel new_cfunction_def cfun_def)
  ultimately show ?case using Cons.IH [of ?h] unfolding eq by (auto simp: r split: option.splits)
qed simp

section \<open>The invariant\<close>

text \<open>
  \<open>M\<close> are the names of the modules, \<open>C\<close> the classes with their methods in the order in which they
  were registered.
\<close>

definition decoder_names :: "string set" where
  "decoder_names = {''luv:lib:decoder'', ''luv:zmq:decoder'', ''stdin'', ''stdout'', ''stderr''}"

definition module_ok :: "(bytes \<Rightarrow> lua_value) \<Rightarrow> lua_heap \<Rightarrow> string \<Rightarrow> bool" where
  "module_ok nm h name \<longleftrightarrow> (\<exists>t. nm (str name) = LTable t \<and> t < h_tnext h \<and>
     is_cfun h (t_codec (h_table h t)) ''luvL_lib_encoder'' \<and> fld h t ''__name'' = LStr (str name))"

definition class_ok :: "lua_heap \<Rightarrow> (bytes \<Rightarrow> lua_value) \<Rightarrow> lua_heap \<Rightarrow> string \<Rightarrow> luaL_Reg \<Rightarrow> bool" where
  "class_ok h0 nm h name meths \<longleftrightarrow> (\<exists>t. nm (str name) = LTable t \<and> h_tnext h0 \<le> t \<and> t < h_tnext h \<and>
     fld h t ''__index'' = LTable t \<and> (\<forall>n fn. map_of (rev meths) n = Some fn \<longrightarrow> is_cfun h (fld h t n) fn))"

definition lib_inv ::
    "lua_heap \<Rightarrow> string set \<Rightarrow> (string \<Rightarrow> luaL_Reg option) \<Rightarrow> (bytes \<Rightarrow> lua_value) \<Rightarrow> lua_heap \<Rightarrow> bool" where
  "lib_inv h0 M C nm h \<longleftrightarrow>
     heap_le {} h0 h \<and> M \<inter> dom C = {} \<and> (M \<union> dom C) \<inter> decoder_names = {} \<and>
     (\<forall>n\<in>M. module_ok nm h n) \<and> (\<forall>n meths. C n = Some meths \<longrightarrow> class_ok h0 nm h n meths) \<and>
     (\<forall>n. n \<notin> M \<union> dom C \<union> decoder_names \<longrightarrow> nm (str n) = LNil) \<and>
     (\<forall>n m t. nm (str n) = LTable t \<longrightarrow> nm (str m) = LTable t \<longrightarrow> n = m) \<and>
     (\<forall>n t. nm (str n) = LTable t \<longrightarrow> h_tnext h0 \<le> t \<and> t < h_tnext h)"

section \<open>Steps that keep it\<close>

lemma fld_le: "t < h_tnext h \<Longrightarrow> heap_le {} h h' \<Longrightarrow> fld h' t n = fld h t n"
  and table_le: "t < h_tnext h \<Longrightarrow> heap_le {} h h' \<Longrightarrow> h_table h' t = h_table h t"
  and next_le: "heap_le {} h h' \<Longrightarrow> t < h_tnext h \<Longrightarrow> t < h_tnext h'"
  by (simp_all add: heap_le_def fld_def)

lemma module_ok_le:
  assumes "module_ok nm h n" "heap_le {} h h'"
  shows "module_ok nm h' n"
proof -
  obtain t where t: "nm (str n) = LTable t" "t < h_tnext h" "is_cfun h (t_codec (h_table h t)) ''luvL_lib_encoder''"
    "fld h t ''__name'' = LStr (str n)"
    using assms(1) by (auto simp: module_ok_def)
  with is_cfun_le [OF t(3) assms(2)] show ?thesis
    unfolding module_ok_def
    by (intro exI [of _ t]) (simp add: fld_le [OF t(2) assms(2)] table_le [OF t(2) assms(2)] next_le [OF assms(2)])
qed

lemma class_ok_le:
  assumes "class_ok h0 nm h n meths" "heap_le {} h h'"
  shows "class_ok h0 nm h' n meths"
proof -
  obtain t where t: "nm (str n) = LTable t" "h_tnext h0 \<le> t" "t < h_tnext h" "fld h t ''__index'' = LTable t"
    "\<And>m fn. map_of (rev meths) m = Some fn \<Longrightarrow> is_cfun h (fld h t m) fn"
    using assms(1) by (auto simp: class_ok_def)
  with is_cfun_le [OF t(5) assms(2)] show ?thesis
    unfolding class_ok_def by (intro exI [of _ t]) (simp add: fld_le [OF t(3) assms(2)] next_le [OF assms(2)])
qed

lemma lib_inv_le:
  assumes "lib_inv h0 M C nm h" "heap_le {} h h'"
  shows "lib_inv h0 M C nm h'"
proof -
  have "heap_le {} h0 h'" using heap_le_trans [of "{}" h0 h "{}" h'] assms by (simp add: lib_inv_def)
  moreover have "h_tnext h \<le> h_tnext h'" using assms(2) by (simp add: heap_le_def)
  ultimately show ?thesis
    using assms(1) module_ok_le [OF _ assms(2)] class_ok_le [OF _ assms(2)]
    unfolding lib_inv_def by (metis order_less_le_trans)
qed

text \<open>A change of one table that belongs to a name.\<close>

lemma module_ok_table:
  assumes "module_ok nm h n" "\<forall>t'. t' \<noteq> t \<longrightarrow> h_table h' t' = h_table h t'" "heap_le {t} h h'"
    and "nm (str n) \<noteq> LTable t \<or> t_codec (h_table h' t) = t_codec (h_table h t) \<and> fld h' t ''__name'' = fld h t ''__name''"
  shows "module_ok nm h' n"
proof -
  obtain t1 where t1: "nm (str n) = LTable t1" "t1 < h_tnext h" "is_cfun h (t_codec (h_table h t1)) ''luvL_lib_encoder''"
    "fld h t1 ''__name'' = LStr (str n)"
    using assms(1) by (auto simp: module_ok_def)
  have "t_codec (h_table h' t1) = t_codec (h_table h t1)" "fld h' t1 ''__name'' = fld h t1 ''__name''"
    using assms(2,4) t1(1) by (cases "t1 = t"; simp add: fld_def)+
  with t1 is_cfun_le [OF t1(3) assms(3)] assms(3) show ?thesis by (auto simp: module_ok_def heap_le_def)
qed

lemma class_ok_table:
  assumes "class_ok h0 nm h n meths" "\<forall>t'. t' \<noteq> t \<longrightarrow> h_table h' t' = h_table h t'" "heap_le {t} h h'" "nm (str n) \<noteq> LTable t"
  shows "class_ok h0 nm h' n meths"
proof -
  obtain t1 where t1: "nm (str n) = LTable t1" "h_tnext h0 \<le> t1" "t1 < h_tnext h" "fld h t1 ''__index'' = LTable t1"
    "\<And>m fn. map_of (rev meths) m = Some fn \<Longrightarrow> is_cfun h (fld h t1 m) fn"
    using assms(1) by (auto simp: class_ok_def)
  then have "fld h' t1 = fld h t1" using assms(2,4) by (auto simp: fld_def)
  with t1 is_cfun_le [OF t1(5) assms(3)] assms(3) show ?thesis by (auto simp: class_ok_def heap_le_def)
qed

lemma heap_le_table:
  assumes "heap_le {} h0 h" "heap_le {t} h h'" "h_tnext h0 \<le> t"
  shows "heap_le {} h0 h'"
  using assms by (auto simp: heap_le_def)

lemma heap_le_field: "heap_le {t} h (set_field t m v h)"
  by (auto simp: heap_le_def set_field_def)

lemma heap_le_register: "heap_le {t} h (luaL_register t regs h)"
  by (auto simp: heap_le_def luaL_register_sel)

lemma lib_inv_field:
  assumes inv: "lib_inv h0 M C nm h" and t: "nm (str n) = LTable t" "n \<in> M" and m: "m \<noteq> ''__name''"
  shows "lib_inv h0 M C nm (set_field t m v h)"
proof -
  have "nm (str c) \<noteq> LTable t" if "C c = Some meths" for c meths
    using that t inv unfolding lib_inv_def by blast
  then have cl: "class_ok h0 nm (set_field t m v h) c meths" if "C c = Some meths" for c meths
    using class_ok_table [OF _ _ heap_le_field, of h0 nm h c meths t m v] inv that unfolding lib_inv_def by simp
  have "module_ok nm (set_field t m v h) n'" if "n' \<in> M" for n'
    using module_ok_table [OF _ _ heap_le_field, of nm h n' t m v] inv that m by (simp add: lib_inv_def fld_set_field)
  moreover have "heap_le {} h0 (set_field t m v h)"
    using heap_le_table [OF _ heap_le_field] inv t by (simp add: lib_inv_def)
  ultimately show ?thesis using inv cl unfolding lib_inv_def by simp
qed

lemma lib_inv_constants:
  assumes "lib_inv h0 M C nm h" "nm (str n) = LTable t" "n \<in> M" "''__name'' \<notin> fst ` set cs"
  shows "lib_inv h0 M C nm (set_constants t cs h)"
  using assms by (induction t cs h rule: set_constants.induct) (auto simp: lib_inv_field)

text \<open>More methods for a class.\<close>

lemma class_ok_extend:
  assumes "class_ok h0 nm h c ms" "nm (str c) = LTable t" "''__index'' \<notin> fst ` set ns"
  shows "class_ok h0 nm (luaL_register t ns h) c (ms @ ns)"
proof -
  let ?h = "luaL_register t ns h"
  have c: "h_tnext h0 \<le> t" "t < h_tnext h" "fld h t ''__index'' = LTable t"
    "\<And>n fn. map_of (rev ms) n = Some fn \<Longrightarrow> is_cfun h (fld h t n) fn"
    using assms(1,2) by (auto simp: class_ok_def)
  have "map_of (rev ns) ''__index'' = None" using assms(3) by (simp add: map_of_eq_None_iff)
  then have ix: "fld ?h t ''__index'' = LTable t" using luaL_register_fld [where regs = ns and n = "''__index''" and t = t and h = h] c(3) by simp
  have "is_cfun ?h (fld ?h t n) fn" if "map_of (rev (ms @ ns)) n = Some fn" for n fn
    using that luaL_register_fld [where regs = ns and n = n and t = t and h = h] is_cfun_le [OF c(4) heap_le_register]
    by (auto simp: map_add_def split: option.splits)
  with c ix assms(2) show ?thesis by (auto simp: class_ok_def luaL_register_sel)
qed

lemma lib_inv_extend:
  assumes inv: "lib_inv h0 M C nm h" and t: "nm (str c) = LTable t" "C c = Some ms" and ns: "''__index'' \<notin> fst ` set ns"
  shows "lib_inv h0 M (C(c \<mapsto> ms @ ns)) nm (luaL_register t ns h)"
proof -
  let ?h = "luaL_register t ns h"
  note le = heap_le_register [of t h ns]
  have "nm (str n) \<noteq> LTable t" if "n \<noteq> c" for n using that t inv unfolding lib_inv_def by blast
  then have cl: "class_ok h0 nm ?h n meths" if "C n = Some meths" "n \<noteq> c" for n meths
    using class_ok_table [OF _ _ le] inv that unfolding lib_inv_def by (simp add: luaL_register_sel)
  have "nm (str n) \<noteq> LTable t" if "n \<in> M" for n using that t inv unfolding lib_inv_def by blast
  then have md: "module_ok nm ?h n" if "n \<in> M" for n
    using module_ok_table [OF _ _ le] inv that unfolding lib_inv_def by (simp add: luaL_register_sel)
  have new: "class_ok h0 nm ?h c (ms @ ns)" using class_ok_extend [where nm = nm and c = c, OF _ t(1) ns] inv t(2) by (simp add: lib_inv_def)
  have h: "heap_le {} h0 ?h" "h_tnext ?h = h_tnext h" using heap_le_table [OF _ le] inv t by (auto simp: lib_inv_def luaL_register_sel)
  have "dom (C(c \<mapsto> ms @ ns)) = dom C" using t(2) by auto
  with inv md cl new h show ?thesis by (simp add: lib_inv_def)
qed

section \<open>New modules and classes\<close>

text \<open>Only the heap and the names of one Lua state change.\<close>

definition lib_frame :: "lid \<Rightarrow> 'x world \<Rightarrow> 'x world \<Rightarrow> bool" where
  "lib_frame G w w' \<longleftrightarrow> (\<exists>h nm. w' = w\<lparr>w_heap := h, w_names := (w_names w)(G := nm)\<rparr>)"

abbreviation lib_ok :: "lua_heap \<Rightarrow> lid \<Rightarrow> string set \<Rightarrow> (string \<Rightarrow> luaL_Reg option) \<Rightarrow> 'x world \<Rightarrow> bool" where
  "lib_ok h0 G M C w \<equiv> lib_inv h0 M C (w_names w G) (w_heap w)"

lemma lib_frame_refl: "lib_frame G w w"
  unfolding lib_frame_def by (rule exI [of _ "w_heap w"], rule exI [of _ "w_names w G"]) simp

lemma lib_frame_trans: "lib_frame G w w1 \<Longrightarrow> lib_frame G w1 w2 \<Longrightarrow> lib_frame G w w2"
  unfolding lib_frame_def by force

lemma lib_frame_intro: "lib_frame G w (w\<lparr>w_heap := h\<rparr>)" "lib_frame G w (set_registry G name v w)"
  unfolding lib_frame_def set_registry_def
  by (rule exI [of _ h], rule exI [of _ "w_names w G"], simp)
     (rule exI [of _ "w_heap w"], rule exI [of _ "(w_names w G)(str name := v)"], simp)

lemma lib_frame_heap: "lib_frame G w w' \<Longrightarrow> lib_frame G w (w'\<lparr>w_heap := h\<rparr>)"
  by (rule lib_frame_trans [OF _ lib_frame_intro(1)])

lemma lib_inv_name:
  assumes inv: "lib_inv h0 M C nm h" and n: "n \<notin> decoder_names" "n \<notin> dom C" and t: "t = h_tnext h" "t < h_tnext h'"
    and le: "heap_le {} h h'" and ok: "module_ok (nm(str n := LTable t)) h' n"
  shows "lib_inv h0 (insert n M) C (nm(str n := LTable t)) h'"
proof -
  note inv' = lib_inv_le [OF inv le]
  have "module_ok (nm(str n := LTable t)) h' m" if "m \<in> insert n M" for m
    using that ok inv' by (cases "m = n") (auto simp: lib_inv_def module_ok_def)
  moreover have "class_ok h0 (nm(str n := LTable t)) h' m meths" if "C m = Some meths" for m meths
    using that n inv' by (auto simp: lib_inv_def class_ok_def)
  moreover have "h_tnext h0 \<le> t" using inv t(1) by (simp add: lib_inv_def heap_le_def)
  moreover have "nm (str m) \<noteq> LTable t" for m using inv t(1) unfolding lib_inv_def by blast
  ultimately show ?thesis using inv' n t(2) unfolding lib_inv_def by (auto simp: fun_upd_def)
qed

lemma lib_inv_class:
  assumes inv: "lib_inv h0 M C nm h" and c: "c \<notin> decoder_names" "c \<notin> M" "c \<notin> dom C" and t: "t = h_tnext h" "t < h_tnext h'"
    and le: "heap_le {} h h'" and ok: "class_ok h0 (nm(str c := LTable t)) h' c meths"
  shows "lib_inv h0 M (C(c \<mapsto> meths)) (nm(str c := LTable t)) h'"
proof -
  note inv' = lib_inv_le [OF inv le]
  have "class_ok h0 (nm(str c := LTable t)) h' n m" if "(C(c \<mapsto> meths)) n = Some m" for n m
    using that c ok inv' by (cases "n = c") (auto simp: lib_inv_def class_ok_def)
  moreover have "module_ok (nm(str c := LTable t)) h' n" if "n \<in> M" for n
    using that c inv' by (auto simp: lib_inv_def module_ok_def)
  moreover have "h_tnext h0 \<le> t" using inv t(1) by (simp add: lib_inv_def heap_le_def)
  moreover have "nm (str m) \<noteq> LTable t" for m using inv t(1) unfolding lib_inv_def by blast
  moreover have "dom (C(c \<mapsto> meths)) = insert c (dom C)" by auto
  ultimately show ?thesis using inv' c t(2) unfolding lib_inv_def by (auto simp del: dom_fun_upd fun_upd_apply simp: fun_upd_apply [of nm])
qed

lemma new_module_ok:
  assumes inv: "lib_ok h0 G M C w" and n: "name \<notin> decoder_names" "name \<notin> dom C" and fs: "''__name'' \<notin> fst ` set funcs"
  shows "\<exists>t w'. luvL_new_module G name funcs w = (t, w') \<and> lib_ok h0 G (insert name M) C w' \<and> lib_frame G w w' \<and>
    w_names w' G = (w_names w G)(str name := LTable t)"
proof -
  let ?h = "w_heap w" and ?t = "h_tnext (w_heap w)" and ?f = "LFun (h_fnext (w_heap w))"
  let ?h1 = "set_field ?t ''__name'' (LStr (str name)) (snd (new_table [] ?h))"
  let ?h2 = "set_field ?t ''__codec'' ?f (snd (new_cfunction ''luvL_lib_encoder'' ?h1))"
  let ?h3 = "?h2\<lparr>h_table := (h_table ?h2)(?t := (h_table ?h2 ?t)\<lparr>t_codec := ?f\<rparr>)\<rparr>"
  let ?h4 = "luaL_register ?t funcs ?h3"
  let ?w = "(set_registry G name (LTable ?t) (w\<lparr>w_heap := ?h3\<rparr>))\<lparr>w_heap := ?h4\<rparr>"
  have eq: "luvL_new_module G name funcs w = (?t, ?w)"
    by (simp add: luvL_new_module_def new_table_def new_cfunction_def set_registry_def Let_def)
  have le3: "heap_le {} ?h ?h3"
    by (auto simp: heap_le_def new_table_def new_cfunction_def)
  have le: "heap_le {} ?h ?h4" using heap_le_table [OF le3 heap_le_register] by simp
  have lt: "?t < h_tnext ?h4" by (simp add: luaL_register_sel new_table_def new_cfunction_def)
  have "map_of (rev funcs) ''__name'' = None" using fs by (simp add: map_of_eq_None_iff)
  then have "fld ?h4 ?t ''__name'' = fld ?h3 ?t ''__name''"
    using luaL_register_fld [where regs = funcs and n = "''__name''" and t = ?t and h = ?h3] by simp
  also have "\<dots> = fld ?h2 ?t ''__name''" by (simp add: fld_def)
  also have "\<dots> = fld ?h1 ?t ''__name''" by (subst fld_set_field) (simp_all add: fld_def new_cfunction_def)
  also have "\<dots> = LStr (str name)" by (simp add: fld_set_field)
  finally have nm: "fld ?h4 ?t ''__name'' = LStr (str name)" .
  have "is_cfun ?h3 ?f ''luvL_lib_encoder''" by (simp add: is_cfun_def cfun_def new_cfunction_def new_table_def)
  from is_cfun_le [OF this heap_le_register] have "is_cfun ?h4 ?f ''luvL_lib_encoder''" .
  then have cd: "is_cfun ?h4 (t_codec (h_table ?h4 ?t)) ''luvL_lib_encoder''" by (simp add: luaL_register_sel)
  have ok: "module_ok ((w_names w G)(str name := LTable ?t)) ?h4 name" using lt nm cd by (simp add: module_ok_def)
  have "lib_ok h0 G (insert name M) C ?w"
    using lib_inv_name [OF inv n refl lt le ok] by (simp add: set_registry_def)
  moreover have "lib_frame G w ?w"
    by (rule lib_frame_trans [OF lib_frame_trans [OF lib_frame_intro(1,2)] lib_frame_intro(1)])
  ultimately show ?thesis using eq by (simp add: set_registry_def)
qed

lemma new_class_ok:
  assumes inv: "lib_ok h0 G M C w" and c: "c \<notin> decoder_names" "c \<notin> M" "c \<notin> dom C" and ms: "''__index'' \<notin> fst ` set meths"
  shows "\<exists>t w'. luvL_new_class G c meths w = Done t w' \<and> lib_ok h0 G M (C(c \<mapsto> meths)) w' \<and> lib_frame G w w' \<and>
    w_names w' G = (w_names w G)(str c := LTable t)"
proof -
  let ?h = "w_heap w" and ?t = "h_tnext (w_heap w)" and ?nm = "(w_names w G)(str c := LTable (h_tnext (w_heap w)))"
  let ?h1 = "set_field ?t ''__index'' (LTable ?t) (snd (new_table [] ?h))"
  let ?h2 = "luaL_register ?t meths ?h1"
  let ?w = "(set_registry G c (LTable ?t) (w\<lparr>w_heap := snd (new_table [] ?h)\<rparr>))\<lparr>w_heap := ?h2\<rparr>"
  have "w_names w G (str c) = LNil" using inv c by (simp add: lib_inv_def)
  then have eq: "luvL_new_class G c meths w = Done ?t ?w"
    by (simp add: luvL_new_class_def luaL_newmetatable_def new_table_def set_registry_def)
  have le1: "heap_le {} ?h ?h1" by (auto simp: heap_le_def new_table_def)
  have le: "heap_le {} ?h ?h2" using heap_le_table [OF le1 heap_le_register] by simp
  have lt: "?t < h_tnext ?h2" by (simp add: luaL_register_sel new_table_def)
  have h0: "h_tnext h0 \<le> ?t" using inv by (simp add: lib_inv_def heap_le_def)
  have "class_ok h0 ?nm ?h1 c []" using h0 by (simp add: class_ok_def fld_set_field new_table_def)
  from class_ok_extend [OF this _ ms] have new: "class_ok h0 ?nm ?h2 c meths" by simp
  from lib_inv_class [OF inv c refl lt le new] have "lib_inv h0 M (C(c \<mapsto> meths)) ?nm ?h2" .
  then have "lib_ok h0 G M (C(c \<mapsto> meths)) ?w" by (simp add: set_registry_def)
  moreover have "lib_frame G w ?w"
    by (rule lib_frame_trans [OF lib_frame_trans [OF lib_frame_intro(1,2)] lib_frame_intro(1)])
  ultimately show ?thesis using eq by (simp add: set_registry_def)
qed

section \<open>Stages of opening\<close>

text \<open>
  Between the world \<open>w\<close> and the world \<open>w'\<close> only names and heap have changed; the modules \<open>M\<close> and the
  classes \<open>C\<close> are registered, and \<open>luv\<close> is the table of the module \<open>luv\<close>.
\<close>

definition stage ::
    "lua_heap \<Rightarrow> lid \<Rightarrow> string set \<Rightarrow> (string \<Rightarrow> luaL_Reg option) \<Rightarrow> nat \<Rightarrow> 'x world \<Rightarrow> 'x world \<Rightarrow> bool" where
  "stage h0 G M C luv w w' \<longleftrightarrow> lib_ok h0 G M C w' \<and> lib_frame G w w' \<and> ''luv'' \<in> M \<and> w_names w' G (str ''luv'') = LTable luv \<and>
     (\<forall>n\<in>decoder_names. w_names w' G (str n) = w_names w G (str n))"

lemma stage_class:
  assumes st: "stage h0 G M C luv w w1" and c: "c \<notin> decoder_names" "c \<notin> M" "c \<notin> dom C" and ms: "''__index'' \<notin> fst ` set meths"
  shows "\<exists>t w2. luvL_new_class G c meths w1 = Done t w2 \<and> stage h0 G M (C(c \<mapsto> meths)) luv w w2 \<and> w_names w2 G (str c) = LTable t"
proof -
  have inv: "lib_ok h0 G M C w1" using st by (simp add: stage_def)
  obtain t w2 where w2: "luvL_new_class G c meths w1 = Done t w2" "lib_ok h0 G M (C(c \<mapsto> meths)) w2" "lib_frame G w1 w2"
    "w_names w2 G = (w_names w1 G)(str c := LTable t)"
    using new_class_ok [OF inv c ms] by blast
  then show ?thesis using st c lib_frame_trans [OF _ w2(3)] by (auto simp: stage_def)
qed

lemma stage_extend:
  assumes st: "stage h0 G M C luv w w1" and c: "w_names w1 G (str c) = LTable t" "C c = Some ms" and ns: "''__index'' \<notin> fst ` set ns"
  shows "stage h0 G M (C(c \<mapsto> ms @ ns)) luv w (w1\<lparr>w_heap := luaL_register t ns (w_heap w1)\<rparr>)"
  using st lib_inv_extend [where nm = "w_names w1 G" and c = c and C = C, OF _ c ns] by (simp add: stage_def lib_frame_heap)

lemma stage_field:
  assumes st: "stage h0 G M C luv w w1" and t: "w_names w1 G (str n) = LTable t" "n \<in> M" and m: "m \<noteq> ''__name''"
  shows "stage h0 G M C luv w (add_field t m v w1)"
  using st lib_inv_field [where nm = "w_names w1 G" and n = n, OF _ t m] by (simp add: stage_def add_field_def lib_frame_heap)

lemma stage_module:
  assumes st: "stage h0 G M C luv w w1" and n: "name \<notin> decoder_names" "name \<notin> dom C" "name \<noteq> ''luv''"
    and fs: "''__name'' \<notin> fst ` set funcs"
  shows "\<exists>t w2. luvL_new_module G name funcs w1 = (t, w2) \<and> stage h0 G (insert name M) C luv w w2 \<and> w_names w2 G (str name) = LTable t"
proof -
  have inv: "lib_ok h0 G M C w1" using st by (simp add: stage_def)
  obtain t w2 where w2: "luvL_new_module G name funcs w1 = (t, w2)" "lib_ok h0 G (insert name M) C w2" "lib_frame G w1 w2"
    "w_names w2 G = (w_names w1 G)(str name := LTable t)"
    using new_module_ok [OF inv n(1,2) fs] by blast
  then show ?thesis using st n lib_frame_trans [OF _ w2(3)] by (auto simp: stage_def)
qed

lemma stage_luv: "stage h0 G M C luv w w1 \<Longrightarrow> w_names w1 G (str ''luv'') = LTable luv \<and> ''luv'' \<in> M"
  by (simp add: stage_def)

lemma stage_sub:
  assumes st: "stage h0 G M C luv w w1" and n: "name \<notin> decoder_names" "name \<notin> dom C" "name \<noteq> ''luv''"
    and fs: "''__name'' \<notin> fst ` set funcs" and f: "field \<noteq> ''__name''"
  shows "stage h0 G (insert name M) C luv w (sub_module G luv field name funcs w1)"
proof -
  obtain t w2 where w2: "luvL_new_module G name funcs w1 = (t, w2)" "stage h0 G (insert name M) C luv w w2"
    using stage_module [OF st n fs] by blast
  then show ?thesis using stage_field [OF w2(2), of "''luv''" luv, OF _ _ f] stage_luv [OF w2(2)] by (simp add: sub_module_def)
qed

lemma stage_rebase:
  assumes "stage h0 G M C luv w w1" "w_heap w2 = w_heap w1" "w_names w2 = w_names w1"
  shows "stage h0 G M C luv w2 w2"
  using assms lib_frame_refl by (simp add: stage_def)

end
