(* ===== verification/Module_Props.thy ===== *)
theory Module_Props
  imports Module_Inv Process_Props
begin

text \<open>
  What \<open>luaopen_luv\<close> registers, and how modules and the arguments and results of threads pass from one
  Lua state to another.
\<close>

section \<open>Opening the module\<close>

lemmas class_names = LUV_THREAD_T_def LUV_FIBER_T_def LUV_TIMER_T_def LUV_IDLE_T_def LUV_FILE_T_def LUV_PIPE_T_def
  LUV_NET_TCP_T_def LUV_PROCESS_T_def LUV_ZMQ_CTX_T_def LUV_ZMQ_SOCKET_T_def

lemmas function_tables = luv_funcs_def luv_thread_funcs_def luv_thread_meths_def luv_fiber_funcs_def luv_fiber_meths_def
  luv_codec_funcs_def luv_timer_funcs_def luv_timer_meths_def luv_idle_funcs_def luv_idle_meths_def luv_fs_funcs_def
  luv_file_meths_def luv_stream_meths_def luv_pipe_funcs_def luv_pipe_meths_def luv_net_funcs_def luv_net_tcp_meths_def
  luv_process_funcs_def luv_process_meths_def luv_zmq_funcs_def luv_zmq_ctx_meths_def luv_zmq_socket_meths_def

text \<open>The modules and the classes with their methods, later ones last.\<close>

definition first_modules :: "string set" where "first_modules = {''luv'', ''luv_thread''}"

definition core_modules :: "string set" where
  "core_modules = {''luv_pipe'', ''luv_fs'', ''luv_idle'', ''luv_timer'', ''luv_codec'', ''luv_fiber''} \<union> first_modules"

definition luv_modules :: "string set" where
  "luv_modules = {''luv_zmq'', ''luv_process'', ''luv_net''} \<union> core_modules"

definition first_classes :: "string \<Rightarrow> luaL_Reg option" where
  "first_classes = [LUV_THREAD_T \<mapsto> luv_thread_meths]"

definition core_classes :: "string \<Rightarrow> luaL_Reg option" where
  "core_classes = first_classes(LUV_FIBER_T \<mapsto> luv_fiber_meths, LUV_TIMER_T \<mapsto> luv_timer_meths, LUV_IDLE_T \<mapsto> luv_idle_meths,
     LUV_FILE_T \<mapsto> luv_file_meths, LUV_PIPE_T \<mapsto> luv_stream_meths @ luv_pipe_meths)"

definition class_methods :: "string \<Rightarrow> luaL_Reg option" where
  "class_methods = core_classes(LUV_NET_TCP_T \<mapsto> luv_stream_meths @ luv_net_tcp_meths, LUV_PROCESS_T \<mapsto> luv_process_meths,
     LUV_ZMQ_CTX_T \<mapsto> luv_zmq_ctx_meths, LUV_ZMQ_SOCKET_T \<mapsto> luv_zmq_socket_meths)"

lemma lib_inv_decoder:
  assumes "lib_inv h0 M C nm h" "n \<in> decoder_names" "\<forall>t. v \<noteq> LTable t"
  shows "lib_inv h0 M C (nm(str n := v)) h"
proof -
  have "module_ok (nm(str n := v)) h m" if "m \<in> M" for m
    using assms that by (auto simp: lib_inv_def module_ok_def)
  moreover have "class_ok h0 (nm(str n := v)) h m meths" if "C m = Some meths" for m meths
  proof -
    have "m \<noteq> n" using assms(1,2) that unfolding lib_inv_def by blast
    then show ?thesis using assms that by (auto simp: lib_inv_def class_ok_def)
  qed
  ultimately show ?thesis using assms unfolding lib_inv_def by auto
qed

lemma open_first_ok:
  assumes nm: "w_names w L = (\<lambda>_. LNil)"
  shows "\<exists>luv w0 w1. open_first L w = Done luv w1 \<and> stage (w_heap w0) L first_modules first_classes luv w0 w1 \<and>
    heap_le {} (w_heap w) (w_heap w0) \<and> lib_frame L (lua_settop L 0 w) w0 \<and>
    is_cfun (w_heap w0) (w_names w0 L (str ''luv:lib:decoder'')) ''luvL_lib_decoder'' \<and>
    is_cfun (w_heap w0) (w_names w0 L (str ''luv:zmq:decoder'')) ''luvL_zmq_ctx_decoder''"
proof -
  let ?h = "w_heap w"
  let ?h1 = "snd (new_cfunction ''luvL_lib_decoder'' ?h)"
  let ?w1 = "set_registry L ''luv:lib:decoder'' (LFun (h_fnext ?h)) ((lua_settop L 0 w)\<lparr>w_heap := ?h1\<rparr>)"
  let ?h2 = "snd (new_cfunction ''luvL_zmq_ctx_decoder'' ?h1)"
  define w0 where "w0 = set_registry L ''luv:zmq:decoder'' (LFun (h_fnext ?h1)) (?w1\<lparr>w_heap := ?h2\<rparr>)"
  have le: "heap_le {} ?h (w_heap w0)" and d: "is_cfun (w_heap w0) (w_names w0 L (str ''luv:lib:decoder'')) ''luvL_lib_decoder''"
    "is_cfun (w_heap w0) (w_names w0 L (str ''luv:zmq:decoder'')) ''luvL_zmq_ctx_decoder''"
    by (auto simp: w0_def set_registry_def heap_le_def new_cfunction_def is_cfun_def cfun_def)
  have "lib_frame L (lua_settop L 0 w) w0" unfolding w0_def
    by (intro lib_frame_trans [OF _ lib_frame_intro(2)] lib_frame_trans [OF _ lib_frame_intro(1)] lib_frame_refl)
  moreover have "lib_inv (w_heap w0) {} Map.empty (\<lambda>_. LNil) (w_heap w0)" by (simp add: lib_inv_def)
  from lib_inv_decoder [OF lib_inv_decoder [OF this, of "''luv:lib:decoder''" "LFun (h_fnext ?h)"], of "''luv:zmq:decoder''" "LFun (h_fnext ?h1)"]
  have "lib_ok (w_heap w0) L {} Map.empty w0" by (simp add: w0_def set_registry_def decoder_names_def nm)
  from new_module_ok [OF this, of "''luv''" luv_funcs] obtain luv w1 where
    w1: "luvL_new_module L ''luv'' luv_funcs w0 = (luv, w1)" "lib_ok (w_heap w0) L {''luv''} Map.empty w1" "lib_frame L w0 w1"
      "w_names w1 L = (w_names w0 L)(str ''luv'' := LTable luv)"
    by (auto simp: decoder_names_def function_tables)
  then have "stage (w_heap w0) L {''luv''} Map.empty luv w0 w1" by (simp add: stage_def decoder_names_def)
  from stage_sub [OF this, of "''luv_thread''" luv_thread_funcs "''thread''"]
  have "stage (w_heap w0) L {''luv_thread'', ''luv''} Map.empty luv w0 (sub_module L luv ''thread'' ''luv_thread'' luv_thread_funcs w1)"
    by (simp add: decoder_names_def function_tables)
  from stage_class [OF this, of LUV_THREAD_T luv_thread_meths] obtain t w2 where
    w2: "luvL_new_class L LUV_THREAD_T luv_thread_meths (sub_module L luv ''thread'' ''luv_thread'' luv_thread_funcs w1) = Done t w2"
      "stage (w_heap w0) L {''luv_thread'', ''luv''} [LUV_THREAD_T \<mapsto> luv_thread_meths] luv w0 w2"
    by (auto simp: decoder_names_def class_names function_tables)
  have "open_first L w = Done luv w2"
    using w1(1) w2(1) by (simp add: open_first_def w0_def new_cfunction_def set_registry_def)
  moreover have "stage (w_heap w0) L first_modules first_classes luv w0 w2"
    using w2(2) by (simp add: first_modules_def first_classes_def insert_commute)
  ultimately show ?thesis using le d by blast
qed

lemma stage_both:
  assumes "stage h0 G M C luv w w1" "name \<notin> decoder_names" "name \<notin> dom C" "name \<noteq> ''luv''" "''__name'' \<notin> fst ` set funcs"
    "field \<noteq> ''__name''" "c \<notin> decoder_names" "c \<notin> insert name M" "c \<notin> dom C" "''__index'' \<notin> fst ` set meths"
  shows "\<exists>t w2. luvL_new_class G c meths (sub_module G luv field name funcs w1) = Done t w2 \<and>
    stage h0 G (insert name M) (C(c \<mapsto> meths)) luv w w2 \<and> w_names w2 G (str c) = LTable t"
  using stage_class [OF stage_sub [OF assms(1-6)] assms(7-10)] .

lemmas name_facts = decoder_names_def class_names function_tables first_modules_def core_modules_def

lemma open_mods_ok:
  assumes st: "stage h L first_modules first_classes luv w w1"
  shows "\<exists>w2. open_mods coyield L luv w1 = Done () w2 \<and> stage h L core_modules core_classes luv w w2"
proof -
  from stage_module [OF st, of "''luv_fiber''" luv_fiber_funcs] obtain fiber v1 where
    v1: "luvL_new_module L ''luv_fiber'' luv_fiber_funcs w1 = (fiber, v1)"
      "stage h L (insert ''luv_fiber'' first_modules) first_classes luv w v1" "w_names v1 L (str ''luv_fiber'') = LTable fiber"
    by (auto simp: name_facts first_classes_def)
  let ?v2 = "add_field fiber ''yield'' coyield v1"
  have "stage h L (insert ''luv_fiber'' first_modules) first_classes luv w ?v2"
    by (rule stage_field [OF v1(2,3)]) simp_all
  from stage_field [OF this, of "''luv''" luv "''fiber''" "LTable fiber"] stage_luv [OF this]
  have "stage h L (insert ''luv_fiber'' first_modules) first_classes luv w (add_field luv ''fiber'' (LTable fiber) ?v2)" by simp
  from stage_class [OF this, of LUV_FIBER_T luv_fiber_meths] obtain t v3 where
    v3: "luvL_new_class L LUV_FIBER_T luv_fiber_meths (add_field luv ''fiber'' (LTable fiber) ?v2) = Done t v3"
      "stage h L (insert ''luv_fiber'' first_modules) (first_classes(LUV_FIBER_T \<mapsto> luv_fiber_meths)) luv w v3"
    by (auto simp: name_facts first_classes_def)
  let ?C3 = "first_classes(LUV_FIBER_T \<mapsto> luv_fiber_meths)" and ?M3 = "insert ''luv_codec'' (insert ''luv_fiber'' first_modules)"
  have "stage h L ?M3 ?C3 luv w (sub_module L luv ''codec'' ''luv_codec'' luv_codec_funcs v3)"
    by (rule stage_sub [OF v3(2)]) (simp_all add: name_facts first_classes_def)
  from stage_both [OF this, of "''luv_timer''" luv_timer_funcs "''timer''" LUV_TIMER_T luv_timer_meths] obtain t4 v4 where
    v4: "luvL_new_class L LUV_TIMER_T luv_timer_meths (sub_module L luv ''timer'' ''luv_timer'' luv_timer_funcs
        (sub_module L luv ''codec'' ''luv_codec'' luv_codec_funcs v3)) = Done t4 v4"
      "stage h L (insert ''luv_timer'' ?M3) (?C3(LUV_TIMER_T \<mapsto> luv_timer_meths)) luv w v4"
    by (auto simp: name_facts first_classes_def)
  let ?C4 = "?C3(LUV_TIMER_T \<mapsto> luv_timer_meths)" and ?M4 = "insert ''luv_timer'' ?M3"
  from stage_both [OF v4(2), of "''luv_idle''" luv_idle_funcs "''idle''" LUV_IDLE_T luv_idle_meths] obtain t5 v5 where
    v5: "luvL_new_class L LUV_IDLE_T luv_idle_meths (sub_module L luv ''idle'' ''luv_idle'' luv_idle_funcs v4) = Done t5 v5"
      "stage h L (insert ''luv_idle'' ?M4) (?C4(LUV_IDLE_T \<mapsto> luv_idle_meths)) luv w v5"
    by (auto simp: name_facts first_classes_def)
  let ?C5 = "?C4(LUV_IDLE_T \<mapsto> luv_idle_meths)" and ?M5 = "insert ''luv_idle'' ?M4"
  from stage_both [OF v5(2), of "''luv_fs''" luv_fs_funcs "''fs''" LUV_FILE_T luv_file_meths] obtain t6 v6 where
    v6: "luvL_new_class L LUV_FILE_T luv_file_meths (sub_module L luv ''fs'' ''luv_fs'' luv_fs_funcs v5) = Done t6 v6"
      "stage h L (insert ''luv_fs'' ?M5) (?C5(LUV_FILE_T \<mapsto> luv_file_meths)) luv w v6"
    by (auto simp: name_facts first_classes_def)
  let ?C6 = "?C5(LUV_FILE_T \<mapsto> luv_file_meths)" and ?M6 = "insert ''luv_fs'' ?M5"
  from stage_both [OF v6(2), of "''luv_pipe''" luv_pipe_funcs "''pipe''" LUV_PIPE_T luv_stream_meths] obtain t7 v7 where
    v7: "luvL_new_class L LUV_PIPE_T luv_stream_meths (sub_module L luv ''pipe'' ''luv_pipe'' luv_pipe_funcs v6) = Done t7 v7"
      "stage h L (insert ''luv_pipe'' ?M6) (?C6(LUV_PIPE_T \<mapsto> luv_stream_meths)) luv w v7" "w_names v7 L (str LUV_PIPE_T) = LTable t7"
    by (auto simp: name_facts first_classes_def)
  have "stage h L (insert ''luv_pipe'' ?M6) (?C6(LUV_PIPE_T \<mapsto> luv_stream_meths, LUV_PIPE_T \<mapsto> luv_stream_meths @ luv_pipe_meths)) luv w
      (v7\<lparr>w_heap := luaL_register t7 luv_pipe_meths (w_heap v7)\<rparr>)"
    by (rule stage_extend [OF v7(2,3)]) (simp_all add: name_facts)
  then have "stage h L core_modules core_classes luv w (v7\<lparr>w_heap := luaL_register t7 luv_pipe_meths (w_heap v7)\<rparr>)"
    by (simp add: core_modules_def core_classes_def)
  moreover have "open_mods coyield L luv w1 = Done () (v7\<lparr>w_heap := luaL_register t7 luv_pipe_meths (w_heap v7)\<rparr>)"
    using v1(1) v3(1) v4(1) v5(1) v6(1) v7(1) by (simp add: open_mods_def)
  ultimately show ?thesis by blast
qed

lemma open_net_ok:
  assumes st: "stage h L core_modules core_classes luv w w1"
  shows "\<exists>w2. open_net L luv w1 = Done () w2 \<and> stage h L luv_modules class_methods luv w w2"
proof -
  note cl = name_facts core_classes_def first_classes_def
  from stage_both [OF st, of "''luv_net''" luv_net_funcs "''net''" LUV_NET_TCP_T luv_stream_meths] obtain t v1 where
    v1: "luvL_new_class L LUV_NET_TCP_T luv_stream_meths (sub_module L luv ''net'' ''luv_net'' luv_net_funcs w1) = Done t v1"
      "stage h L (insert ''luv_net'' core_modules) (core_classes(LUV_NET_TCP_T \<mapsto> luv_stream_meths)) luv w v1"
      "w_names v1 L (str LUV_NET_TCP_T) = LTable t"
    by (auto simp: cl)
  let ?v2 = "v1\<lparr>w_heap := luaL_register t luv_net_tcp_meths (w_heap v1)\<rparr>"
  let ?C2 = "core_classes(LUV_NET_TCP_T \<mapsto> luv_stream_meths, LUV_NET_TCP_T \<mapsto> luv_stream_meths @ luv_net_tcp_meths)"
  have "stage h L (insert ''luv_net'' core_modules) ?C2 luv w ?v2"
    by (rule stage_extend [OF v1(2,3)]) (simp_all add: name_facts)
  from stage_both [OF this, of "''luv_process''" luv_process_funcs "''process''" LUV_PROCESS_T luv_process_meths] obtain t3 v3 where
    v3: "luvL_new_class L LUV_PROCESS_T luv_process_meths (sub_module L luv ''process'' ''luv_process'' luv_process_funcs ?v2) = Done t3 v3"
      "stage h L (insert ''luv_process'' (insert ''luv_net'' core_modules)) (?C2(LUV_PROCESS_T \<mapsto> luv_process_meths)) luv w v3"
    by (auto simp: cl)
  let ?C3 = "?C2(LUV_PROCESS_T \<mapsto> luv_process_meths)"
  from stage_module [OF v3(2), of "''luv_zmq''" luv_zmq_funcs] obtain zmq v4 where
    v4: "luvL_new_module L ''luv_zmq'' luv_zmq_funcs v3 = (zmq, v4)" "stage h L luv_modules ?C3 luv w v4"
      "w_names v4 L (str ''luv_zmq'') = LTable zmq"
    by (auto simp: cl luv_modules_def insert_commute)
  let ?v5 = "v4\<lparr>w_heap := set_constants zmq luv_zmq_consts (w_heap v4)\<rparr>"
  have z: "''luv_zmq'' \<in> luv_modules" "''__name'' \<notin> fst ` set luv_zmq_consts" by (simp_all add: luv_modules_def luv_zmq_consts_def)
  have st5: "stage h L luv_modules ?C3 luv w ?v5"
    using v4(2) lib_inv_constants [where nm = "w_names v4 L" and n = "''luv_zmq''", OF _ v4(3) z]
    by (simp add: stage_def lib_frame_heap)
  from stage_field [OF this, of "''luv''" luv "''zmq''" "LTable zmq"] stage_luv [OF this]
  have "stage h L luv_modules ?C3 luv w (add_field luv ''zmq'' (LTable zmq) ?v5)" by simp
  from stage_class [OF this, of LUV_ZMQ_CTX_T luv_zmq_ctx_meths] obtain t6 v6 where
    v6: "luvL_new_class L LUV_ZMQ_CTX_T luv_zmq_ctx_meths (add_field luv ''zmq'' (LTable zmq) ?v5) = Done t6 v6"
      "stage h L luv_modules (?C3(LUV_ZMQ_CTX_T \<mapsto> luv_zmq_ctx_meths)) luv w v6"
    by (auto simp: cl luv_modules_def)
  from stage_class [OF this(2), of LUV_ZMQ_SOCKET_T luv_zmq_socket_meths] obtain t7 v7 where
    v7: "luvL_new_class L LUV_ZMQ_SOCKET_T luv_zmq_socket_meths v6 = Done t7 v7"
      "stage h L luv_modules (?C3(LUV_ZMQ_CTX_T \<mapsto> luv_zmq_ctx_meths, LUV_ZMQ_SOCKET_T \<mapsto> luv_zmq_socket_meths)) luv w v7"
    by (auto simp: cl luv_modules_def)
  have "open_net L luv w1 = Done () v7"
    using v1(1) v3(1) v4(1) v6(1) v7(1) by (simp add: open_net_def)
  moreover have "stage h L luv_modules class_methods luv w v7" using v7(2) by (simp add: class_methods_def)
  ultimately show ?thesis by blast
qed

section \<open>The whole of it\<close>

definition hook_names :: "string set" where "hook_names = {''luv:lib:decoder'', ''luv:zmq:decoder''}"

lemma std_streams_ok:
  assumes "stage h L M C luv w w" "luvL_state_self L w = Some s" "fst ` set fhs \<subseteq> {''stdin'', ''stdout'', ''stderr''}"
  shows "\<exists>w2. std_streams sys L luv fhs w = Done () w2 \<and> stage h L M C luv w2 w2 \<and>
    (\<forall>n\<in>hook_names. w_names w2 L (str n) = w_names w L (str n))"
  using assms
proof (induction fhs arbitrary: w)
  case (Cons p fhs)
  obtain name fh where p: "p = (name, fh)" by fastforce
  let ?u = "LUser (w_nudata w)"
  obtain stdfh w1 where new: "new_object L LUV_PIPE_T w = (stdfh, w1)" by fastforce
  define w2 where "w2 = luvL_object_init s stdfh w1"
  define w3 where "w3 = w2\<lparr>w_ext := snd (sys_call sys (Uv_pipe_open stdfh fh) (snd (sys_call sys (Uv_pipe_init (st_loop (w_state w s)) stdfh False) (w_ext w2))))\<rparr>"
  define w4 where "w4 = lua_pop L 1 (add_field luv name ?u (set_registry L name ?u w3))"
  have same: "w_heap w3 = w_heap w" "w_names w3 = w_names w" "w_registry w3 = w_registry w"
    using new by (auto simp: w3_def w2_def luvL_object_init_def new_object_def new_udata_def Let_def)
  have "luvL_event_loop L w = Done (st_loop (w_state w s)) w" using Cons.prems(2) by (simp add: luvL_event_loop_def)
  then have run: "std_streams sys L luv (p # fhs) w = std_streams sys L luv fhs w4"
    using Cons.prems(2) new by (simp add: p w4_def w3_def w2_def uv_Done Let_def)
  have n: "name \<in> decoder_names" "name \<notin> hook_names" "name \<noteq> ''__name''" "name \<noteq> ''luv''"
    using Cons.prems(3) by (auto simp: p decoder_names_def hook_names_def)
  have "stage h L M C luv w3 w3" using stage_rebase [OF Cons.prems(1) same(1,2)] .
  then have "lib_ok h L M C (set_registry L name ?u w3)" "w_names w3 L (str ''luv'') = LTable luv" "''luv'' \<in> M"
    using lib_inv_decoder [of h M C "w_names w3 L" "w_heap w3" name ?u] n by (auto simp: stage_def set_registry_def)
  then have "stage h L M C luv (set_registry L name ?u w3) (set_registry L name ?u w3)"
    using n lib_frame_refl by (simp add: stage_def set_registry_def)
  from stage_field [OF this, of "''luv''" luv name ?u] stage_luv [OF this] n
  have "stage h L M C luv (set_registry L name ?u w3) (add_field luv name ?u (set_registry L name ?u w3))" by simp
  then have st: "stage h L M C luv w4 w4" by (rule stage_rebase) (simp_all add: w4_def lua_pop_def)
  have "luvL_state_self L w4 = Some s"
    using Cons.prems(2) same(3) by (simp add: w4_def luvL_state_self_def lua_pop_def add_field_def set_registry_def)
  from Cons.IH [OF st this] Cons.prems(3) obtain w5 where
    w5: "std_streams sys L luv fhs w4 = Done () w5" "stage h L M C luv w5 w5" "\<forall>n\<in>hook_names. w_names w5 L (str n) = w_names w4 L (str n)"
    by auto
  have "w_names w4 L (str m) = w_names w L (str m)" if "m \<in> hook_names" for m
    using that n same(2) by (auto simp: w4_def lua_pop_def add_field_def set_registry_def)
  with w5 run show ?case by simp
qed simp

lemma open_main_self:
  assumes "\<not> w_main w"
  shows "luvL_state_self L (open_main L w) = Some (w_nstate w)" "w_heap (open_main L w) = w_heap w"
    "w_names (open_main L w) = w_names w" "w_main (open_main L w) = w_main w"
  using assms by (simp_all add: open_main_def lua_pop_def luvL_thread_init_main_def luvL_state_self_def new_udata_def Let_def)

lemma lib_frame_sel:
  assumes "lib_frame G w w'"
  shows "w_main w' = w_main w" "w_registry w' = w_registry w" "w_state w' = w_state w" "w_stack w' = w_stack w" "w_nlua w' = w_nlua w"
    "w_nstate w' = w_nstate w" "w_udata w' = w_udata w" "w_ext w' = w_ext w" "G' \<noteq> G \<Longrightarrow> w_names w' G' = w_names w G'"
  using assms by (auto simp: lib_frame_def)

lemma lib_frame_stack:
  assumes "lib_frame L (lua_settop L 0 w) w'"
  shows "lib_frame L (upd_stack L (\<lambda>_. st) w) (upd_stack L (\<lambda>_. st) w')"
proof -
  obtain h nm where "w' = (lua_settop L 0 w)\<lparr>w_heap := h, w_names := (w_names w)(L := nm)\<rparr>"
    using assms by (auto simp: lib_frame_def)
  then show ?thesis
    unfolding lib_frame_def by (intro exI [of _ h] exI [of _ nm]) (simp add: lua_settop_def upd_stack_def)
qed

lemma stage_heap: "stage h L M C luv w w' \<Longrightarrow> heap_le {} h (w_heap w')"
  by (simp add: stage_def lib_inv_def)

text \<open>What a Lua state finds after \<open>luaopen_luv\<close>.\<close>

definition library :: "lid \<Rightarrow> lua_heap \<Rightarrow> 'x world \<Rightarrow> bool" where
  "library L h w \<longleftrightarrow> lib_ok h L luv_modules class_methods w \<and>
     is_cfun (w_heap w) (w_names w L (str ''luv:lib:decoder'')) ''luvL_lib_decoder'' \<and>
     is_cfun (w_heap w) (w_names w L (str ''luv:zmq:decoder'')) ''luvL_zmq_ctx_decoder''"

lemma open_first_mods:
  assumes nm: "w_names w L = (\<lambda>_. LNil)"
  shows "\<exists>h luv w1 w2. open_first L w = Done luv w1 \<and> open_mods coyield L luv (open_main L w1) = Done () w2 \<and>
    stage h L core_modules core_classes luv (open_main L w1) w2 \<and> heap_le {} (w_heap w) h \<and> w_main w1 = w_main w \<and>
    lib_frame L (lua_settop L 0 w) w1 \<and>
    is_cfun h (w_names w2 L (str ''luv:lib:decoder'')) ''luvL_lib_decoder'' \<and>
    is_cfun h (w_names w2 L (str ''luv:zmq:decoder'')) ''luvL_zmq_ctx_decoder''"
proof -
  obtain luv w0 w1 where 1: "open_first L w = Done luv w1" "stage (w_heap w0) L first_modules first_classes luv w0 w1"
    "heap_le {} (w_heap w) (w_heap w0)" "lib_frame L (lua_settop L 0 w) w0"
    and d: "is_cfun (w_heap w0) (w_names w0 L (str ''luv:lib:decoder'')) ''luvL_lib_decoder''"
      "is_cfun (w_heap w0) (w_names w0 L (str ''luv:zmq:decoder'')) ''luvL_zmq_ctx_decoder''"
    using open_first_ok [OF nm] by blast
  have fr: "lib_frame L (lua_settop L 0 w) w1" using 1(2,4) lib_frame_trans by (auto simp: stage_def)
  have eq: "w_heap (open_main L w1) = w_heap w1" "w_names (open_main L w1) = w_names w1"
    by (simp_all add: open_main_def lua_pop_def luvL_thread_init_main_def new_udata_def Let_def)
  from open_mods_ok [OF stage_rebase [OF 1(2) eq], of coyield] obtain w2 where
    w2: "open_mods coyield L luv (open_main L w1) = Done () w2" "stage (w_heap w0) L core_modules core_classes luv (open_main L w1) w2"
    by blast
  have "w_names w2 L (str n) = w_names w0 L (str n)" if "n \<in> hook_names" for n
    using that w2(2) 1(2) eq(2) by (auto simp: stage_def hook_names_def decoder_names_def)
  then show ?thesis using 1 w2 d fr lib_frame_sel(1) [OF fr] by (auto simp: hook_names_def)
qed

lemma library_end:
  assumes st: "stage h L core_modules core_classes luv w w" and d: "is_cfun h (w_names w L (str ''luv:lib:decoder'')) ''luvL_lib_decoder''"
    "is_cfun h (w_names w L (str ''luv:zmq:decoder'')) ''luvL_zmq_ctx_decoder''"
  shows "\<exists>w'. open_net L luv w = Done () w' \<and> library L h w' \<and> lib_frame L w w' \<and> w_names w' L (str ''luv'') = LTable luv"
proof -
  obtain w' where w': "open_net L luv w = Done () w'" "stage h L luv_modules class_methods luv w w'"
    using open_net_ok [OF st] by blast
  then show ?thesis
    using d is_cfun_le [OF _ stage_heap [OF w'(2)]] by (auto simp: library_def stage_def decoder_names_def)
qed

text \<open>A state that is not the first to open the module.\<close>

lemma luaopen_child:
  assumes main: "w_main w" and nm: "w_names w L = (\<lambda>_. LNil)"
  shows "\<exists>h luv w'. luaopen_luv sys coyield L w = Done 1 w' \<and> library L h w' \<and> heap_le {} (w_heap w) h \<and>
    lib_frame L (upd_stack L (\<lambda>_. [LTable luv]) w) w' \<and> w_names w' L (str ''luv'') = LTable luv"
proof -
  obtain h luv w1 w2 where 1: "open_first L w = Done luv w1" "open_mods coyield L luv (open_main L w1) = Done () w2"
    "stage h L core_modules core_classes luv (open_main L w1) w2" "heap_le {} (w_heap w) h" "w_main w1 = w_main w"
    "lib_frame L (lua_settop L 0 w) w1"
    and d: "is_cfun h (w_names w2 L (str ''luv:lib:decoder'')) ''luvL_lib_decoder''"
      "is_cfun h (w_names w2 L (str ''luv:zmq:decoder'')) ''luvL_zmq_ctx_decoder''"
    using open_first_mods [OF nm] by blast
  have om: "open_main L w1 = w1" using 1(5) main by (simp add: open_main_def)
  have fr2: "lib_frame L (lua_settop L 0 w) w2"
    using lib_frame_trans [OF 1(6)] 1(3) om by (simp add: stage_def)
  have std: "open_std sys L luv w2 = Done () w2" using lib_frame_sel(1) [OF fr2] main by (simp add: open_std_def)
  have "stage h L core_modules core_classes luv w2 w2" by (rule stage_rebase [OF 1(3)]) simp_all
  from library_end [OF this d] obtain w3 where w3: "open_net L luv w2 = Done () w3" "library L h w3" "lib_frame L w2 w3"
    "w_names w3 L (str ''luv'') = LTable luv" by blast
  let ?w = "upd_stack L (\<lambda>_. [LTable luv]) w3"
  have "luaopen_luv sys coyield L w = Done 1 ?w" using 1(1,2) std w3(1) om by (simp add: luaopen_luv_def)
  moreover have "lib_frame L (upd_stack L (\<lambda>_. [LTable luv]) w) ?w"
    using lib_frame_trans [OF fr2 w3(3)] by (rule lib_frame_stack)
  ultimately show ?thesis using w3(2,4) 1(4) by (auto simp: library_def)
qed

lemma luaopen_main:
  assumes main: "\<not> w_main w" and nm: "w_names w L = (\<lambda>_. LNil)"
  shows "\<exists>h luv w'. luaopen_luv sys coyield L w = Done 1 w' \<and> library L h w' \<and> heap_le {} (w_heap w) h \<and>
    w_stack w' L = [LTable luv] \<and> w_names w' L (str ''luv'') = LTable luv"
proof -
  obtain h luv w1 w2 where 1: "open_first L w = Done luv w1" "open_mods coyield L luv (open_main L w1) = Done () w2"
    "stage h L core_modules core_classes luv (open_main L w1) w2" "heap_le {} (w_heap w) h" "w_main w1 = w_main w"
    and d: "is_cfun h (w_names w2 L (str ''luv:lib:decoder'')) ''luvL_lib_decoder''"
      "is_cfun h (w_names w2 L (str ''luv:zmq:decoder'')) ''luvL_zmq_ctx_decoder''"
    using open_first_mods [OF nm] by blast
  have m1: "\<not> w_main w1" using 1(5) main by simp
  have fr: "lib_frame L (open_main L w1) w2" using 1(3) by (simp add: stage_def)
  let ?w2 = "w2\<lparr>w_main := True\<rparr>"
  have self: "luvL_state_self L ?w2 = Some (w_nstate w1)" and m2: "\<not> w_main w2"
    using open_main_self [OF m1, of L] m1 by (simp_all add: luvL_state_self_def lib_frame_sel [OF fr])
  have "stage h L core_modules core_classes luv ?w2 ?w2" by (rule stage_rebase [OF 1(3)]) simp_all
  from std_streams_ok [OF this self, of "[(''stdin'', 0), (''stdout'', 1), (''stderr'', 2)]" sys] obtain w3 where
    w3: "open_std sys L luv w2 = Done () w3" "stage h L core_modules core_classes luv w3 w3"
      "\<forall>n\<in>hook_names. w_names w3 L (str n) = w_names w2 L (str n)"
    using m2 by (auto simp: open_std_def)
  from library_end [OF w3(2)] d w3(3) obtain w4 where w4: "open_net L luv w3 = Done () w4" "library L h w4"
    "w_names w4 L (str ''luv'') = LTable luv" by (auto simp: hook_names_def)
  have "luaopen_luv sys coyield L w = Done 1 (upd_stack L (\<lambda>_. [LTable luv]) w4)"
    using 1(1,2) w3(1) w4(1) by (simp add: luaopen_luv_def)
  with w4(2,3) 1(4) show ?thesis by (auto simp: library_def)
qed




section \<open>Sending a module\<close>

text \<open>
  The environment of the codec in a Lua state \<open>G\<close> of the world \<open>w\<close>: its registry is the one of the
  state, and a hook of \<open>src/src/luv.c\<close> is run on a new stack with its argument; every other function
  is run by \<open>env\<close>.
\<close>

definition hook_call :: "(lid \<Rightarrow> ('x, int) luv) \<Rightarrow> 'x world \<Rightarrow> lua_value \<Rightarrow> lua_heap \<Rightarrow> (lua_value, lua_value list, lua_heap) res" where
  "hook_call fn w v h =
     (let L = w_nlua w
      in case fn L ((upd_stack L (\<lambda>_. [v]) w)\<lparr>w_heap := h\<rparr>) of
           Done k w \<Rightarrow> Done (drop (lua_gettop L w - nat k) (w_stack w L)) (w_heap w)
         | Raise e w \<Rightarrow> Raise e (w_heap w)
         | Fail x \<Rightarrow> Fail x)"

definition lib_env :: "'x sys \<Rightarrow> lua_env \<Rightarrow> lid \<Rightarrow> 'x world \<Rightarrow> lua_env" where
  "lib_env sys env G w = env\<lparr>env_registry := w_names w G, env_call := (\<lambda>f v h. case f of
       LFun n \<Rightarrow> if h_fun h n = cfun ''luvL_lib_encoder'' then hook_call luvL_lib_encoder w v h
                 else if h_fun h n = cfun ''luvL_lib_decoder'' then hook_call (luvL_lib_decoder G sys) w v h
                 else env_call env f v h
     | _ \<Rightarrow> env_call env f v h)\<rparr>"

lemma c_string_str: "CHR 0x00 \<notin> set s \<Longrightarrow> c_string (str s) = str s"
proof -
  have "(word_of_nat (of_char c) :: u8) = 0 \<longleftrightarrow> c = CHR 0x00" for c
    using str_inj [of "[c]" "[CHR 0x00]"] by (simp add: str_def)
  then show "CHR 0x00 \<notin> set s \<Longrightarrow> c_string (str s) = str s"
    unfolding c_string_def str_def by (induction s) auto
qed

lemma encoder_call:
  assumes "fld h t ''__name'' = LStr (str n)"
  shows "hook_call luvL_lib_encoder w (LTable t) h = Done [LStr (str ''luv:lib:decoder''), LStr (str n)] h"
  using assms
  by (simp add: hook_call_def luvL_lib_encoder_def lua_getfield_def lua_arg_def lua_gettop_def lua_pushstring_def c_string_str
      lua_top_def Let_def flip: fld_def)

lemma decoder_call:
  assumes "w_names w G (str n) = LTable t" "CHR 0x00 \<notin> set n"
  shows "hook_call (luvL_lib_decoder G sys) w (LStr (str n)) h = Done [LTable t] h"
  using assms
  by (simp add: hook_call_def luvL_lib_decoder_def lua_top_def lua_arg_def lua_gettop_def c_text_def lua_text_def c_string_str Let_def)

text \<open>C32: A module sent to another Lua state arrives as the module of that state: after \<open>luaopen_luv\<close> in both,
  \<open>codec.encode\<close> of the table of a module returns one string, and \<open>codec.decode\<close> of it in the other
  state returns the table registered there under the same name, without changing anything on either
  heap.  So a function sent to a thread can use the modules it refers to.\<close>

theorem module_roundtrip:
  assumes nm: "w_names w1 L1 = (\<lambda>_. LNil)" "w_names w2 L2 = (\<lambda>_. LNil)" and n: "n \<in> luv_modules"
  shows "\<exists>v1 v2 t1 t2 data. luaopen_luv sys coyield L1 w1 = Done 1 v1 \<and> luaopen_luv sys coyield L2 w2 = Done 1 v2 \<and>
    w_names v1 L1 (str n) = LTable t1 \<and> w_names v2 L2 (str n) = LTable t2 \<and>
    (\<forall>k \<ge> 2. luv_codec_encode (lib_env sys env L1 v1) k [LTable t1] (w_heap v1) = Done (1, [LTable t1, LStr data]) (w_heap v1)) \<and>
    (\<forall>k \<ge> 2. luv_codec_decode (lib_env sys env L2 v2) k [LStr data] (w_heap v2) = Done (1, [LStr data, LTable t2]) (w_heap v2))"
proof -
  have lib: "\<exists>h w'. luaopen_luv sys coyield L w = Done 1 w' \<and> library L h w'" if "w_names w L = (\<lambda>_. LNil)" for w :: "'a world" and L
    using luaopen_main [OF _ that, of sys coyield] luaopen_child [OF _ that, of sys coyield] by (cases "w_main w") blast+
  obtain h1 v1 h2 v2 where v: "luaopen_luv sys coyield L1 w1 = Done 1 v1" "library L1 h1 v1"
    "luaopen_luv sys coyield L2 w2 = Done 1 v2" "library L2 h2 v2"
    using lib [OF nm(1)] lib [OF nm(2)] by blast
  obtain t1 where t1: "w_names v1 L1 (str n) = LTable t1" "is_cfun (w_heap v1) (t_codec (h_table (w_heap v1) t1)) ''luvL_lib_encoder''"
    "fld (w_heap v1) t1 ''__name'' = LStr (str n)"
    using v(2) n by (auto simp: library_def lib_inv_def module_ok_def)
  obtain t2 where t2: "w_names v2 L2 (str n) = LTable t2" using v(4) n by (auto simp: library_def lib_inv_def module_ok_def)
  obtain f where f: "w_names v2 L2 (str ''luv:lib:decoder'') = LFun f" "h_fun (w_heap v2) f = cfun ''luvL_lib_decoder''"
    using v(4) by (auto simp: library_def is_cfun_def)
  have cn: "CHR 0x00 \<notin> set n" "length (str n) < 2 ^ 32" using n by (auto simp: luv_modules_def core_modules_def first_modules_def str_def)
  have "env_call (lib_env sys env L1 v1) (t_codec (h_table (w_heap v1) t1)) (LTable t1) (w_heap v1)
      = Done [LStr (str ''luv:lib:decoder''), LStr (str n)] (w_heap v1)"
    using t1(2) encoder_call [OF t1(3)] by (auto simp: is_cfun_def lib_env_def)
  moreover have "env_call (lib_env sys env L2 v2) (LFun f) (LStr (str n)) (w_heap v2) = Done [LTable t2] (w_heap v2)"
    using f(2) decoder_call [OF t2 cn(1)] by (simp add: lib_env_def cfun_def)
  moreover have "t_codec (h_table (w_heap v1) t1) \<noteq> LNil" "env_registry (lib_env sys env L2 v2) (str ''luv:lib:decoder'') = LFun f"
    using t1(2) f(1) by (auto simp: is_cfun_def lib_env_def)
  moreover have "length (str ''luv:lib:decoder'') < 2 ^ 32" by (simp add: str_def)
  ultimately obtain data where
    "\<forall>k \<ge> 2. luv_codec_encode (lib_env sys env L1 v1) k [LTable t1] (w_heap v1) = Done (1, [LTable t1, LStr data]) (w_heap v1)"
    "\<forall>k \<ge> 2. luv_codec_decode (lib_env sys env L2 v2) k [LStr data] (w_heap v2) = Done (1, [LStr data, LTable t2]) (w_heap v2)"
    using codec_hook_roundtrip cn(2) by metis
  with v t1(1) t2 show ?thesis by blast
qed

theorem module_roundtrip_witness:
  "\<exists>v1 v2 t1 t2 data. luaopen_luv plain_sys LNil 0 (empty_world ()) = Done 1 v1 \<and> luaopen_luv plain_sys LNil 1 (empty_world ()) = Done 1 v2 \<and>
    w_names v2 1 (str ''luv_fiber'') = LTable t2 \<and>
    luv_codec_encode (lib_env plain_sys demo_env 0 v1) 2 [LTable t1] (w_heap v1) = Done (1, [LTable t1, LStr data]) (w_heap v1) \<and>
    luv_codec_decode (lib_env plain_sys demo_env 1 v2) 2 [LStr data] (w_heap v2) = Done (1, [LStr data, LTable t2]) (w_heap v2)"
proof -
  have "w_names (empty_world ()) 0 = (\<lambda>_. LNil)" "w_names (empty_world ()) 1 = (\<lambda>_. LNil)" by (simp_all add: empty_world_def)
  moreover have "''luv_fiber'' \<in> luv_modules" by (simp add: luv_modules_def core_modules_def)
  ultimately show ?thesis using module_roundtrip [of "empty_world ()" 0 "empty_world ()" 1 "''luv_fiber''" plain_sys LNil demo_env] by blast
qed

end
