(* ===== verification/Thread_Props.thy ===== *)
theory Thread_Props
  imports Module_Props
begin

text \<open>
  Threads: the function and the arguments reach the new Lua state as a copy, the results come back as a
  copy, and an error in a thread ends the process.
\<close>

section \<open>Starting a thread\<close>

text \<open>The round trip of the codec with one amount of fuel for both directions.\<close>

lemma sent_copy:
  assumes "heap_ok env R h0" "objlen_law env" "\<forall>v\<in>set vs. value_ok R v" "length vs < 2 ^ 31" "n > enc_cost R h0 []"
  obtains data h1 where "heap_le {} h0 h1"
    "\<And>pre. luvL_codec_encode env n (length vs) (pre @ vs) h0 = Done (1, take (length pre + 1) (pre @ vs @ [LNil]) @ [LStr data]) h1"
    "\<And>g. \<exists>ws h2. codec_copy h0 g h2 vs ws \<and> luvL_codec_decode env n [LStr data] g = Done (int (length vs), LStr data # ws) h2"
  using codec_top_roundtrip [OF assms(1-4)] assms(5) by metis

text \<open>The world after the new state is allocated, with the userdata of the thread below the arguments.\<close>

definition allocated :: "'x sys \<Rightarrow> lid \<Rightarrow> sid \<Rightarrow> 'x world \<Rightarrow> 'x world" where
  "allocated sys L ow w =
     (let (u, w1) = new_udata LUV_THREAD_T (PState (w_nstate w)) (w\<lparr>w_nstate := Suc (w_nstate w)\<rparr>);
          w2 = (upd_stack L (\<lambda>st. u # st) w1)\<lparr>w_ext := snd (sys_call sys Uv_loop_new (w_ext w))\<rparr>;
          L1 = w_nlua w;
          w3 = w2\<lparr>w_nlua := Suc L1, w_stack := (w_stack w2)(L1 := []), w_yield := (w_yield w2)(L1 := None),
            w_names := (w_names w2)(L1 := (\<lambda>_. LNil)), w_registry := (w_registry w2)(L1 := None)\<rparr>
      in upd_queue (ngx_queue_init (SRouse (w_nstate w)))
           (upd_state (w_nstate w) (\<lambda>_. (new_thread_state ow L1 (nat (fst (sys_call sys Uv_loop_new (w_ext w)))))\<lparr>st_curr := w_nstate w\<rparr>) w3))"

lemma allocated_sel:
  assumes "L \<noteq> w_nlua w"
  shows "w_heap (allocated sys L ow w) = w_heap w" "w_main (allocated sys L ow w) = w_main w"
    "w_names (allocated sys L ow w) (w_nlua w) = (\<lambda>_. LNil)" "w_stack (allocated sys L ow w) L = LUser (w_nudata w) # w_stack w L"
    "w_stack (allocated sys L ow w) (w_nlua w) = []" "st_L (w_state (allocated sys L ow w) (w_nstate w)) = w_nlua w"
    "w_udata (allocated sys L ow w) (w_nudata w) = Some \<lparr>u_meta = LUV_THREAD_T, u_ptr = PState (w_nstate w)\<rparr>"
  using assms by (simp_all add: allocated_def new_udata_def new_thread_state_def Let_def)

lemma thread_create_eq:
  assumes self: "luvL_state_self L w = Some ow" "st_L (w_state w ow) = L" and L: "L < w_nlua w" and o: "ow < w_nstate w"
    and main: "w_main w" and hok: "heap_ok env R (w_heap w)" "objlen_law env"
    and vs: "w_stack w L = vs" "\<forall>v\<in>set vs. value_ok R v" "length vs < 2 ^ 31" "vs \<noteq> []"
    and n: "n > enc_cost R (w_heap w) []"
  shows "\<exists>w1 h data. luv_new_thread (\<lambda>_ _. env) n sys coyield L w = Done 1 w1 \<and>
    w_stack w1 L = [LUser (w_nudata w)] \<and> w_udata w1 (w_nudata w) = Some \<lparr>u_meta = LUV_THREAD_T, u_ptr = PState (w_nstate w)\<rparr> \<and>
    st_L (w_state w1 (w_nstate w)) = w_nlua w \<and> w_stack w1 (w_nlua w) = [LStr data] \<and> w_registry w1 (w_nlua w) = Some (w_nstate w) \<and>
    heap_le {} (w_heap w) h \<and> heap_le {} (w_heap w) (w_heap w1) \<and>
    (\<forall>g. \<exists>ws h2. codec_copy h g h2 vs ws \<and> luvL_codec_decode env n [LStr data] g = Done (int (length vs), LStr data # ws) h2)"
proof -
  let ?L1 = "w_nlua w" and ?self = "w_nstate w"
  define v where "v = allocated sys L ow w"
  have ne: "L \<noteq> ?L1" using L by simp
  note vsel = allocated_sel [OF ne, of sys ow, folded v_def]
  obtain h0 luv v1 where v1: "luaopen_luv sys coyield ?L1 v = Done 1 v1" "heap_le {} (w_heap w) h0" "library ?L1 h0 v1"
    "lib_frame ?L1 (upd_stack ?L1 (\<lambda>_. [LTable luv]) v) v1"
    using luaopen_child [of v ?L1 sys coyield] vsel main by auto
  note fr = lib_frame_sel [OF v1(4)]
  have le1: "heap_le {} (w_heap w) (w_heap v1)"
    using v1(2,3) heap_le_trans [of "{}" "w_heap w" h0 "{}"] by (simp add: library_def lib_inv_def)
  have n1: "n > enc_cost R (w_heap v1) []" using n enc_cost_le [OF hok(1) le1] by simp
  obtain data h1 where e: "heap_le {} (w_heap v1) h1"
    "\<And>pre. luvL_codec_encode env n (length vs) (pre @ vs) (w_heap v1) = Done (1, take (length pre + 1) (pre @ vs @ [LNil]) @ [LStr data]) h1"
    "\<And>g. \<exists>ws h2. codec_copy (w_heap v1) g h2 vs ws \<and> luvL_codec_decode env n [LStr data] g = Done (int (length vs), LStr data # ws) h2"
    by (rule sent_copy [OF heap_ok_le [OF hok(1) le1] hok(2) vs(2,3) n1]) (rule that)
  let ?v2 = "lua_settop ?L1 0 v1"
  have st: "w_stack ?v2 L = LUser (w_nudata w) # vs" "w_stack ?v2 ?L1 = []" using vsel ne vs(1) fr(4) by simp_all
  let ?v3 = "upd_stack L (\<lambda>_. [LUser (w_nudata w), hd vs, LStr data]) (?v2\<lparr>w_heap := h1\<rparr>)"
  have enc: "encode_top env n L (length vs) ?v2 = Done () ?v3"
    using e(2) [of "[LUser (w_nudata w)]"] vs(4) unfolding encode_top_def st(1) by (cases vs) simp_all
  let ?v4 = "lua_xmove L ?L1 1 ?v3"
  let ?w1 = "lua_settop L 1 (?v4\<lparr>w_registry := (w_registry ?v4)(?L1 \<mapsto> ?self), w_ext := snd (sys_call sys (Uv_thread_create ?self) (w_ext ?v4))\<rparr>)"
  have ty: "luaL_checktype L (lua_gettop L ?v3) LUA_TSTRING nm ?v3 = Done () ?v3" for nm
    by (simp add: luaL_checktype_def lua_arg_def lua_gettop_def)
  have "luvL_thread_create (\<lambda>_ _. env) n sys coyield ow (length vs) w = Done ?self ?w1"
    using self(2) v1(1) enc ty vs(1)
    by (simp add: luvL_thread_create_def uv_Done unprotected_def lua_gettop_def v_def allocated_def new_udata_def Let_def)
  then have run: "luv_new_thread (\<lambda>_ _. env) n sys coyield L w = Done 1 ?w1"
    using self(1) vs(1) by (simp add: luv_new_thread_def lua_gettop_def)
  have "w_stack ?w1 L = [LUser (w_nudata w)]" "w_stack ?w1 ?L1 = [LStr data]" "w_registry ?w1 ?L1 = Some ?self"
    using ne st(2) by (simp_all add: lua_xmove_def adjust_def Let_def)
  moreover have "st_L (w_state ?w1 ?self) = ?L1" "w_udata ?w1 (w_nudata w) = Some \<lparr>u_meta = LUV_THREAD_T, u_ptr = PState ?self\<rparr>"
    using vsel fr by (simp_all add: lua_xmove_def Let_def)
  moreover have "w_heap ?w1 = h1" by (simp add: lua_xmove_def Let_def)
  moreover have "heap_le {} (w_heap w) h1" using heap_le_trans [OF le1 e(1)] by simp
  ultimately show ?thesis using run e(3) le1 by metis
qed


section \<open>The body of a thread\<close>

lemma copy_type:
  assumes "codec_copy h0 g h vs ws"
  shows "map lua_type ws = map lua_type vs"
proof -
  obtain sn ds where c: "distinct sn" "distinct ds" "list_all2 (\<lambda>a b. content h0 sn ds h a b \<and> fresh g b) sn ds" "ws = map (transl sn ds) vs"
    using assms by (auto simp: codec_copy_def)
  have "same_kind h a b" if "content h0 sn ds h a b" for a b using that by (cases a; cases b) simp_all
  then have "seen_match h sn ds" using c(1-3) by (auto simp: seen_match_def elim: list_all2_mono)
  then show ?thesis using c(4) by (simp add: transl_type)
qed

lemma copy_length: "codec_copy h0 g h vs ws \<Longrightarrow> length ws = length vs"
  using copy_type [of h0 g h vs ws] map_eq_imp_length_eq by blast

text \<open>What a thread finds on its stack when it starts: the traceback handler below the function and its arguments.\<close>

lemma enter_call_eq:
  assumes L: "st_L (w_state w self) = L1" and st: "w_stack w L1 = [LStr data]"
    and d: "luvL_codec_decode env n [LStr data] (w_heap w) = Done (k, LStr data # a # ws) h"
  shows "enter_call (\<lambda>_ _. env) n self w =
    (if lua_type a = LUA_TFUNCTION
     then Done (length ws) (upd_stack L1 (\<lambda>_. LFun (h_fnext h) # a # ws) (w\<lparr>w_heap := snd (new_cfunction ''luvL_traceback'' h)\<rparr>))
     else Fail Lua_Panic)"
proof -
  have "decode_bottom env n L1 w = Done k (upd_stack L1 (\<lambda>_. LStr data # a # ws) (w\<lparr>w_heap := h\<rparr>))"
    using st d by (simp add: decode_bottom_def)
  then show ?thesis using L
    by (simp add: enter_call_def unprotected_def luaL_checktype_def lua_arg_def lua_gettop_def new_cfunction_def Let_def)
qed


text \<open>C40: An error in a thread ends the whole process.  \<open>thread.spawn\<close> accepts any plain first argument; if it
  is not a function, or if the function ends with an error, the thread raises a Lua error that no
  protected call catches.\<close>

theorem thread_error_panics:
  assumes "luvL_state_self L w = Some ow" "st_L (w_state w ow) = L" "L < w_nlua w" "ow < w_nstate w"
    and "w_main w" "heap_ok env R (w_heap w)" "objlen_law env"
    and "w_stack w L = vs" "\<forall>v\<in>set vs. value_ok R v" "length vs < 2 ^ 31" "vs \<noteq> []"
    and "n > enc_cost R (w_heap w) []"
    and "lua_type (vs ! 0) \<noteq> LUA_TFUNCTION \<or> (\<forall>k v. \<exists>v'. pcall (w_nlua w) k v = Done True v')"
  shows "\<exists>w1. luv_new_thread (\<lambda>_ _. env) n sys coyield L w = Done 1 w1 \<and>
    thread_enter (\<lambda>_ _. env) n pcall (w_nstate w) w1 = Fail Lua_Panic"
proof -
  obtain w1 h data where w1: "luv_new_thread (\<lambda>_ _. env) n sys coyield L w = Done 1 w1"
    "st_L (w_state w1 (w_nstate w)) = w_nlua w" "w_stack w1 (w_nlua w) = [LStr data]"
    "\<forall>g. \<exists>ws h2. codec_copy h g h2 vs ws \<and> luvL_codec_decode env n [LStr data] g = Done (int (length vs), LStr data # ws) h2"
    using thread_create_eq [OF assms(1-12)] by blast
  obtain ws g where ws: "codec_copy h (w_heap w1) g vs ws"
    "luvL_codec_decode env n [LStr data] (w_heap w1) = Done (int (length vs), LStr data # ws) g" using w1(4) by blast
  obtain a bs where a: "ws = a # bs" using copy_length [OF ws(1)] assms(11) by (cases ws) auto
  have ty: "lua_type a = lua_type (vs ! 0)" using copy_type [OF ws(1)] a assms(11) by (cases vs) auto
  have "thread_enter (\<lambda>_ _. env) n pcall (w_nstate w) w1 = Fail Lua_Panic"
  proof (cases "lua_type a = LUA_TFUNCTION")
    case True
    let ?w2 = "upd_stack (w_nlua w) (\<lambda>_. LFun (h_fnext g) # a # bs) (w1\<lparr>w_heap := snd (new_cfunction ''luvL_traceback'' g)\<rparr>)"
    have "enter_call (\<lambda>_ _. env) n (w_nstate w) w1 = Done (length bs) ?w2"
      using enter_call_eq [OF w1(2,3)] ws(2) a True by simp
    moreover obtain w3 where "pcall (w_nlua w) (length bs) ?w2 = Done True w3" using assms(13) ty True by metis
    moreover have "st_L (w_state ?w2 (w_nstate w)) = w_nlua w" using w1(2) by simp
    ultimately show ?thesis by (simp add: thread_enter_def enter_return_def luvL_thread_ready_def Let_def)
  next
    case False
    then show ?thesis using enter_call_eq [OF w1(2,3)] ws(2) a by (simp add: thread_enter_def)
  qed
  with w1(1) show ?thesis by blast
qed

section \<open>The results of a thread\<close>


section \<open>A thread that can run\<close>

definition thread_world :: "lua_value list \<Rightarrow> unit world" where
  "thread_world vs = (empty_world ())\<lparr>w_main := True, w_heap := demo_heap, w_nstate := 1, w_registry := [0 \<mapsto> 0], w_stack := (\<lambda>_. vs)\<rparr>"

lemma thread_world_sel [simp]:
  "luvL_state_self 0 (thread_world vs) = Some 0" "st_L (w_state (thread_world vs) s) = 0" "w_nlua (thread_world vs) = 1"
  "w_nstate (thread_world vs) = 1" "w_main (thread_world vs)" "w_heap (thread_world vs) = demo_heap" "w_stack (thread_world vs) L = vs"
  "w_nudata (thread_world vs) = 0"
  by (simp_all add: thread_world_def empty_world_def luvL_state_self_def)


theorem thread_error_panics_witness:
  "\<exists>w1. luv_new_thread (\<lambda>_ _. demo_env) 10 plain_sys LNil 0 (thread_world [LTable 0]) = Done 1 w1 \<and>
    thread_enter (\<lambda>_ _. demo_env) 10 (\<lambda>_ _ w. Done False w) 1 w1 = Fail Lua_Panic"
proof -
  have "\<forall>v\<in>set [LTable 0]. value_ok demo_objects v" "lua_type (LTable 0) \<noteq> LUA_TFUNCTION" by (simp_all add: demo_objects_def lua_tag_defs)
  then show ?thesis
    using thread_error_panics [of 0 "thread_world [LTable 0]" 0 demo_env demo_objects "[LTable 0]" 10 "\<lambda>_ _ w. Done False w" plain_sys LNil] demo_ok demo_cost
    by simp
qed


end
