(* ===== verification/Cond_Equiv.thy ===== *)
theory Cond_Equiv
  imports Luv_Cond
begin

text \<open>
  \<open>luvL_cond_broadcast\<close> against its reference definition: \<open>luvL_cond_signal\<close> as often as there is a
  state to wake.  The two functions of \<open>src/src/luv_cond.c\<close> have the body of the loop in common, and
  the equivalence holds in every world, whatever the links and flags are.
\<close>

section \<open>A sequence of signals\<close>

text \<open>\<open>signals k\<close> calls \<open>luvL_cond_signal\<close> \<open>k\<close> times and adds up the results.\<close>

fun signals :: "nat \<Rightarrow> qnode \<Rightarrow> ('x, int) luv" where
  "signals 0 c w = Done 0 w"
| "signals (Suc k) c w = bindR (luvL_cond_signal c w) (\<lambda>r w. bindR (signals k c w) (\<lambda>s w. Done (r + s) w))"

lemma cond_signal_result: "luvL_cond_signal c w = Done r v \<Longrightarrow> r = of_bool (\<not> is_empty c w) \<and> (is_empty c w \<longrightarrow> v = w)"
  by (auto simp: luvL_cond_signal_def res_simps split: if_splits)

lemma signals_le: "signals k c w = Done s v \<Longrightarrow> s \<le> int k"
proof (induction k arbitrary: w s)
  case (Suc k)
  then obtain r u t where r: "luvL_cond_signal c w = Done r u" and t: "signals k c u = Done t v" and s: "s = r + t"
    by (auto simp: res_simps)
  have "r \<le> 1" using cond_signal_result [OF r] by simp
  with Suc.IH [OF t] s show ?case by simp
qed simp

lemma signals_snoc:
  "signals (Suc k) c w = bindR (signals k c w) (\<lambda>s w. bindR (luvL_cond_signal c w) (\<lambda>r w. Done (s + r) w))"
proof (induction k arbitrary: w)
  case (Suc k)
  have "signals (Suc (Suc k)) c w = bindR (luvL_cond_signal c w) (\<lambda>r w. bindR (signals (Suc k) c w) (\<lambda>s w. Done (r + s) w))"
    by (rule signals.simps)
  also have "\<dots> = bindR (luvL_cond_signal c w) (\<lambda>r w. bindR (signals k c w) (\<lambda>s w. bindR (luvL_cond_signal c w) (\<lambda>r' w. Done (r + s + r') w)))"
    by (simp only: Suc.IH bindR_assoc) (simp add: add.assoc)
  finally show ?case by (simp add: bindR_assoc)
qed (simp add: bindR_unit)

section \<open>The loop of a broadcast\<close>

abbreviation wake_loop :: "qnode \<Rightarrow> int \<times> 'x world \<Rightarrow> (lua_value, unit, int \<times> 'x world) res" where
  "wake_loop c \<equiv> whileR (\<lambda>(_, w). \<not> is_empty c w) (broadcast_round c)"

lemma wake_loop_of_signals:
  "signals k c w = Done (int k) v \<Longrightarrow> is_empty c v \<Longrightarrow> wake_loop c (m, w) = Done () (m + int k, v)"
proof (induction k arbitrary: w m)
  case (Suc k)
  then obtain r u t where r: "luvL_cond_signal c w = Done r u" and t: "signals k c u = Done t v" and s: "r + t = int (Suc k)"
    by (auto simp: res_simps)
  have "r \<le> 1" "t \<le> int k" using cond_signal_result [OF r] signals_le [OF t] by simp_all
  with s have rt: "r = 1" "t = int k" by linarith+
  then have ne: "\<not> is_empty c w" using cond_signal_result [OF r] by simp
  then have "cond_rouse c w = Done () u" using r by (auto simp: luvL_cond_signal_def res_simps)
  then have "wake_loop c (m, w) = wake_loop c (m + 1, u)" using ne by (subst whileR_unfold) (simp add: broadcast_round_def)
  with Suc.IH [of u "m + 1"] t rt Suc.prems(2) show ?case by simp
qed (simp add: whileR_simps)

lemma signals_of_wake_loop:
  assumes "wake_loop c (0, w) = Done () (n, v)"
  shows "\<exists>k. n = int k \<and> signals k c w = Done (int k) v \<and> is_empty c v"
proof -
  let ?I = "\<lambda>(n, v). \<exists>k. n = int k \<and> signals k c w = Done (int k) v"
  let ?c = "\<lambda>s. if case s of (_, w) \<Rightarrow> \<not> is_empty c w then bindR (broadcast_round c s) (\<lambda>_ s. Done True s) else Done False s"
  have step: "?I s'" if I: "?I s" and run: "?c s = Done True s'" for s s'
  proof -
    obtain n1 w1 where s: "s = (n1, w1)" by (cases s)
    with I obtain k where k: "n1 = int k" "signals k c w = Done (int k) w1" by auto
    from run s obtain u where u: "\<not> is_empty c w1" "cond_rouse c w1 = Done () u" "s' = (n1 + 1, u)"
      by (auto simp: broadcast_round_def res_simps split: if_splits res.splits)
    then have "luvL_cond_signal c w1 = Done 1 u" by (simp add: luvL_cond_signal_def)
    then have "signals (Suc k) c w = Done (int (Suc k)) u" using k(2) by (subst signals_snoc) simp
    with u(3) k(1) show ?thesis by (auto intro: exI [of _ "Suc k"])
  qed
  have "loopR ?c (0, w) = Done () (n, v)" using assms by (simp add: whileR_def)
  then have "(\<lambda>s. ?I s \<and> is_empty c (snd s)) (n, v)"
  proof (rule loopR_Done_induct [where I = ?I])
    show "?I (0, w)" by (auto intro: exI [of _ 0])
  next
    fix s s' assume "?I s" "?c s = Done True s'"
    then show "?I s'" by (rule step)
  next
    fix s s' assume "?I s" "?c s = Done False s'"
    then show "?I s' \<and> is_empty c (snd s')" by (cases s) (auto simp: res_simps split: if_splits)
  qed
  then show ?thesis by auto
qed

text \<open>C36: \<open>luvL_cond_broadcast\<close> is \<open>luvL_cond_signal\<close> repeated until nobody waits.  In every world, a broadcast
  returns \<open>n\<close> and leaves \<open>w'\<close> exactly when \<open>n\<close> signals in a row each wake a state, leave \<open>w'\<close>, and one
  more signal there returns 0 and changes nothing.\<close>

theorem cond_broadcast_is_signals:
  "luvL_cond_broadcast c w = Done n w' \<longleftrightarrow>
     (\<exists>k. n = int k \<and> signals k c w = Done (int k) w' \<and> luvL_cond_signal c w' = Done 0 w')"
proof -
  have sig0: "luvL_cond_signal c w' = Done 0 w' \<longleftrightarrow> is_empty c w'"
    using cond_signal_result [of c w' 0 w'] by (auto simp: luvL_cond_signal_def)
  have "luvL_cond_broadcast c w = Done n w' \<longleftrightarrow> wake_loop c (0, w) = Done () (n, w')"
    by (auto simp: luvL_cond_broadcast_def split: res.splits)
  also have "\<dots> \<longleftrightarrow> (\<exists>k. n = int k \<and> signals k c w = Done (int k) w' \<and> is_empty c w')"
  proof
    assume "\<exists>k. n = int k \<and> signals k c w = Done (int k) w' \<and> is_empty c w'"
    then obtain k where "n = int k" "signals k c w = Done (int k) w'" "is_empty c w'" by blast
    then show "wake_loop c (0, w) = Done () (n, w')" using wake_loop_of_signals [of k c w w' 0] by simp
  qed (rule signals_of_wake_loop)
  finally show ?thesis by (simp add: sig0)
qed

end
