(* ===== verification/Zmq_Props.thy ===== *)
theory Zmq_Props
  imports Handle_Demo
begin

text \<open>
  ZeroMQ sockets: the callback of the poll handle gives the message to the state that has waited
  longest in \<open>recv\<close>, and what the shared flag word does to the others.
\<close>

section \<open>Receiving\<close>

lemma oflag_clear: "\<not> has_oflag LUV_ZMQ_WRECV ob (clear_oflag LUV_ZMQ_WRECV ob w)"
  "has_oflag LUV_ZMQ_WSEND ob (clear_oflag LUV_ZMQ_WRECV ob w) = has_oflag LUV_ZMQ_WSEND ob w"
  by (simp_all add: has_oflag_def clear_oflag_def LUV_ZMQ_WRECV_def LUV_ZMQ_WSEND_def has_flag_clear)

text \<open>A message that is there is left alone on the stack of the state.\<close>

lemma zmq_recv_eq:
  assumes "sys_call sys Zmq_msg_init (w_ext w) = (r0, x1)" "sys_call sys (Zmq_msg_recv (o_socket ob w)) x1 = (rv, x2)" "0 \<le> rv"
  shows "luvL_zmq_socket_recv sys ob s w =
    Done rv ((hand [LStr (sys_zmq_message sys x2)] [s] w)\<lparr>w_ext := snd (sys_call sys Zmq_msg_close x2)\<rparr>)"
  using assms
  by (auto simp: luvL_zmq_socket_recv_def uv_Done lua_push_defs lua_push_def lua_settop_def upd_stack_def hand_def Let_def fun_eq_iff
      intro!: world.equality)

lemma poll_recv_steps:
  assumes inv: "sched_inv w a" and ob: "ob < w_nobject w" and s: "a_wait a (ORouse ob) = s # ss" and rd: "0 < rd"
    and x: "sys_call sys Zmq_msg_init (w_ext w) = (r0, x1)" "sys_call sys (Zmq_msg_recv (o_socket ob w)) x1 = (rv, x2)" "0 \<le> rv"
  shows "\<exists>w0 w'. poll_recv sys ob rd w = Done () w' \<and> api_steps (w, a) (w', a_signal w (ORouse ob) a) \<and>
    quiet (hand [LStr (sys_zmq_message sys x2)] [s] w) w0 \<and> w_object w0 = w_object (clear_oflag LUV_ZMQ_WRECV ob w) \<and> made_ready s w0 w'"
proof -
  let ?g = "ngx_queue_remove (SCond s)" and ?vs = "[LStr (sys_zmq_message sys x2)]"
  let ?c = "clear_oflag LUV_ZMQ_WRECV ob w" and ?x = "snd (sys_call sys Zmq_msg_close x2)"
  let ?w0 = "(hand ?vs [s] ?c)\<lparr>w_ext := ?x\<rparr>"
  have q: "quiet (hand ?vs [s] w) ?w0" unfolding quiet_def
    by (intro exI [of _ "w_object ?c"] exI [of _ ?x] world.equality) (simp_all add: hand_def clear_oflag_def fun_eq_iff)
  then have core0: "core ?w0 = core w" using quiet_same(11) by fastforce
  note r = rouse_after [OF inv inv_object_cond [OF inv ob] s core0]
  have "luvL_zmq_socket_recv sys ob s (upd_queue ?g ?c) = Done rv ((hand ?vs [s] (upd_queue ?g ?c))\<lparr>w_ext := ?x\<rparr>)"
    by (rule zmq_recv_eq) (use x in \<open>simp_all add: clear_oflag_def\<close>)
  moreover have "(hand ?vs [s] (upd_queue ?g ?c))\<lparr>w_ext := ?x\<rparr> = upd_queue ?g ?w0"
    by (intro world.equality) (simp_all add: hand_def fun_eq_iff)
  ultimately have recv: "luvL_zmq_socket_recv sys ob s (upd_queue ?g ?c) = Done rv (upd_queue ?g ?w0)" by simp
  have hd: "ngx_queue_head (ORouse ob) (w_queue ?c) = SCond s" using r(1) by (simp add: clear_oflag_def)
  from r(3) obtain w' where w': "luvL_state_ready s (upd_queue ?g ?w0) = Done () w'"
    "api_steps (w, a) (w', a_signal w (ORouse ob) a)" "made_ready s ?w0 w'" by blast
  have "poll_recv sys ob rd w = Done () w'"
    using rd x(3) hd recv w'(1) by (simp add: poll_recv_def queue_data_def of_cond_def Let_def)
  with w'(2,3) q show ?thesis by (intro exI [of _ ?w0] exI [of _ w']) simp
qed

text \<open>C38: A message on a ZeroMQ socket goes to the state that has waited longest in \<open>recv\<close>: when the poll handle
  reports the socket as readable, the callback leaves the message as the only value on the stack of that state
  and makes it ready; the other waiting states stay in the queue in order, their stacks and flags do
  not change, and the invariant of the scheduler holds.  But the callback also clears the one bit
  that says that states wait to receive: unless a state waits to send, the next events of the socket
  are ignored although the others still wait.\<close>

theorem zmq_poll_delivers:
  assumes "sched_inv w a" "ob < w_nobject w" "has_oflag LUV_ZMQ_WRECV ob w" "a_wait a (ORouse ob) = s # ss"
    and "sys_call sys (Zmq_poll (o_socket ob w) ZMQ_POLLIN) (w_ext w) = (rd, x0)" "0 < rd"
    and "sys_call sys Zmq_msg_init x0 = (r0, x1)" "sys_call sys (Zmq_msg_recv (o_socket ob w)) x1 = (rv, x2)" "0 \<le> rv"
  shows "\<exists>w' a'. zmq_poll_cb sys ob st ev w = Done () w' \<and> sched_inv w' a' \<and> a_wait a' (ORouse ob) = ss \<and>
    ready w' s \<and> w_stack w' (st_L (w_state w s)) = [LStr (sys_zmq_message sys x2)] \<and>
    (\<forall>x. x \<noteq> s \<longrightarrow> ready w' x = ready w x) \<and> (\<forall>L. L \<noteq> st_L (w_state w s) \<longrightarrow> w_stack w' L = w_stack w L) \<and>
    (\<not> has_oflag LUV_ZMQ_WSEND ob w \<longrightarrow> (\<forall>st' ev'. zmq_poll_cb sys ob st' ev' w' = Done () w'))"
proof -
  let ?w = "w\<lparr>w_ext := x0\<rparr>"
  have core: "core ?w = core w" by (rule quiet_same(11) [OF quiet_ext(1)])
  have inv: "sched_inv ?w a" by (rule sched_inv_core [OF core assms(1)])
  obtain w0 w' where w': "poll_recv sys ob rd ?w = Done () w'" "api_steps (?w, a) (w', a_signal ?w (ORouse ob) a)"
    "quiet (hand [LStr (sys_zmq_message sys x2)] [s] ?w) w0" "w_object w0 = w_object (clear_oflag LUV_ZMQ_WRECV ob ?w)" "made_ready s w0 w'"
    using poll_recv_steps [OF inv _ assms(4,6)] assms(2,7-9) by fastforce
  note q = quiet_same [OF w'(3)]
  have "zmq_poll_cb sys ob st ev w = Done () w'"
    using assms(3,5,6) w'(1) by (simp add: zmq_poll_cb_def luvL_zmq_socket_readable_def uv_Done)
  moreover have "sched_inv w' (a_signal ?w (ORouse ob) a)" using api_steps_inv [OF w'(2) inv] by blast
  moreover have "a_wait (a_signal ?w (ORouse ob) a) (ORouse ob) = ss" using assms(4) by (simp add: a_signal_def)
  moreover have "ready w' x \<longleftrightarrow> x = s \<or> ready w x" for x
    using w'(5) by (simp add: made_ready_def core_eq(10) [OF q(11)]) (simp add: state_flag_def)
  moreover have "w_stack w' = w_stack (hand [LStr (sys_zmq_message sys x2)] [s] ?w)" using w'(5) q(6) by (simp add: made_ready_def)
  moreover have "has_oflag F ob w' = has_oflag F ob (clear_oflag LUV_ZMQ_WRECV ob w)" for F
    using w'(4,5) by (simp add: made_ready_def has_oflag_def clear_oflag_def)
  then have "zmq_poll_cb sys ob st' ev' w' = Done () w'" if "\<not> has_oflag LUV_ZMQ_WSEND ob w" for st' ev'
    using that by (simp add: zmq_poll_cb_def poll_wsend_def oflag_clear)
  ultimately show ?thesis by (auto simp: hand_def)
qed

theorem zmq_poll_delivers_witness:
  "\<exists>w'. zmq_poll_cb (demo_sys\<lparr>sys_call := (\<lambda>c x. (1, x))\<rparr>) serv 0 1 (set_oflag LUV_ZMQ_WRECV serv read_world) = Done () w' \<and>
    ready w' 1 \<and> w_stack w' demo_L = [LStr (sys_zmq_message demo_sys (w_ext read_world))]"
proof -
  let ?w = "set_oflag LUV_ZMQ_WRECV serv read_world" and ?sys = "demo_sys\<lparr>sys_call := (\<lambda>c x. (1, x))\<rparr>"
  have "sched_inv ?w (a_add_wait (ORouse serv) 1 tcp_sched)" by (rule sched_inv_core [OF core_lua(3) read_world_inv(1)])
  moreover have "serv < w_nobject ?w" "st_L (w_state ?w 1) = demo_L" using read_world_inv(2,3) by (simp_all add: set_oflag_def)
  moreover have "has_oflag LUV_ZMQ_WRECV serv ?w" by (simp add: has_oflag_def set_oflag_def LUV_ZMQ_WRECV_def has_flag_set)
  moreover have "a_wait (a_add_wait (ORouse serv) 1 tcp_sched) (ORouse serv) = 1 # []" by simp
  moreover have "w_ext ?w = w_ext read_world" by (simp add: set_oflag_def)
  ultimately show ?thesis
    using zmq_poll_delivers [of ?w "a_add_wait (ORouse serv) 1 tcp_sched" serv 1 "[]" ?sys 1 "w_ext read_world" 1 "w_ext read_world" 1 "w_ext read_world" 0 1]
    by auto
qed

text \<open>
  The bit for waiting receivers is the bit that marks a closing object: while a state waits in \<open>recv\<close>,
  \<open>socket:close()\<close> returns without closing anything.
\<close>

lemma zmq_close_ignored:
  assumes "check_object L 1 LUV_ZMQ_SOCKET_T w = Done ob w" "has_oflag LUV_ZMQ_WRECV ob w"
  shows "luv_zmq_socket_close sys L w = Done 1 w"
proof -
  have "luvL_object_is_closing (w_object w ob)"
    using assms(2) by (simp add: luvL_object_is_closing_def has_oflag_def LUV_ZMQ_WRECV_def LUV_OCLOSING_def)
  then show ?thesis using assms(1) by (simp add: luv_zmq_socket_close_def zmq_close_object_def)
qed

end
